(* ===== verification/Prelude.thy ===== *)
theory Prelude
  imports Main "HOL-Library.Word" "HOL-Library.Multiset"
begin

text \<open>
  Shared vocabulary of the model of \<open>src/src/Nodeset.c\<close>.
  The C code has no error returns of its own: where it would dereference
  \<open>NULL\<close>, index an array outside its allocation, read a value that was
  never written or overflow a fixed-size buffer, the behaviour is undefined.
  The model makes each such point an explicit \<open>Inl\<close> branch of the result
  type \<open>error + 'a\<close>, so that a theorem saying an operation returns \<open>Inr\<close>
  says that the C code has defined behaviour there.
  Pointers into the heap of nodes and into the store of references are
  indices into lists; \<open>nth_checked\<close> reads such a list and fails outside it.
\<close>

datatype error =
    NullDeref string        \<comment> \<open>a \<open>NULL\<close> \<open>char *\<close> handed to \<open>strchr\<close>/\<open>strcmp\<close>\<close>
  | IndexOutOfBounds string \<comment> \<open>an array access outside its allocation\<close>
  | Indeterminate string    \<comment> \<open>a read of a field that was never written\<close>
  | IntOverflow string      \<comment> \<open>\<open>atoi\<close> on a number outside \<open>int\<close>\<close>
  | CapacityExceeded string \<comment> \<open>a write past a fixed \<open>MAX_*\<close> buffer\<close>

type_synonym 'a result = "error + 'a"

named_theorems nodeset_defs "definitions of the Nodeset model unfolded by the component proofs"

definition bindE :: "'a result \<Rightarrow> ('a \<Rightarrow> 'b result) \<Rightarrow> 'b result" where
  "bindE m f = (case m of Inl e \<Rightarrow> Inl e | Inr a \<Rightarrow> f a)"

definition nth_checked :: "string \<Rightarrow> 'a list \<Rightarrow> nat \<Rightarrow> 'a result" where
  "nth_checked what xs i = (if i < length xs then Inr (xs ! i) else Inl (IndexOutOfBounds what))"

definition mapE :: "('a \<Rightarrow> 'b) \<Rightarrow> 'a result \<Rightarrow> 'b result" where
  "mapE f m = bindE m (\<lambda>a. Inr (f a))"

subsection \<open>Result combinators\<close>

text \<open>
  The continuation of \<open>bindE\<close> is rewritten only once the first computation
  has a value, as for \<open>case\<close>: closed runs then evaluate step by step.
\<close>

lemma bindE_cong [cong]: "m = m' \<Longrightarrow> bindE m f = bindE m' f"
  by simp

lemma bindE_Inl [simp]: "bindE (Inl e) f = Inl e"
  by (simp add: bindE_def)

lemma bindE_Inr [simp]: "bindE (Inr a) f = f a"
  by (simp add: bindE_def)

lemma bindE_eq_Inr_iff [simp]:
  "bindE m f = Inr b \<longleftrightarrow> (\<exists>a. m = Inr a \<and> f a = Inr b)"
  by (cases m) auto

lemma mapE_eq_Inr_iff [simp]:
  "mapE f m = Inr b \<longleftrightarrow> (\<exists>a. m = Inr a \<and> b = f a)"
  by (auto simp: mapE_def)

lemma mapE_simps [simp]: "mapE f (Inr a) = Inr (f a)" "mapE f (Inl e) = Inl e"
  by (simp_all add: mapE_def)

lemma nth_checked_eq_Inr_iff [simp]:
  "nth_checked what xs i = Inr x \<longleftrightarrow> i < length xs \<and> x = xs ! i"
  by (auto simp: nth_checked_def)

lemma nth_checked_in_range [simp]: "i < length xs \<Longrightarrow> nth_checked what xs i = Inr (xs ! i)"
  by (simp add: nth_checked_def)

lemma nth_checked_out_of_range [simp]:
  "\<not> i < length xs \<Longrightarrow> nth_checked what xs i = Inl (IndexOutOfBounds what)"
  by (simp add: nth_checked_def)

subsection \<open>Lists used as heaps\<close>

lemma nth_append_length_self [simp]: "(xs @ [x]) ! length xs = x"
  by simp

lemma nth_append_old [simp]: "i < length xs \<Longrightarrow> (xs @ [x]) ! i = xs ! i"
  by (simp add: nth_append)

lemma find_Some_in_set: "find P xs = Some x \<Longrightarrow> x \<in> set xs \<and> P x"
  by (induction xs) (auto split: if_splits)

lemma length_remove1_less: "x \<in> set xs \<Longrightarrow> length (remove1 x xs) < length xs"
  by (induction xs) auto

lemma concat_map_concat: "concat (map f (concat xss)) = concat (map (\<lambda>xs. concat (map f xs)) xss)"
  by (induction xss) auto

lemma mset_concat_map_update:
  "i < length xs \<Longrightarrow>
   mset (concat (map f (xs[i := y]))) + mset (f (xs ! i)) = mset (concat (map f xs)) + mset (f y)"
proof (induction xs arbitrary: i)
  case (Cons x xs)
  then show ?case by (cases i) (auto simp: algebra_simps)
qed simp

lemma find_None_iff_all: "find P xs = None \<longleftrightarrow> (\<forall>x \<in> set xs. \<not> P x)"
  by (induction xs) auto

lemma mset_filter_split [simp]: "mset (filter P xs) + mset (filter (\<lambda>x. \<not> P x) xs) = mset xs"
  by (induction xs) auto

end
