(* ===== verification/NodeIds.thy ===== *)
theory NodeIds
  imports Prelude
begin

text \<open>
  Node ids, browse names and the namespace table of \<open>Nodeset.c\<close>
  (lines 149--210): \<open>translateNodeId\<close>, \<open>translateBrowseName\<close>,
  \<open>extractNodedId\<close>, \<open>extractBrowseName\<close>, with the C library functions
  they call (\<open>strchr\<close>, \<open>atoi\<close>) written out.
  \<open>TNodeId.nsIdx\<close> is a C \<open>int\<close> (a \<open>32 word\<close> read with \<open>sint\<close>),
  \<open>TBrowseName.nsIdx\<close> a \<open>uint16_t\<close>, and the namespace table's global
  index \<open>TNamespace.idx\<close> a \<open>size_t\<close> (\<open>64 word\<close>): the casts of the source
  (\<open>(int)\<close>, \<open>(uint16_t)\<close>, \<open>(size_t)\<close>) are \<open>ucast\<close>/\<open>scast\<close>.
  A table entry whose \<open>idx\<close> was never written (after \<open>Nodeset_newNamespace\<close>
  and before its \<open>Finish\<close>) holds \<open>None\<close>.
\<close>

record tnodeid =
  nsIdx :: "32 word"
  idStr :: "string option"

record tbrowsename =
  bn_nsIdx :: "16 word"
  bn_name :: string

record tnamespace =
  ns_idx :: "64 word option"
  ns_name :: "string option"

definition null_nodeid :: tnodeid where
  "null_nodeid = \<lparr>nsIdx = 0, idStr = None\<rparr>"

subsection \<open>The C library: \<open>strchr\<close> and \<open>atoi\<close>\<close>

text \<open>\<open>strchr s c\<close>: the offset of the first \<open>c\<close> in \<open>s\<close>, \<open>None\<close> for \<open>NULL\<close>.\<close>

fun strchr :: "string \<Rightarrow> char \<Rightarrow> nat option" where
  "strchr [] c = None"
| "strchr (x # xs) c = (if x = c then Some 0 else map_option Suc (strchr xs c))"

definition c_isspace :: "char \<Rightarrow> bool" where
  "c_isspace c \<longleftrightarrow> of_char c = (32::nat) \<or> (9 \<le> (of_char c::nat) \<and> (of_char c::nat) \<le> 13)"

definition c_isdigit :: "char \<Rightarrow> bool" where
  "c_isdigit c \<longleftrightarrow> 48 \<le> (of_char c::nat) \<and> (of_char c::nat) \<le> 57"

fun digits_val :: "int \<Rightarrow> string \<Rightarrow> int" where
  "digits_val acc [] = acc"
| "digits_val acc (c # cs) =
     (if c_isdigit c then digits_val (10 * acc + int (of_char c - 48)) cs else acc)"

text \<open>
  \<open>atoi\<close> is \<open>(int) strtol(s, NULL, 10)\<close>: leading white space, an optional
  sign, then the longest run of decimal digits; the mathematical value is
  returned here and the conversion to \<open>int\<close> (\<open>c_int_of\<close>) fails where
  the C result is undefined.
\<close>

definition atoi :: "string \<Rightarrow> int" where
  "atoi s = (case dropWhile c_isspace s of
       [] \<Rightarrow> 0
     | c # cs \<Rightarrow>
         (if c = CHR ''-'' then - digits_val 0 cs
          else if c = CHR ''+'' then digits_val 0 cs
          else digits_val 0 (c # cs)))"

definition c_int_of :: "int \<Rightarrow> 32 word result" where
  "c_int_of v = (if - (2 ^ 31) \<le> v \<and> v < 2 ^ 31 then Inr (word_of_int v)
                 else Inl (IntOverflow ''atoi''))"

subsection \<open>Namespace translation\<close>

definition translateNodeId :: "tnamespace list \<Rightarrow> tnodeid \<Rightarrow> tnodeid result" where
  "translateNodeId namespaces i =
     (if 0 <s nsIdx i then
        bindE (nth_checked ''namespaces[id.nsIdx]'' namespaces (unat (nsIdx i))) (\<lambda>ns.
          case ns_idx ns of
            None \<Rightarrow> Inl (Indeterminate ''namespaces[id.nsIdx].idx'')
          | Some g \<Rightarrow> Inr (i\<lparr>nsIdx := ucast g\<rparr>))
      else Inr i)"

definition translateBrowseName :: "tnamespace list \<Rightarrow> tbrowsename \<Rightarrow> tbrowsename result" where
  "translateBrowseName namespaces bn =
     (if 0 < bn_nsIdx bn then
        bindE (nth_checked ''namespaces[bn.nsIdx]'' namespaces (unat (bn_nsIdx bn))) (\<lambda>ns.
          case ns_idx ns of
            None \<Rightarrow> Inl (Indeterminate ''namespaces[bn.nsIdx].idx'')
          | Some g \<Rightarrow> Inr (bn\<lparr>bn_nsIdx := ucast g\<rparr>))
      else Inr bn)"

subsection \<open>Parsing the textual forms\<close>

text \<open>
  \<open>extractNodedId\<close>: \<open>NULL\<close> gives the null id; a string without \<open>';'\<close> is
  an id of namespace 0; otherwise the namespace index is \<open>atoi(&s[3])\<close>
  (the code assumes the prefix \<open>ns=\<close> without checking it) and the id is
  the text after the first \<open>';'\<close>. Reading \<open>s[3]\<close> of a string shorter than
  three characters is outside the string and its terminator.
\<close>

definition extractNodedId :: "tnamespace list \<Rightarrow> string option \<Rightarrow> tnodeid result" where
  "extractNodedId namespaces s =
     (case s of
        None \<Rightarrow> Inr null_nodeid
      | Some str \<Rightarrow>
          (case strchr str CHR '';'' of
             None \<Rightarrow> Inr \<lparr>nsIdx = 0, idStr = Some str\<rparr>
           | Some i \<Rightarrow>
               (if length str < 3 then Inl (IndexOutOfBounds ''&s[3]'')
                else bindE (c_int_of (atoi (drop 3 str))) (\<lambda>k.
                  translateNodeId namespaces \<lparr>nsIdx = k, idStr = Some (drop (Suc i) str)\<rparr>))))"

text \<open>
  \<open>extractBrowseName\<close> calls \<open>strchr\<close> on its argument without a \<open>NULL\<close>
  check; the index before \<open>':'\<close> is \<open>(uint16_t)atoi(s)\<close>.
\<close>

definition extractBrowseName :: "tnamespace list \<Rightarrow> string option \<Rightarrow> tbrowsename result" where
  "extractBrowseName namespaces s =
     (case s of
        None \<Rightarrow> Inl (NullDeref ''strchr(BrowseName)'')
      | Some str \<Rightarrow>
          (case strchr str CHR '':'' of
             None \<Rightarrow> Inr \<lparr>bn_nsIdx = 0, bn_name = str\<rparr>
           | Some i \<Rightarrow>
               bindE (c_int_of (atoi str)) (\<lambda>k.
                 translateBrowseName namespaces \<lparr>bn_nsIdx = ucast k, bn_name = drop (Suc i) str\<rparr>)))"

subsection \<open>The textual forms of the specification\<close>

text \<open>
  The spec writes a node id as \<open>ns=<k>;<rest>\<close> or \<open><rest>\<close> and a browse name
  as \<open><k>:<name>\<close> or \<open><name>\<close>; \<open>decimal\<close> prints \<open>k\<close>.
\<close>

fun decimal :: "nat \<Rightarrow> string" where
  "decimal n = (if n < 10 then [char_of (48 + n)]
                else decimal (n div 10) @ [char_of (48 + n mod 10)])"

declare decimal.simps [simp del]

definition print_nodeid :: "nat \<Rightarrow> string \<Rightarrow> string" where
  "print_nodeid k rest = ''ns='' @ decimal k @ CHR '';'' # rest"

definition print_browsename :: "nat \<Rightarrow> string \<Rightarrow> string" where
  "print_browsename k name = decimal k @ CHR '':'' # name"

subsection \<open>Lemmas on the C library functions\<close>

lemma of_char_digit [simp]: "n < 10 \<Longrightarrow> (of_char (char_of (48 + n) :: char) :: nat) = 48 + n"
  by (simp add: of_char_of)

lemma c_isdigit_digit [simp]: "(n::nat) < 10 \<Longrightarrow> c_isdigit (char_of (48 + n))"
  by (simp add: c_isdigit_def)

lemma decimal_digits: "c \<in> set (decimal n) \<Longrightarrow> c_isdigit c"
proof (induction n rule: decimal.induct)
  case (1 n)
  then show ?case
    by (cases "n < 10") (auto simp: decimal.simps [of n])
qed

lemma decimal_not_Nil [simp]: "decimal n \<noteq> []"
  by (simp add: decimal.simps [of n])

lemma c_isdigit_not_space: "c_isdigit c \<Longrightarrow> \<not> c_isspace c"
  by (auto simp: c_isdigit_def c_isspace_def)

lemma c_isdigit_not_sign: "c_isdigit c \<Longrightarrow> c \<noteq> CHR ''-'' \<and> c \<noteq> CHR ''+''"
  by (auto simp: c_isdigit_def)

lemma strchr_None: "c \<notin> set s \<Longrightarrow> strchr s c = None"
  by (induction s) auto

lemma strchr_append_notin: "c \<notin> set xs \<Longrightarrow> strchr (xs @ c # ys) c = Some (length xs)"
  by (induction xs) auto

lemma digits_val_decimal:
  "digits_val acc (decimal n @ rest) = digits_val (acc * 10 ^ length (decimal n) + int n) rest"
proof (induction n arbitrary: acc rest rule: decimal.induct)
  case (1 n)
  show ?case
  proof (cases "n < 10")
    case True
    then show ?thesis by (simp add: decimal.simps [of n] of_nat_diff mult.commute)
  next
    case False
    let ?d = "char_of (48 + n mod 10) :: char"
    have "digits_val acc (decimal n @ rest) = digits_val acc (decimal (n div 10) @ ?d # rest)"
      using False by (simp add: decimal.simps [of n])
    also have "\<dots> = digits_val (acc * 10 ^ length (decimal (n div 10)) + int (n div 10)) (?d # rest)"
      using "1.IH" False by blast
    also have "\<dots> = digits_val ((acc * 10 ^ length (decimal (n div 10)) + int (n div 10)) * 10
                                + int (n mod 10)) rest"
      by (simp add: of_nat_diff algebra_simps)
    also have "(acc * 10 ^ length (decimal (n div 10)) + int (n div 10)) * 10 + int (n mod 10)
               = acc * 10 ^ length (decimal n) + int n"
      using False by (simp add: decimal.simps [of n] algebra_simps of_nat_mod of_nat_div)
    finally show ?thesis .
  qed
qed

lemma atoi_decimal:
  assumes "\<not> c_isdigit c"
  shows "atoi (decimal n @ c # rest) = int n"
proof -
  obtain d ds where dec: "decimal n = d # ds"
    by (cases "decimal n") auto
  then have "c_isdigit d" by (metis decimal_digits list.set_intros(1))
  then have "dropWhile c_isspace (decimal n @ c # rest) = decimal n @ c # rest"
    by (simp add: dec c_isdigit_not_space)
  moreover have "digits_val 0 (decimal n @ c # rest) = int n"
    using assms by (simp add: digits_val_decimal)
  ultimately show ?thesis
    using \<open>c_isdigit d\<close> by (simp add: atoi_def dec c_isdigit_not_sign)
qed

lemma c_int_of_nat: "n < 2 ^ 31 \<Longrightarrow> c_int_of (int n) = Inr (word_of_nat n)"
  by (simp add: c_int_of_def)

lemma semicolon_not_digit [simp]: "\<not> c_isdigit CHR '';''" and colon_not_digit [simp]: "\<not> c_isdigit CHR '':''"
  by (simp_all add: c_isdigit_def)

lemma semicolon_notin_decimal [simp]: "CHR '';'' \<notin> set (decimal n)"
  and colon_notin_decimal [simp]: "CHR '':'' \<notin> set (decimal n)"
  using decimal_digits by fastforce+

subsection \<open>Namespace translation, branch by branch\<close>

lemma translateNodeId_nonpositive [simp]:
  "\<not> 0 <s nsIdx i \<Longrightarrow> translateNodeId namespaces i = Inr i"
  by (simp add: translateNodeId_def)

lemma translateNodeId_entry:
  "0 <s nsIdx i \<Longrightarrow> unat (nsIdx i) < length namespaces \<Longrightarrow>
   ns_idx (namespaces ! unat (nsIdx i)) = Some g \<Longrightarrow>
   translateNodeId namespaces i = Inr (i\<lparr>nsIdx := ucast g\<rparr>)"
  by (simp add: translateNodeId_def)

lemma translateNodeId_outside:
  "0 <s nsIdx i \<Longrightarrow> length namespaces \<le> unat (nsIdx i) \<Longrightarrow>
   translateNodeId namespaces i = Inl (IndexOutOfBounds ''namespaces[id.nsIdx]'')"
  by (simp add: translateNodeId_def)

lemma translateNodeId_unset:
  "0 <s nsIdx i \<Longrightarrow> unat (nsIdx i) < length namespaces \<Longrightarrow>
   ns_idx (namespaces ! unat (nsIdx i)) = None \<Longrightarrow>
   translateNodeId namespaces i = Inl (Indeterminate ''namespaces[id.nsIdx].idx'')"
  by (simp add: translateNodeId_def)

lemma strchr_Some_less: "strchr xs c = Some k \<Longrightarrow> k < length xs"
  by (induction xs arbitrary: k) (auto split: if_splits)

lemma translateNodeId_idStr: "translateNodeId namespaces i = Inr j \<Longrightarrow> idStr j = idStr i"
  by (auto simp: translateNodeId_def split: if_splits option.splits)

lemma extractNodedId_plain_cases:
  "CHR '';'' \<notin> set s \<Longrightarrow> extractNodedId namespaces (Some s) = Inr \<lparr>nsIdx = 0, idStr = Some s\<rparr>"
  by (simp add: extractNodedId_def strchr_None)

lemma word_of_nat_sless_pos:
  "0 < k \<Longrightarrow> k < 2 ^ 31 \<Longrightarrow> (0::32 word) <s word_of_nat k \<and> unat (word_of_nat k :: 32 word) = k"
  by (simp add: word_sless_alt signed_of_nat unat_of_nat signed_take_bit_int_eq_self)

text \<open>
  The global index travels as \<open>int\<close> (callback) \<open>\<rightarrow>\<close> \<open>size_t\<close> (table)
  \<open>\<rightarrow>\<close> \<open>int\<close> (node id) or \<open>uint16_t\<close> (browse name).
\<close>

lemma ucast_scast_int_sizet [simp]: "(ucast (scast (w::32 word) :: 64 word) :: 32 word) = w"
  by (rule bit_word_eqI) (auto simp: bit_simps)

lemma ucast_scast_uint16_sizet [simp]: "(ucast (scast (w::32 word) :: 64 word) :: 16 word) = ucast w"
  by (rule bit_word_eqI) (auto simp: bit_simps)

lemma ucast_word_of_nat_16:
  "(ucast (word_of_nat k :: 32 word) :: 16 word) = word_of_nat k"
  by (rule bit_word_eqI) (auto simp: bit_simps)

lemma word16_of_nat_pos:
  "k mod 2 ^ 16 \<noteq> 0 \<Longrightarrow> 0 < (word_of_nat k :: 16 word) \<and> unat (word_of_nat k :: 16 word) = k mod 2 ^ 16"
  by (simp add: unat_of_nat word_less_nat_alt)

subsection \<open>Parsing node ids and browse names\<close>

text \<open>The prefixed form, before translation.\<close>

lemma extractNodedId_prefixed:
  assumes "k < 2 ^ 31"
  shows "extractNodedId namespaces (Some (print_nodeid k rest)) =
         translateNodeId namespaces \<lparr>nsIdx = word_of_nat k, idStr = Some rest\<rparr>"
proof -
  have "strchr (print_nodeid k rest) CHR '';'' = Some (3 + length (decimal k))"
    using strchr_append_notin [of "CHR '';''" "''ns='' @ decimal k" rest]
    by (simp add: print_nodeid_def)
  moreover have "atoi (drop 3 (print_nodeid k rest)) = int k"
    by (simp add: print_nodeid_def atoi_decimal)
  moreover have "drop (Suc (3 + length (decimal k))) (print_nodeid k rest) = rest"
    by (simp add: print_nodeid_def drop_Cons' numeral_eq_Suc)
  ultimately show ?thesis
    using assms by (simp add: extractNodedId_def c_int_of_nat print_nodeid_def)
qed

lemma extractBrowseName_prefixed:
  assumes "k < 2 ^ 31"
  shows "extractBrowseName namespaces (Some (print_browsename k name)) =
         translateBrowseName namespaces \<lparr>bn_nsIdx = word_of_nat k, bn_name = name\<rparr>"
proof -
  have "strchr (print_browsename k name) CHR '':'' = Some (length (decimal k))"
    by (simp add: print_browsename_def strchr_append_notin)
  moreover have "atoi (print_browsename k name) = int k"
    by (simp add: print_browsename_def atoi_decimal)
  ultimately show ?thesis
    using assms by (simp add: extractBrowseName_def c_int_of_nat ucast_word_of_nat_16 print_browsename_def)
qed

text \<open>
  C10: a node id written \<open>ns=<k>;<rest>\<close>, with \<open>k\<close> a file-local index whose
  table entry holds the server-global index \<open>g\<close>, parses to \<open>(g, rest)\<close>:
  the translation is applied at parse time, whatever \<open>rest\<close> contains.
\<close>

theorem extractNodedId_roundtrip:
  assumes "0 < k" and "k < length namespaces" and "k < 2 ^ 31"
    and "ns_idx (namespaces ! k) = Some g"
  shows "extractNodedId namespaces (Some (print_nodeid k rest)) =
         Inr \<lparr>nsIdx = ucast g, idStr = Some rest\<rparr>"
proof -
  have "(0::32 word) <s word_of_nat k" and "unat (word_of_nat k :: 32 word) = k"
    using word_of_nat_sless_pos [OF assms(1,3)] by simp_all
  then have "translateNodeId namespaces \<lparr>nsIdx = word_of_nat k, idStr = Some rest\<rparr> =
             Inr \<lparr>nsIdx = ucast g, idStr = Some rest\<rparr>"
    using assms(2,4) by (simp add: translateNodeId_entry)
  then show ?thesis
    using assms(3) by (simp add: extractNodedId_prefixed)
qed

lemma extractNodedId_roundtrip_witness:
  "extractNodedId [\<lparr>ns_idx = Some 0, ns_name = None\<rparr>, \<lparr>ns_idx = Some 7, ns_name = Some ''urn:acme''\<rparr>]
     (Some (print_nodeid 1 ''i=10'')) = Inr \<lparr>nsIdx = 7, idStr = Some ''i=10''\<rparr>"
  using extractNodedId_roundtrip [of 1 "[\<lparr>ns_idx = Some 0, ns_name = None\<rparr>,
      \<lparr>ns_idx = Some 7, ns_name = Some ''urn:acme''\<rparr>]" 7 "''i=10''"]
  by simp

text \<open>
  A node id without \<open>';'\<close> is an identifier of namespace 0, untranslated
  (the spec's boundary case \<open>i=85\<close>).
\<close>

theorem extractNodedId_plain:
  "CHR '';'' \<notin> set s \<Longrightarrow> extractNodedId namespaces (Some s) = Inr \<lparr>nsIdx = 0, idStr = Some s\<rparr>"
  by (simp add: extractNodedId_def strchr_None)

lemma extractNodedId_plain_witness:
  "extractNodedId [] (Some ''i=85'') = Inr \<lparr>nsIdx = 0, idStr = Some ''i=85''\<rparr>"
  using extractNodedId_plain [of "''i=85''" "[]"] by simp

text \<open>
  C29: the namespace index of a browse name \<open><k>:<name>\<close> is \<open>(uint16_t)atoi\<close>,
  so the table entry consulted is \<open>k mod 2^16\<close>: \<open>65537:x\<close> is translated
  with the entry of file index 1.
\<close>

theorem extractBrowseName_index_mod:
  assumes "k < 2 ^ 31" and "k mod 2 ^ 16 \<noteq> 0"
    and "k mod 2 ^ 16 < length namespaces" and "ns_idx (namespaces ! (k mod 2 ^ 16)) = Some g"
  shows "extractBrowseName namespaces (Some (print_browsename k name)) =
         Inr \<lparr>bn_nsIdx = ucast g, bn_name = name\<rparr>"
  using assms word16_of_nat_pos [OF assms(2)]
  by (simp add: extractBrowseName_prefixed translateBrowseName_def)

lemma extractBrowseName_index_mod_witness:
  "extractBrowseName [\<lparr>ns_idx = Some 0, ns_name = None\<rparr>, \<lparr>ns_idx = Some 7, ns_name = None\<rparr>]
     (Some (print_browsename 65537 ''x'')) = Inr \<lparr>bn_nsIdx = 7, bn_name = ''x''\<rparr>"
  using extractBrowseName_index_mod [of 65537
      "[\<lparr>ns_idx = Some 0, ns_name = None\<rparr>, \<lparr>ns_idx = Some 7, ns_name = None\<rparr>]" 7 "''x''"]
  by simp

lemma translateBrowseName_name: "translateBrowseName namespaces bn = Inr bn' \<Longrightarrow> bn_name bn' = bn_name bn"
  by (auto simp: translateBrowseName_def split: if_splits option.splits)

text \<open>
  C32: whenever the text of a node id contains \<open>';'\<close>, a successful
  \<open>extractNodedId\<close> keeps only the text after the first \<open>';'\<close>, whether or
  not the text starts with \<open>ns=\<close>: the prefix is never checked, so a
  string identifier of namespace 0 that contains \<open>';'\<close> (such as
  \<open>s=a;b\<close>) is never read as the whole string, as the spec's rule says.
\<close>

theorem extractNodedId_semicolon_split:
  assumes "strchr str CHR '';'' = Some k" and "extractNodedId namespaces (Some str) = Inr i"
  shows "idStr i = Some (drop (Suc k) str) \<and> idStr i \<noteq> Some str"
proof -
  from assms obtain w where "translateNodeId namespaces \<lparr>nsIdx = w, idStr = Some (drop (Suc k) str)\<rparr> = Inr i"
    by (auto simp: extractNodedId_def split: if_splits)
  then have "idStr i = Some (drop (Suc k) str)"
    by (auto dest: translateNodeId_idStr)
  moreover have "k < length str"
    using assms(1) by (rule strchr_Some_less)
  ultimately show ?thesis
    by (auto dest: arg_cong [where f = length])
qed

text \<open>
  C34: likewise for browse names: whenever the text contains \<open>':'\<close>, a
  successful \<open>extractBrowseName\<close> keeps only the text after the first
  \<open>':'\<close>, even when no index precedes it (\<open>Temp:x\<close> becomes \<open>x\<close>), where
  the spec reads a name without an index prefix as the bare name.
\<close>

theorem extractBrowseName_colon_split:
  assumes "strchr str CHR '':'' = Some k" and "extractBrowseName namespaces (Some str) = Inr bn"
  shows "bn_name bn = drop (Suc k) str \<and> bn_name bn \<noteq> str"
proof -
  from assms obtain w where "translateBrowseName namespaces \<lparr>bn_nsIdx = w, bn_name = drop (Suc k) str\<rparr> = Inr bn"
    by (auto simp: extractBrowseName_def)
  then have "bn_name bn = drop (Suc k) str"
    by (auto dest: translateBrowseName_name)
  moreover have "k < length str"
    using assms(1) by (rule strchr_Some_less)
  ultimately show ?thesis
    by (auto dest: arg_cong [where f = length])
qed

lemma extractNodedId_semicolon_split_witness:
  "strchr ''s=a;b'' CHR '';'' = Some 3 \<and> extractNodedId [] (Some ''s=a;b'') = Inr \<lparr>nsIdx = 0, idStr = Some ''b''\<rparr> \<and>
   idStr \<lparr>nsIdx = 0, idStr = Some ''b''\<rparr> = Some (drop 4 ''s=a;b'') \<and> idStr \<lparr>nsIdx = 0, idStr = Some ''b''\<rparr> \<noteq> Some ''s=a;b''"
proof -
  have s: "strchr ''s=a;b'' CHR '';'' = Some 3" by simp
  have e: "extractNodedId [] (Some ''s=a;b'') = Inr \<lparr>nsIdx = 0, idStr = Some ''b''\<rparr>"
    by (simp add: extractNodedId_def atoi_def c_isspace_def c_isdigit_def c_int_of_def)
  from extractNodedId_semicolon_split [OF s e] s e show ?thesis by simp
qed

lemma extractBrowseName_colon_split_witness:
  "strchr ''Temp:x'' CHR '':'' = Some 4 \<and> extractBrowseName [] (Some ''Temp:x'') = Inr \<lparr>bn_nsIdx = 0, bn_name = ''x''\<rparr> \<and>
   bn_name \<lparr>bn_nsIdx = 0, bn_name = ''x''\<rparr> = drop 5 ''Temp:x'' \<and> bn_name \<lparr>bn_nsIdx = 0, bn_name = ''x''\<rparr> \<noteq> ''Temp:x''"
proof -
  have s: "strchr ''Temp:x'' CHR '':'' = Some 4" by simp
  have e: "extractBrowseName [] (Some ''Temp:x'') = Inr \<lparr>bn_nsIdx = 0, bn_name = ''x''\<rparr>"
    by (simp add: extractBrowseName_def atoi_def c_isspace_def c_isdigit_def c_int_of_def translateBrowseName_def)
  from extractBrowseName_colon_split [OF s e] s e show ?thesis by simp
qed

end
