(* ===== verification/Aliases.thy ===== *)
theory Aliases
  imports NodeIds
begin

text \<open>
  The alias table. \<open>AliasList_newAlias\<close> and \<open>AliasList_getNodeId\<close> belong to
  \<open>AliasList.c\<close>, which is not under \<open>src/\<close>: they are modelled from the
  spec (section 4.C3) as an append-only list searched from the front, an
  alias being a pointer (list index) whose id is filled in later by
  \<open>Nodeset_newAliasFinish\<close>. A lookup with a \<open>NULL\<close> name finds nothing.
  \<open>alias2Id\<close> (\<open>Nodeset.c\<close> 212--220) is the resolution the builder uses
  for reference types and data types: an alias name first, otherwise the
  text parsed as a node id.
\<close>

record Alias =
  alias_name :: "string option"
  alias_id :: tnodeid

definition AliasList_newAlias :: "Alias list \<Rightarrow> string option \<Rightarrow> Alias list \<times> nat" where
  "AliasList_newAlias aliases name =
     (aliases @ [\<lparr>alias_name = name, alias_id = null_nodeid\<rparr>], length aliases)"

fun AliasList_getNodeId :: "Alias list \<Rightarrow> string option \<Rightarrow> tnodeid option" where
  "AliasList_getNodeId [] name = None"
| "AliasList_getNodeId (a # as) name =
     (if name \<noteq> None \<and> alias_name a = name then Some (alias_id a)
      else AliasList_getNodeId as name)"

definition alias2Id :: "Alias list \<Rightarrow> tnamespace list \<Rightarrow> string option \<Rightarrow> tnodeid result" where
  "alias2Id aliases namespaces name =
     (case AliasList_getNodeId aliases name of
        None \<Rightarrow> extractNodedId namespaces name
      | Some i \<Rightarrow> Inr i)"

lemma AliasList_getNodeId_None:
  "AliasList_getNodeId aliases name = None \<longleftrightarrow> name = None \<or> name \<notin> alias_name ` set aliases"
  by (induction aliases) auto

lemma AliasList_getNodeId_append:
  "AliasList_getNodeId (aliases @ rest) name =
     (case AliasList_getNodeId aliases name of None \<Rightarrow> AliasList_getNodeId rest name | r \<Rightarrow> r)"
  by (induction aliases) auto

lemma AliasList_getNodeId_update_other:
  "i < length aliases \<Longrightarrow> alias_name (aliases ! i) \<noteq> name \<Longrightarrow>
   AliasList_getNodeId (aliases[i := (aliases ! i)\<lparr>alias_id := x\<rparr>]) name = AliasList_getNodeId aliases name"
proof (induction aliases arbitrary: i)
  case (Cons a as)
  then show ?case by (cases i) auto
qed simp

lemma alias2Id_not_alias:
  "name = None \<or> name \<notin> alias_name ` set aliases \<Longrightarrow> alias2Id aliases namespaces name = extractNodedId namespaces name"
  by (simp add: alias2Id_def AliasList_getNodeId_None [THEN iffD2])

lemma alias2Id_Nil [simp]: "alias2Id [] namespaces name = extractNodedId namespaces name"
  by (simp add: alias2Id_def)

end
