(* ===== verification/Attributes.thy ===== *)
theory Attributes
  imports Aliases
begin

text \<open>
  Attribute extraction and node construction, \<open>Nodeset.c\<close> 51--72 and
  403--547: the table of \<open>NodeAttribute\<close>s with their defaults,
  \<open>getAttributeValue\<close>, \<open>extractAttributes\<close> and \<open>initNode\<close>. The SAX
  attribute array (five pointers per attribute) is a list of
  \<open>xmlAttribute\<close> records whose value is the text between
  \<open>value_start\<close> and \<open>value_end\<close>; the copy into the char arena is the
  string itself here, and theory \<open>Arena\<close> shows that the pointer the C
  code returns reads back as that string. A node is a \<open>tnode\<close> record: the common fields of
  \<open>TNode\<close> and the class-specific fields as a \<open>node_ext\<close> constructor,
  one per struct (\<open>TObjectNode\<close>, \<open>TVariableNode\<close>, \<dots>). Its two
  reference lists hold pointers (indices) into the builder's reference
  store, head first, as the C \<open>next\<close> chains do.
\<close>

record nodeAttribute =
  attr_name :: string
  attr_defaultValue :: "string option"

definition attrNodeId :: nodeAttribute where
  "attrNodeId = \<lparr>attr_name = ''NodeId'', attr_defaultValue = None\<rparr>"
definition attrBrowseName :: nodeAttribute where
  "attrBrowseName = \<lparr>attr_name = ''BrowseName'', attr_defaultValue = None\<rparr>"
definition attrParentNodeId :: nodeAttribute where
  "attrParentNodeId = \<lparr>attr_name = ''ParentNodeId'', attr_defaultValue = None\<rparr>"
definition attrEventNotifier :: nodeAttribute where
  "attrEventNotifier = \<lparr>attr_name = ''EventNotifier'', attr_defaultValue = None\<rparr>"
definition attrDataType :: nodeAttribute where
  "attrDataType = \<lparr>attr_name = ''DataType'', attr_defaultValue = Some ''i=24''\<rparr>"
definition attrValueRank :: nodeAttribute where
  "attrValueRank = \<lparr>attr_name = ''ValueRank'', attr_defaultValue = Some ''-1''\<rparr>"
definition attrArrayDimensions :: nodeAttribute where
  "attrArrayDimensions = \<lparr>attr_name = ''ArrayDimensions'', attr_defaultValue = Some ''''\<rparr>"
definition attrIsAbstract :: nodeAttribute where
  "attrIsAbstract = \<lparr>attr_name = ''IsAbstract'', attr_defaultValue = Some ''false''\<rparr>"
definition attrIsForward :: nodeAttribute where
  "attrIsForward = \<lparr>attr_name = ''IsForward'', attr_defaultValue = Some ''true''\<rparr>"
definition attrReferenceType :: nodeAttribute where
  "attrReferenceType = \<lparr>attr_name = ''ReferenceType'', attr_defaultValue = None\<rparr>"
definition attrAlias :: nodeAttribute where
  "attrAlias = \<lparr>attr_name = ''Alias'', attr_defaultValue = None\<rparr>"
definition attrExecutable :: nodeAttribute where
  "attrExecutable = \<lparr>attr_name = ''Executable'', attr_defaultValue = Some ''true''\<rparr>"
definition attrUserExecutable :: nodeAttribute where
  "attrUserExecutable = \<lparr>attr_name = ''UserExecutable'', attr_defaultValue = Some ''true''\<rparr>"
definition attrAccessLevel :: nodeAttribute where
  "attrAccessLevel = \<lparr>attr_name = ''AccessLevel'', attr_defaultValue = Some ''1''\<rparr>"
definition attrUserAccessLevel :: nodeAttribute where
  "attrUserAccessLevel = \<lparr>attr_name = ''UserAccessLevel'', attr_defaultValue = Some ''1''\<rparr>"
definition attrSymmetric :: nodeAttribute where
  "attrSymmetric = \<lparr>attr_name = ''Symmetric'', attr_defaultValue = Some ''false''\<rparr>"

lemmas nodeAttribute_defs [simp] = attrNodeId_def attrBrowseName_def attrParentNodeId_def
  attrEventNotifier_def attrDataType_def attrValueRank_def attrArrayDimensions_def
  attrIsAbstract_def attrIsForward_def attrReferenceType_def attrAlias_def attrExecutable_def
  attrUserExecutable_def attrAccessLevel_def attrUserAccessLevel_def attrSymmetric_def

record xmlAttribute =
  xa_localname :: string
  xa_prefix :: "string option"
  xa_uri :: "string option"
  xa_value :: string

text \<open>The first attribute with the wanted local name, else the default (maybe \<open>NULL\<close>).\<close>

fun getAttributeValue :: "nodeAttribute \<Rightarrow> xmlAttribute list \<Rightarrow> string option" where
  "getAttributeValue attr [] = attr_defaultValue attr"
| "getAttributeValue attr (a # as) =
     (if xa_localname a = attr_name attr then Some (xa_value a) else getAttributeValue attr as)"

subsection \<open>Nodes\<close>

datatype tnodeclass =
    NODECLASS_OBJECT | NODECLASS_OBJECTTYPE | NODECLASS_VARIABLE | NODECLASS_DATATYPE
  | NODECLASS_METHOD | NODECLASS_REFERENCETYPE | NODECLASS_VARIABLETYPE

datatype node_ext =
    ObjectTypeExt (ot_isAbstract: "string option")
  | ObjectExt (o_parentNodeId: tnodeid) (o_eventNotifier: "string option")
  | VariableExt (v_parentNodeId: tnodeid) (v_datatype: tnodeid) (v_valueRank: "string option")
      (v_arrayDimensions: "string option") (v_accessLevel: "string option")
      (v_userAccessLevel: "string option")
  | VariableTypeExt (vt_valueRank: "string option") (vt_datatype: tnodeid)
      (vt_arrayDimensions: "string option") (vt_isAbstract: "string option")
  | DataTypeExt
  | MethodExt (m_parentNodeId: tnodeid) (m_executable: "string option")
      (m_userExecutable: "string option")
  | ReferenceTypeExt (rt_symmetric: "string option")

fun ext_class :: "node_ext \<Rightarrow> tnodeclass" where
  "ext_class (ObjectTypeExt _) = NODECLASS_OBJECTTYPE"
| "ext_class (ObjectExt _ _) = NODECLASS_OBJECT"
| "ext_class (VariableExt _ _ _ _ _ _) = NODECLASS_VARIABLE"
| "ext_class (VariableTypeExt _ _ _ _) = NODECLASS_VARIABLETYPE"
| "ext_class DataTypeExt = NODECLASS_DATATYPE"
| "ext_class (MethodExt _ _ _) = NODECLASS_METHOD"
| "ext_class (ReferenceTypeExt _) = NODECLASS_REFERENCETYPE"

record tnode =
  nodeClass :: tnodeclass
  node_id :: tnodeid
  browseName :: tbrowsename
  displayName :: "string option"
  description :: "string option"
  writeMask :: "string option"
  hierachicalRefs :: "nat list"
  nonHierachicalRefs :: "nat list"
  ext :: node_ext

subsection \<open>\<open>extractAttributes\<close> and \<open>initNode\<close>\<close>

text \<open>
  The class-specific part of \<open>extractAttributes\<close>, in the order of the
  \<open>switch\<close>. Parent node ids are parsed by \<open>extractNodedId\<close>, data types
  resolved through the alias table by \<open>alias2Id\<close>; every other attribute
  is kept as text.
\<close>

fun extractExt ::
  "Alias list \<Rightarrow> tnamespace list \<Rightarrow> tnodeclass \<Rightarrow> xmlAttribute list \<Rightarrow> node_ext result" where
  "extractExt aliases namespaces NODECLASS_OBJECTTYPE attrs =
     Inr (ObjectTypeExt (getAttributeValue attrIsAbstract attrs))"
| "extractExt aliases namespaces NODECLASS_OBJECT attrs =
     bindE (extractNodedId namespaces (getAttributeValue attrParentNodeId attrs)) (\<lambda>parent.
       Inr (ObjectExt parent (getAttributeValue attrEventNotifier attrs)))"
| "extractExt aliases namespaces NODECLASS_VARIABLE attrs =
     bindE (extractNodedId namespaces (getAttributeValue attrParentNodeId attrs)) (\<lambda>parent.
     bindE (alias2Id aliases namespaces (getAttributeValue attrDataType attrs)) (\<lambda>dt.
       Inr (VariableExt parent dt (getAttributeValue attrValueRank attrs)
              (getAttributeValue attrArrayDimensions attrs) (getAttributeValue attrAccessLevel attrs)
              (getAttributeValue attrUserAccessLevel attrs))))"
| "extractExt aliases namespaces NODECLASS_VARIABLETYPE attrs =
     bindE (alias2Id aliases namespaces (getAttributeValue attrDataType attrs)) (\<lambda>dt.
       Inr (VariableTypeExt (getAttributeValue attrValueRank attrs) dt
              (getAttributeValue attrArrayDimensions attrs) (getAttributeValue attrIsAbstract attrs)))"
| "extractExt aliases namespaces NODECLASS_DATATYPE attrs = Inr DataTypeExt"
| "extractExt aliases namespaces NODECLASS_METHOD attrs =
     bindE (extractNodedId namespaces (getAttributeValue attrParentNodeId attrs)) (\<lambda>parent.
       Inr (MethodExt parent (getAttributeValue attrExecutable attrs)
              (getAttributeValue attrUserExecutable attrs)))"
| "extractExt aliases namespaces NODECLASS_REFERENCETYPE attrs =
     Inr (ReferenceTypeExt (getAttributeValue attrSymmetric attrs))"

text \<open>
  \<open>initNode\<close> with the \<open>extractAttributes\<close> it calls: the node id first,
  then the browse name, then the class-specific fields; the reference
  lists start empty and display name, description and write mask \<open>NULL\<close>.
\<close>

definition initNode ::
  "Alias list \<Rightarrow> tnamespace list \<Rightarrow> tnodeclass \<Rightarrow> xmlAttribute list \<Rightarrow> tnode result" where
  "initNode aliases namespaces nc attrs =
     bindE (extractNodedId namespaces (getAttributeValue attrNodeId attrs)) (\<lambda>nid.
     bindE (extractBrowseName namespaces (getAttributeValue attrBrowseName attrs)) (\<lambda>bn.
     bindE (extractExt aliases namespaces nc attrs) (\<lambda>e.
       Inr \<lparr>nodeClass = nc, node_id = nid, browseName = bn, displayName = None,
            description = None, writeMask = None, hierachicalRefs = [],
            nonHierachicalRefs = [], ext = e\<rparr>)))"

lemma getAttributeValue_absent:
  "attr_name attr \<notin> xa_localname ` set attrs \<Longrightarrow> getAttributeValue attr attrs = attr_defaultValue attr"
  by (induction attrs) auto

lemma getAttributeValue_present:
  "getAttributeValue attr attrs = Some v \<Longrightarrow> attr_defaultValue attr = None \<Longrightarrow>
   \<exists>a \<in> set attrs. xa_localname a = attr_name attr \<and> xa_value a = v"
  by (induction attrs) (auto split: if_splits)

lemma extractExt_class: "extractExt aliases namespaces nc attrs = Inr e \<Longrightarrow> ext_class e = nc"
  by (cases nc) auto

lemma initNode_Inr:
  "initNode aliases namespaces nc attrs = Inr n \<longleftrightarrow>
   (\<exists>nid bn e. extractNodedId namespaces (getAttributeValue attrNodeId attrs) = Inr nid \<and>
      extractBrowseName namespaces (getAttributeValue attrBrowseName attrs) = Inr bn \<and>
      extractExt aliases namespaces nc attrs = Inr e \<and>
      n = \<lparr>nodeClass = nc, node_id = nid, browseName = bn, displayName = None,
           description = None, writeMask = None, hierachicalRefs = [],
           nonHierachicalRefs = [], ext = e\<rparr>)"
  by (auto simp: initNode_def)

subsection \<open>Properties of node construction\<close>

text \<open>
  The defaults of the spec's attribute table, on a Variable: without
  the attributes \<open>DataType\<close>, \<open>ValueRank\<close>, \<open>ArrayDimensions\<close>,
  \<open>AccessLevel\<close>, \<open>UserAccessLevel\<close> and \<open>ParentNodeId\<close> (and no alias
  named \<open>i=24\<close>), the data type is \<open>(0, i=24)\<close>, the value rank \<open>-1\<close>,
  the array dimensions empty, both access levels \<open>1\<close>, and the parent the
  null id.
\<close>

theorem initNode_variable_defaults:
  assumes "xa_localname ` set attrs \<inter> {''ParentNodeId'', ''DataType'', ''ValueRank'',
             ''ArrayDimensions'', ''AccessLevel'', ''UserAccessLevel''} = {}"
    and "Some ''i=24'' \<notin> alias_name ` set aliases"
    and "initNode aliases namespaces NODECLASS_VARIABLE attrs = Inr n"
  shows "ext n = VariableExt null_nodeid \<lparr>nsIdx = 0, idStr = Some ''i=24''\<rparr> (Some ''-1'') (Some '''')
                   (Some ''1'') (Some ''1'')"
proof -
  have dflt: "getAttributeValue attr attrs = attr_defaultValue attr"
    if "attr_name attr \<in> {''ParentNodeId'', ''DataType'', ''ValueRank'', ''ArrayDimensions'',
                           ''AccessLevel'', ''UserAccessLevel''}" for attr
    using assms(1) that by (intro getAttributeValue_absent) auto
  have dt: "alias2Id aliases namespaces (Some ''i=24'') = Inr \<lparr>nsIdx = 0, idStr = Some ''i=24''\<rparr>"
    using assms(2) by (simp add: alias2Id_not_alias extractNodedId_plain_cases)
  show ?thesis
    using assms(3) by (auto simp: initNode_Inr dflt dt extractNodedId_def null_nodeid_def)
qed

lemma initNode_variable_defaults_witness:
  "ext (projr (initNode [] [] NODECLASS_VARIABLE
          [\<lparr>xa_localname = ''NodeId'', xa_prefix = None, xa_uri = None, xa_value = ''i=5''\<rparr>,
           \<lparr>xa_localname = ''BrowseName'', xa_prefix = None, xa_uri = None, xa_value = ''V''\<rparr>])) =
   VariableExt null_nodeid \<lparr>nsIdx = 0, idStr = Some ''i=24''\<rparr> (Some ''-1'') (Some '''') (Some ''1'') (Some ''1'')"
proof -
  let ?attrs = "[\<lparr>xa_localname = ''NodeId'', xa_prefix = None, xa_uri = None, xa_value = ''i=5''\<rparr>,
           \<lparr>xa_localname = ''BrowseName'', xa_prefix = None, xa_uri = None, xa_value = ''V''\<rparr>]"
  obtain n where n: "initNode [] [] NODECLASS_VARIABLE ?attrs = Inr n"
    by (simp add: initNode_def extractNodedId_def extractBrowseName_def alias2Id_def)
  have "xa_localname ` set ?attrs \<inter> {''ParentNodeId'', ''DataType'', ''ValueRank'',
             ''ArrayDimensions'', ''AccessLevel'', ''UserAccessLevel''} = {}"
    by auto
  from initNode_variable_defaults [OF this _ n] n show ?thesis by simp
qed

text \<open>
  C33: a node without a \<open>BrowseName\<close> attribute is not rejected with an
  error: \<open>extractBrowseName\<close> is handed the default \<open>NULL\<close> and calls
  \<open>strchr\<close> on it.
\<close>

theorem initNode_missing_browsename:
  assumes "''BrowseName'' \<notin> xa_localname ` set attrs"
    and "extractNodedId namespaces (getAttributeValue attrNodeId attrs) = Inr nid"
  shows "initNode aliases namespaces nc attrs = Inl (NullDeref ''strchr(BrowseName)'')"
proof -
  have "getAttributeValue attrBrowseName attrs = None"
    using assms(1) by (simp add: getAttributeValue_absent)
  with assms(2) show ?thesis
    by (simp add: initNode_def extractBrowseName_def)
qed

lemma initNode_missing_browsename_witness:
  "initNode [] [] NODECLASS_OBJECT
     [\<lparr>xa_localname = ''NodeId'', xa_prefix = None, xa_uri = None, xa_value = ''i=85''\<rparr>] =
   Inl (NullDeref ''strchr(BrowseName)'')"
  by (rule initNode_missing_browsename) (simp_all add: extractNodedId_def)

text \<open>
  C35: a node without a \<open>NodeId\<close> attribute is accepted: it is built with the
  null id \<open>(0, NULL)\<close>, although the spec requires the attribute.
\<close>

theorem initNode_missing_nodeid:
  assumes "''NodeId'' \<notin> xa_localname ` set attrs"
    and "extractBrowseName namespaces (getAttributeValue attrBrowseName attrs) = Inr bn"
    and "extractExt aliases namespaces nc attrs = Inr e"
  shows "\<exists>n. initNode aliases namespaces nc attrs = Inr n \<and> node_id n = null_nodeid"
proof -
  have "getAttributeValue attrNodeId attrs = None"
    using assms(1) by (simp add: getAttributeValue_absent)
  with assms(2,3) show ?thesis
    by (simp add: initNode_def extractNodedId_def)
qed

lemma initNode_missing_nodeid_witness:
  "\<exists>n. initNode [] [] NODECLASS_DATATYPE
     [\<lparr>xa_localname = ''BrowseName'', xa_prefix = None, xa_uri = None, xa_value = ''B''\<rparr>] = Inr n
     \<and> node_id n = null_nodeid"
  by (rule initNode_missing_nodeid) (simp_all add: extractBrowseName_def)

text \<open>
  C27: the loop of \<open>getAttributeValue\<close> over the SAX attribute array is the
  library's association-list lookup on (local name, value) pairs, with
  the attribute's default where the name is absent.
\<close>

theorem getAttributeValue_map_of:
  "getAttributeValue attr attrs =
     (case map_of (map (\<lambda>a. (xa_localname a, xa_value a)) attrs) (attr_name attr) of
        None \<Rightarrow> attr_defaultValue attr
      | Some v \<Rightarrow> Some v)"
  by (induction attrs) auto

end
