(* ===== verification/References.thy ===== *)
theory References
  imports Attributes
begin

text \<open>
  References and the hierarchical-reference classifier, \<open>Nodeset.c\<close>
  74--147 (the built-in table), 391--401 (\<open>isHierachicalReference\<close>),
  549--566 (\<open>isKnownReferenceType\<close>), the classification inside
  \<open>Nodeset_newReference\<close> (591--605) and 646--665
  (\<open>addIfHierachicalReferenceType\<close>). The table \<open>hierachicalRefs\<close> is a
  global array of \<open>MAX_HIERACHICAL_REFS\<close> = 50 \<open>TReferenceTypeNode\<close>s of
  which only the \<open>id\<close> is ever read, so the model keeps the list of its
  first \<open>hierachicalRefsSize\<close> ids. A reference is a record; its \<open>next\<close>
  field is the order of the node's list of reference pointers.
\<close>

record reference =
  isForward :: bool
  refType :: tnodeid
  target :: tnodeid

definition MAX_HIERACHICAL_REFS :: nat where
  "MAX_HIERACHICAL_REFS = 50"

definition ua_nodeid :: "string \<Rightarrow> tnodeid" where
  "ua_nodeid s = \<lparr>nsIdx = 0, idStr = Some s\<rparr>"

text \<open>
  The eight seed entries, in the order of the C initialiser: Organizes,
  HasEventSource, HasNotifier, Aggregates, HasSubtype, HasComponent,
  HasProperty, and ``HasEncoding'' written with the id of HasComponent.
\<close>

definition builtin_hierachicalRefs :: "tnodeid list" where
  "builtin_hierachicalRefs =
     map ua_nodeid [''i=35'', ''i=36'', ''i=48'', ''i=44'', ''i=45'', ''i=47'', ''i=46'', ''i=47'']"

definition isHierachicalReference :: "tnodeid list \<Rightarrow> reference \<Rightarrow> bool" where
  "isHierachicalReference hrefs ref \<longleftrightarrow> list_ex (\<lambda>h. refType ref = h) hrefs"

text \<open>
  \<open>isKnownReferenceType\<close>: every type of namespace 0 counts as known;
  otherwise the type must be the id of a node stored in the ReferenceType
  container (the pointers \<open>rtypes\<close> into the heap of nodes).
\<close>

definition isKnownReferenceType :: "tnode list \<Rightarrow> nat list \<Rightarrow> tnodeid \<Rightarrow> bool" where
  "isKnownReferenceType heap rtypes refTypeId \<longleftrightarrow>
     nsIdx refTypeId = 0 \<or> list_ex (\<lambda>p. p < length heap \<and> node_id (heap ! p) = refTypeId) rtypes"

text \<open>The test of \<open>Nodeset_newReference\<close> that chooses the node's list.\<close>

definition classifyHierachical :: "tnodeid list \<Rightarrow> bool \<Rightarrow> reference \<Rightarrow> bool" where
  "classifyHierachical hrefs isKnownRef ref \<longleftrightarrow> isHierachicalReference hrefs ref \<or> \<not> isKnownRef"

text \<open>
  \<open>addIfHierachicalReferenceType\<close>: walk the node's hierarchical list; for
  each inverse reference whose target is in the table, append the node's
  id (a write at index \<open>hierachicalRefsSize\<close> of the 50-entry array) and
  leave the inner loop. The outer loop goes on, so a node with several
  such references is appended several times.
\<close>

fun addIfHier_loop :: "tnodeid \<Rightarrow> reference list \<Rightarrow> tnodeid list \<Rightarrow> tnodeid list result" where
  "addIfHier_loop nid [] hrefs = Inr hrefs"
| "addIfHier_loop nid (r # rs) hrefs =
     (if \<not> isForward r \<and> list_ex (\<lambda>h. h = target r) hrefs then
        (if length hrefs < MAX_HIERACHICAL_REFS then addIfHier_loop nid rs (hrefs @ [nid])
         else Inl (CapacityExceeded ''hierachicalRefs''))
      else addIfHier_loop nid rs hrefs)"

fun deref_all :: "string \<Rightarrow> 'a list \<Rightarrow> nat list \<Rightarrow> 'a list result" where
  "deref_all what store [] = Inr []"
| "deref_all what store (p # ps) =
     bindE (nth_checked what store p) (\<lambda>x. mapE (\<lambda>xs. x # xs) (deref_all what store ps))"

definition addIfHierachicalReferenceType :: "reference list \<Rightarrow> tnode \<Rightarrow> tnodeid list \<Rightarrow> tnodeid list result" where
  "addIfHierachicalReferenceType refs node hrefs =
     bindE (deref_all ''ref'' refs (hierachicalRefs node)) (\<lambda>rs. addIfHier_loop (node_id node) rs hrefs)"

subsection \<open>Lemmas\<close>

lemma isHierachicalReference_iff [simp]: "isHierachicalReference hrefs ref \<longleftrightarrow> refType ref \<in> set hrefs"
  by (auto simp: isHierachicalReference_def list_ex_iff)

lemma deref_all_Inr:
  "deref_all what store ps = Inr xs \<longleftrightarrow> (\<forall>p \<in> set ps. p < length store) \<and> xs = map (\<lambda>p. store ! p) ps"
  by (induction ps arbitrary: xs) auto

lemma deref_all_valid: "\<forall>p \<in> set ps. p < length store \<Longrightarrow> deref_all what store ps = Inr (map (\<lambda>p. store ! p) ps)"
  by (simp add: deref_all_Inr)

lemma addIfHier_loop_prefix:
  "addIfHier_loop nid rs hrefs = Inr hrefs' \<Longrightarrow> \<exists>k. hrefs' = hrefs @ replicate k nid"
proof (induction nid rs hrefs rule: addIfHier_loop.induct)
  case (2 nid r rs hrefs)
  show ?case
  proof (cases "\<not> isForward r \<and> list_ex (\<lambda>h. h = target r) hrefs")
    case True
    with "2.prems" have lt: "length hrefs < MAX_HIERACHICAL_REFS"
      and rec: "addIfHier_loop nid rs (hrefs @ [nid]) = Inr hrefs'"
      by (auto split: if_splits)
    from "2.IH"(1) [OF True lt rec] obtain k where "hrefs' = (hrefs @ [nid]) @ replicate k nid"
      by blast
    then have "hrefs' = hrefs @ replicate (Suc k) nid" by simp
    then show ?thesis by blast
  next
    case False
    with "2.prems" "2.IH"(2) show ?thesis by auto
  qed
qed simp

lemma addIfHier_loop_bound:
  "addIfHier_loop nid rs hrefs = Inr hrefs' \<Longrightarrow> length hrefs \<le> MAX_HIERACHICAL_REFS \<Longrightarrow>
   length hrefs' \<le> MAX_HIERACHICAL_REFS"
  by (induction nid rs hrefs rule: addIfHier_loop.induct) (auto split: if_splits)

lemma addIfHier_loop_promotes:
  "addIfHier_loop nid rs hrefs = Inr hrefs' \<Longrightarrow> r \<in> set rs \<Longrightarrow> \<not> isForward r \<Longrightarrow>
   target r \<in> set hrefs \<Longrightarrow> length hrefs < length hrefs'"
proof (induction nid rs hrefs rule: addIfHier_loop.induct)
  case (2 nid r' rs hrefs)
  show ?case
  proof (cases "\<not> isForward r' \<and> list_ex (\<lambda>h. h = target r') hrefs")
    case True
    with "2.prems"(1) have lt: "length hrefs < MAX_HIERACHICAL_REFS"
      and rec: "addIfHier_loop nid rs (hrefs @ [nid]) = Inr hrefs'"
      by (auto split: if_splits)
    from addIfHier_loop_prefix [OF rec] show ?thesis by auto
  next
    case False
    with "2.prems" have rec: "addIfHier_loop nid rs hrefs = Inr hrefs'" by simp
    from False "2.prems"(2-4) have "r \<in> set rs" by (auto simp: list_ex_iff)
    from "2.IH"(2) [OF False rec this "2.prems"(3,4)] show ?thesis .
  qed
qed simp

lemma addIfHier_loop_no_inverse:
  "(\<forall>r \<in> set rs. isForward r \<or> target r \<notin> set hrefs) \<Longrightarrow> addIfHier_loop nid rs hrefs = Inr hrefs"
  by (induction rs) (auto simp: list_ex_iff)

lemma addIfHier_loop_total:
  "length hrefs + length rs \<le> MAX_HIERACHICAL_REFS \<Longrightarrow> \<exists>hrefs'. addIfHier_loop nid rs hrefs = Inr hrefs'"
  by (induction nid rs hrefs rule: addIfHier_loop.induct) auto

subsection \<open>Properties of the classifier\<close>

text \<open>
  C21: finishing a ReferenceType node with an inverse hierarchical
  reference to a type already in the table adds the node's id to the
  table (spec scenario 3), and only appends: the table grows
  monotonically. While the table has room for one entry per reference of
  the node, the call is defined.
\<close>

theorem addIfHierachicalReferenceType_promotes:
  assumes "\<forall>q \<in> set (hierachicalRefs node). q < length refs"
    and "length hrefs + length (hierachicalRefs node) \<le> MAX_HIERACHICAL_REFS"
    and "p \<in> set (hierachicalRefs node)" and "\<not> isForward (refs ! p)"
    and "target (refs ! p) \<in> set hrefs"
  shows "\<exists>k > 0. addIfHierachicalReferenceType refs node hrefs = Inr (hrefs @ replicate k (node_id node))"
proof -
  let ?rs = "map (\<lambda>q. refs ! q) (hierachicalRefs node)"
  have d: "deref_all ''ref'' refs (hierachicalRefs node) = Inr ?rs"
    using assms(1) by (rule deref_all_valid)
  obtain h' where h': "addIfHier_loop (node_id node) ?rs hrefs = Inr h'"
    using addIfHier_loop_total [of hrefs ?rs] assms(2) by auto
  obtain k where k: "h' = hrefs @ replicate k (node_id node)"
    using addIfHier_loop_prefix [OF h'] by blast
  have "length hrefs < length h'"
    using addIfHier_loop_promotes [OF h', of "refs ! p"] assms(3-5) by auto
  with k have "k > 0" by simp
  then show ?thesis
    using d h' k by (auto simp: addIfHierachicalReferenceType_def)
qed

definition controls_refs :: "reference list" where
  "controls_refs = [\<lparr>isForward = False, refType = ua_nodeid ''i=45'', target = ua_nodeid ''i=47''\<rparr>]"

definition controls_node :: tnode where
  "controls_node = \<lparr>nodeClass = NODECLASS_REFERENCETYPE, node_id = \<lparr>nsIdx = 1, idStr = Some ''i=5000''\<rparr>,
     browseName = \<lparr>bn_nsIdx = 1, bn_name = ''Controls''\<rparr>, displayName = None, description = None,
     writeMask = None, hierachicalRefs = [0], nonHierachicalRefs = [], ext = ReferenceTypeExt None\<rparr>"

lemma addIfHierachicalReferenceType_promotes_witness:
  "\<exists>k > 0. addIfHierachicalReferenceType controls_refs controls_node builtin_hierachicalRefs =
     Inr (builtin_hierachicalRefs @ replicate k \<lparr>nsIdx = 1, idStr = Some ''i=5000''\<rparr>)"
  using addIfHierachicalReferenceType_promotes [of controls_node controls_refs builtin_hierachicalRefs 0]
  by (simp add: controls_refs_def controls_node_def builtin_hierachicalRefs_def ua_nodeid_def
      MAX_HIERACHICAL_REFS_def)

text \<open>
  C26: the promotion writes at index \<open>hierachicalRefsSize\<close> without
  comparing it with \<open>MAX_HIERACHICAL_REFS\<close>: with the table full, a
  promotable node makes the write fall outside the array.
\<close>

theorem addIfHierachicalReferenceType_overflow:
  assumes "hierachicalRefs node = p # ps" and "\<forall>q \<in> set (p # ps). q < length refs"
    and "\<not> isForward (refs ! p)" and "target (refs ! p) \<in> set hrefs"
    and "length hrefs = MAX_HIERACHICAL_REFS"
  shows "addIfHierachicalReferenceType refs node hrefs = Inl (CapacityExceeded ''hierachicalRefs'')"
  using assms by (simp add: addIfHierachicalReferenceType_def deref_all_valid list_ex_iff)

lemma addIfHierachicalReferenceType_overflow_witness:
  "addIfHierachicalReferenceType controls_refs controls_node
     (builtin_hierachicalRefs @ replicate 42 (ua_nodeid ''i=47'')) = Inl (CapacityExceeded ''hierachicalRefs'')"
  by (rule addIfHierachicalReferenceType_overflow [of _ 0 "[]"])
     (simp_all add: controls_refs_def controls_node_def builtin_hierachicalRefs_def MAX_HIERACHICAL_REFS_def)

lemma addIfHier_loop_all_inverse:
  assumes "\<forall>r \<in> set rs. \<not> isForward r \<and> target r \<in> set hrefs"
    and "length hrefs + length rs \<le> MAX_HIERACHICAL_REFS"
  shows "addIfHier_loop nid rs hrefs = Inr (hrefs @ replicate (length rs) nid)"
  using assms
proof (induction rs arbitrary: hrefs)
  case (Cons r rs)
  then have "addIfHier_loop nid rs (hrefs @ [nid]) = Inr ((hrefs @ [nid]) @ replicate (length rs) nid)"
    by (intro Cons.IH) auto
  with Cons.prems show ?case
    by (auto simp: list_ex_iff)
qed simp

text \<open>
  C31: the outer loop of \<open>addIfHierachicalReferenceType\<close> has no exit
  after a promotion (the \<open>break\<close> leaves only the inner loop): when every
  reference on the node's hierarchical list is an inverse reference to a
  type already in the table, the node's id is appended once per such
  reference, not once, spending one of the 50 entries each time.
\<close>

theorem addIfHierachicalReferenceType_once_per_reference:
  assumes "\<forall>q \<in> set (hierachicalRefs node). q < length refs \<and> \<not> isForward (refs ! q) \<and> target (refs ! q) \<in> set hrefs"
    and "length hrefs + length (hierachicalRefs node) \<le> MAX_HIERACHICAL_REFS"
  shows "addIfHierachicalReferenceType refs node hrefs =
         Inr (hrefs @ replicate (length (hierachicalRefs node)) (node_id node))"
proof -
  have "deref_all ''ref'' refs (hierachicalRefs node) = Inr (map (\<lambda>q. refs ! q) (hierachicalRefs node))"
    using assms(1) by (simp add: deref_all_valid)
  moreover have "addIfHier_loop (node_id node) (map (\<lambda>q. refs ! q) (hierachicalRefs node)) hrefs =
                 Inr (hrefs @ replicate (length (hierachicalRefs node)) (node_id node))"
    using addIfHier_loop_all_inverse [of "map (\<lambda>q. refs ! q) (hierachicalRefs node)" hrefs] assms by auto
  ultimately show ?thesis
    by (simp add: addIfHierachicalReferenceType_def)
qed

lemma addIfHierachicalReferenceType_once_per_reference_witness:
  "addIfHierachicalReferenceType
     (controls_refs @ [\<lparr>isForward = False, refType = ua_nodeid ''i=45'', target = ua_nodeid ''i=35''\<rparr>])
     (controls_node\<lparr>hierachicalRefs := [0, 1]\<rparr>) builtin_hierachicalRefs =
   Inr (builtin_hierachicalRefs @ replicate 2 \<lparr>nsIdx = 1, idStr = Some ''i=5000''\<rparr>)"
  using addIfHierachicalReferenceType_once_per_reference
      [of "controls_node\<lparr>hierachicalRefs := [0, 1]\<rparr>"
          "controls_refs @ [\<lparr>isForward = False, refType = ua_nodeid ''i=45'', target = ua_nodeid ''i=35''\<rparr>]"
          builtin_hierachicalRefs]
  by (simp add: controls_refs_def controls_node_def builtin_hierachicalRefs_def ua_nodeid_def
      MAX_HIERACHICAL_REFS_def numeral_2_eq_2)

end
