(* ===== verification/Sort.thy ===== *)
theory Sort
  imports References
begin

text \<open>
  The topological sorter \<open>Sort.c\<close> (\<open>Sort_init\<close>, \<open>Sort_addNode\<close>,
  \<open>Sort_start\<close>, \<open>Sort_cleanup\<close>) is not under \<open>src/\<close>; it is modelled
  from the spec (section 4.C7). \<open>Sort_addNode\<close> records a node pointer;
  \<open>Sort_start\<close> orders the recorded nodes phase by phase
  (ReferenceType, DataType, ObjectType, Object, Method, VariableType,
  Variable) and, within a phase, by a Kahn-style sort over the
  hierarchical edges between nodes of that phase, preferring the earliest
  recorded node among those whose parents have all been emitted; a phase
  whose nodes cannot all be emitted holds a cycle and the sort fails
  before any node is handed on.
  \<open>kahn\<close> is stated over any type and any edge relation \<open>E\<close>
  (\<open>E u v\<close>: \<open>u\<close> must precede \<open>v\<close>), so its lemmas serve every phase.
  Hierarchical edges are read from the nodes' hierarchical lists as they
  stand: an inverse reference of \<open>v\<close> names a parent of \<open>v\<close>, a forward
  reference of \<open>u\<close> a child of \<open>u\<close>; references to nodes outside the set
  being sorted (nodes already in the server) impose no order.
\<close>

function kahn :: "('a \<Rightarrow> 'a \<Rightarrow> bool) \<Rightarrow> 'a list \<Rightarrow> 'a list \<Rightarrow> 'a list option" where
  "kahn E rest acc =
     (if rest = [] then Some acc
      else case find (\<lambda>v. \<forall>u \<in> set rest. \<not> E u v) rest of
             None \<Rightarrow> None
           | Some v \<Rightarrow> kahn E (remove1 v rest) (acc @ [v]))"
  by pat_completeness auto
termination
  by (relation "measure (\<lambda>(E, rest, acc). length rest)")
     (auto dest: find_Some_in_set simp: length_remove1_less)

declare kahn.simps [simp del]

definition phases :: "tnodeclass list" where
  "phases = [NODECLASS_REFERENCETYPE, NODECLASS_DATATYPE, NODECLASS_OBJECTTYPE, NODECLASS_OBJECT,
             NODECLASS_METHOD, NODECLASS_VARIABLETYPE, NODECLASS_VARIABLE]"

fun phase :: "tnodeclass \<Rightarrow> nat" where
  "phase NODECLASS_REFERENCETYPE = 0"
| "phase NODECLASS_DATATYPE = 1"
| "phase NODECLASS_OBJECTTYPE = 2"
| "phase NODECLASS_OBJECT = 3"
| "phase NODECLASS_METHOD = 4"
| "phase NODECLASS_VARIABLETYPE = 5"
| "phase NODECLASS_VARIABLE = 6"

text \<open>\<open>hierEdge heap refs u v\<close>: node \<open>u\<close> is a hierarchical parent of node \<open>v\<close>.\<close>

definition hierEdge :: "tnode list \<Rightarrow> reference list \<Rightarrow> nat \<Rightarrow> nat \<Rightarrow> bool" where
  "hierEdge heap refs u v \<longleftrightarrow> u < length heap \<and> v < length heap \<and>
     (list_ex (\<lambda>p. p < length refs \<and> \<not> isForward (refs ! p) \<and> target (refs ! p) = node_id (heap ! u))
              (hierachicalRefs (heap ! v)) \<or>
      list_ex (\<lambda>p. p < length refs \<and> isForward (refs ! p) \<and> target (refs ! p) = node_id (heap ! v))
              (hierachicalRefs (heap ! u)))"

text \<open>
  One sort per phase, in the order of \<open>cs\<close>, with the per-phase algorithm
  \<open>alg\<close> as a parameter: \<open>Sort_start\<close> uses \<open>kahn\<close>, \<open>SortFifo\<close> the
  queue-based algorithm the spec describes.
\<close>

fun sort_phases ::
  "(('a \<Rightarrow> 'a \<Rightarrow> bool) \<Rightarrow> 'a list \<Rightarrow> 'a list option) \<Rightarrow> ('a \<Rightarrow> 'a \<Rightarrow> bool) \<Rightarrow> ('a \<Rightarrow> tnodeclass) \<Rightarrow>
   tnodeclass list \<Rightarrow> 'a list \<Rightarrow> 'a list option" where
  "sort_phases alg E cls [] xs = Some []"
| "sort_phases alg E cls (c # cs) xs =
     (case alg E (filter (\<lambda>x. cls x = c) xs) of
        None \<Rightarrow> None
      | Some ys \<Rightarrow> map_option (\<lambda>zs. ys @ zs) (sort_phases alg E cls cs xs))"

definition kahn_sort :: "('a \<Rightarrow> 'a \<Rightarrow> bool) \<Rightarrow> 'a list \<Rightarrow> 'a list option" where
  "kahn_sort E xs = kahn E xs []"

definition Sort_addNode :: "nat list \<Rightarrow> nat \<Rightarrow> nat list" where
  "Sort_addNode sortNodes p = sortNodes @ [p]"

definition Sort_start :: "tnode list \<Rightarrow> reference list \<Rightarrow> nat list \<Rightarrow> nat list option" where
  "Sort_start heap refs sortNodes =
     sort_phases kahn_sort (hierEdge heap refs) (\<lambda>p. nodeClass (heap ! p)) phases sortNodes"

subsection \<open>The sorter's contract\<close>

text \<open>
  What \<open>Nodeset.c\<close> relies on when it calls \<open>Sort_start\<close> (spec 4.C7 and
  section 7): the sorter either fails, exactly when some phase holds a
  cycle of hierarchical edges, or returns a permutation of the recorded
  nodes in phase order with no node after one of its children inside a
  phase. \<open>Nodeset_getSortedNodes\<close> is modelled over any \<open>sorter\<close>; the
  theorems of \<open>Emission\<close> hold for every sorter meeting this contract,
  \<open>Sort_start\<close> above and the queue-based sorter of \<open>SortFifo\<close> among them.
\<close>

type_synonym sorter = "tnode list \<Rightarrow> reference list \<Rightarrow> nat list \<Rightarrow> nat list option"

definition phase_before :: "('a \<Rightarrow> tnodeclass) \<Rightarrow> ('a \<Rightarrow> 'a \<Rightarrow> bool) \<Rightarrow> 'a \<Rightarrow> 'a \<Rightarrow> bool" where
  "phase_before cls E a b \<longleftrightarrow> phase (cls a) < phase (cls b) \<or> (cls a = cls b \<and> \<not> E b a)"

definition class_cycle :: "('a \<Rightarrow> 'a \<Rightarrow> bool) \<Rightarrow> ('a \<Rightarrow> tnodeclass) \<Rightarrow> 'a list \<Rightarrow> bool" where
  "class_cycle E cls xs \<longleftrightarrow> (\<exists>c. \<exists>S \<subseteq> {p \<in> set xs. cls p = c}. S \<noteq> {} \<and> (\<forall>v \<in> S. \<exists>u \<in> S. E u v))"

definition sort_contract :: "sorter \<Rightarrow> bool" where
  "sort_contract srt \<longleftrightarrow>
     (\<forall>heap refs ns.
        (srt heap refs ns = None \<longleftrightarrow> class_cycle (hierEdge heap refs) (\<lambda>p. nodeClass (heap ! p)) ns) \<and>
        (\<forall>order. srt heap refs ns = Some order \<longrightarrow>
           mset order = mset ns \<and>
           sorted_wrt (phase_before (\<lambda>p. nodeClass (heap ! p)) (hierEdge heap refs)) order))"

text \<open>The contract of one phase's algorithm: a permutation with parents first, or failure exactly on a cycle.\<close>

definition phase_sorter_ok :: "(('a \<Rightarrow> 'a \<Rightarrow> bool) \<Rightarrow> 'a list \<Rightarrow> 'a list option) \<Rightarrow> bool" where
  "phase_sorter_ok alg \<longleftrightarrow>
     (\<forall>E xs ys. alg E xs = Some ys \<longrightarrow> mset ys = mset xs \<and> sorted_wrt (\<lambda>a b. \<not> E b a) ys) \<and>
     (\<forall>E xs. alg E xs = None \<longleftrightarrow> (\<exists>S \<subseteq> set xs. S \<noteq> {} \<and> (\<forall>v \<in> S. \<exists>u \<in> S. E u v)))"

subsection \<open>The sort loop\<close>

lemma kahn_Nil [simp]: "kahn E [] acc = Some acc"
  by (simp add: kahn.simps)

lemma kahn_step:
  "rest \<noteq> [] \<Longrightarrow> find (\<lambda>v. \<forall>u \<in> set rest. \<not> E u v) rest = Some v \<Longrightarrow>
   kahn E rest acc = kahn E (remove1 v rest) (acc @ [v])"
  by (simp add: kahn.simps)

lemma kahn_stuck:
  "rest \<noteq> [] \<Longrightarrow> find (\<lambda>v. \<forall>u \<in> set rest. \<not> E u v) rest = None \<Longrightarrow> kahn E rest acc = None"
  by (simp add: kahn.simps)

lemma kahn_mset:
  "kahn E rest acc = Some out \<Longrightarrow> mset out = mset acc + mset rest"
proof (induction E rest acc rule: kahn.induct)
  case (1 E rest acc)
  show ?case
  proof (cases "rest = []")
    case True
    with "1.prems" show ?thesis by simp
  next
    case False
    then obtain v where v: "find (\<lambda>v. \<forall>u \<in> set rest. \<not> E u v) rest = Some v"
      using "1.prems" kahn_stuck by fastforce
    then have "v \<in> set rest" by (auto dest: find_Some_in_set)
    from "1.prems" False v have "kahn E (remove1 v rest) (acc @ [v]) = Some out"
      by (simp add: kahn_step)
    from "1.IH" [OF False v this] \<open>v \<in> set rest\<close> show ?thesis by simp
  qed
qed

lemma kahn_sorted:
  "kahn E rest acc = Some out \<Longrightarrow> sorted_wrt (\<lambda>a b. \<not> E b a) acc \<Longrightarrow>
   (\<forall>a \<in> set acc. \<forall>w \<in> set rest. \<not> E w a) \<Longrightarrow> sorted_wrt (\<lambda>a b. \<not> E b a) out"
proof (induction E rest acc rule: kahn.induct)
  case (1 E rest acc)
  show ?case
  proof (cases "rest = []")
    case True
    with "1.prems" show ?thesis by simp
  next
    case False
    then obtain v where v: "find (\<lambda>v. \<forall>u \<in> set rest. \<not> E u v) rest = Some v"
      using "1.prems"(1) kahn_stuck by fastforce
    then have vin: "v \<in> set rest" and ready: "\<forall>u \<in> set rest. \<not> E u v"
      by (auto dest: find_Some_in_set)
    from "1.prems"(1) False v have run: "kahn E (remove1 v rest) (acc @ [v]) = Some out"
      by (simp add: kahn_step)
    have "sorted_wrt (\<lambda>a b. \<not> E b a) (acc @ [v])"
      using "1.prems"(2,3) vin by (auto simp: sorted_wrt_append)
    moreover have "\<forall>a \<in> set (acc @ [v]). \<forall>w \<in> set (remove1 v rest). \<not> E w a"
      using "1.prems"(3) ready by (auto dest: set_remove1_subset [THEN subsetD])
    ultimately show ?thesis
      using "1.IH" [OF False v run] by blast
  qed
qed

lemma kahn_None_cycle:
  "kahn E rest acc = None \<Longrightarrow> \<exists>S \<subseteq> set rest. S \<noteq> {} \<and> (\<forall>v \<in> S. \<exists>u \<in> S. E u v)"
proof (induction E rest acc rule: kahn.induct)
  case (1 E rest acc)
  have ne: "rest \<noteq> []"
    using "1.prems" by (cases "rest = []") simp_all
  show ?case
  proof (cases "find (\<lambda>v. \<forall>u \<in> set rest. \<not> E u v) rest")
    case None
    then have "\<forall>v \<in> set rest. \<exists>u \<in> set rest. E u v"
      unfolding find_None_iff_all by blast
    with ne show ?thesis
      by (intro exI [of _ "set rest"]) simp
  next
    case (Some v)
    have "kahn E (remove1 v rest) (acc @ [v]) = None"
      using "1.prems" kahn_step [OF ne Some, of acc] by simp
    from "1.IH" [OF ne Some this] obtain S where "S \<subseteq> set (remove1 v rest)" "S \<noteq> {}"
      "\<forall>v \<in> S. \<exists>u \<in> S. E u v" by blast
    then show ?thesis
      using set_remove1_subset [of v rest] by (intro exI [of _ S]) auto
  qed
qed

lemma cycle_kahn_None:
  "S \<subseteq> set rest \<Longrightarrow> S \<noteq> {} \<Longrightarrow> \<forall>v \<in> S. \<exists>u \<in> S. E u v \<Longrightarrow> kahn E rest acc = None"
proof (induction E rest acc rule: kahn.induct)
  case (1 E rest acc)
  have ne: "rest \<noteq> []"
    using "1.prems"(1,2) by auto
  show ?case
  proof (cases "find (\<lambda>v. \<forall>u \<in> set rest. \<not> E u v) rest")
    case None
    with ne show ?thesis by (rule kahn_stuck)
  next
    case (Some v)
    then have ready: "\<forall>u \<in> set rest. \<not> E u v"
      by (auto dest: find_Some_in_set)
    have "v \<notin> S"
      using "1.prems"(1,3) ready by blast
    have "S \<subseteq> set (remove1 v rest)"
    proof
      fix x
      assume "x \<in> S"
      with \<open>v \<notin> S\<close> "1.prems"(1) show "x \<in> set (remove1 v rest)"
        by (cases "x = v") auto
    qed
    from "1.IH" [OF ne Some this "1.prems"(2,3)] show ?thesis
      using kahn_step [OF ne Some, of acc] by simp
  qed
qed

lemma kahn_None_iff:
  "kahn E rest acc = None \<longleftrightarrow> (\<exists>S \<subseteq> set rest. S \<noteq> {} \<and> (\<forall>v \<in> S. \<exists>u \<in> S. E u v))"
  using kahn_None_cycle cycle_kahn_None by metis

lemma kahn_sorted_input:
  "sorted_wrt (\<lambda>a b. \<not> E b a) xs \<Longrightarrow> \<forall>x \<in> set xs. \<not> E x x \<Longrightarrow> kahn E xs acc = Some (acc @ xs)"
proof (induction xs arbitrary: acc)
  case (Cons x xs)
  have "find (\<lambda>v. \<forall>u \<in> set (x # xs). \<not> E u v) (x # xs) = Some x"
    using Cons.prems by auto
  then have "kahn E (x # xs) acc = kahn E xs (acc @ [x])"
    by (simp add: kahn_step)
  also have "\<dots> = Some (acc @ x # xs)"
    using Cons by simp
  finally show ?case .
qed simp

subsection \<open>Phases\<close>

lemma kahn_sort_ok: "phase_sorter_ok kahn_sort"
  unfolding phase_sorter_ok_def kahn_sort_def
proof (intro conjI allI impI)
  fix E :: "'a \<Rightarrow> 'a \<Rightarrow> bool" and xs ys
  assume k: "kahn E xs [] = Some ys"
  show "mset ys = mset xs" using kahn_mset [OF k] by simp
  show "sorted_wrt (\<lambda>a b. \<not> E b a) ys" using kahn_sorted [OF k] by simp
next
  fix E :: "'a \<Rightarrow> 'a \<Rightarrow> bool" and xs
  show "kahn E xs [] = None \<longleftrightarrow> (\<exists>S \<subseteq> set xs. S \<noteq> {} \<and> (\<forall>v \<in> S. \<exists>u \<in> S. E u v))"
    by (rule kahn_None_iff)
qed

lemma phase_sorter_Some:
  "phase_sorter_ok alg \<Longrightarrow> alg E xs = Some ys \<Longrightarrow> mset ys = mset xs \<and> sorted_wrt (\<lambda>a b. \<not> E b a) ys"
  by (simp add: phase_sorter_ok_def)

lemma phase_sorter_None:
  "phase_sorter_ok alg \<Longrightarrow> alg E xs = None \<longleftrightarrow> (\<exists>S \<subseteq> set xs. S \<noteq> {} \<and> (\<forall>v \<in> S. \<exists>u \<in> S. E u v))"
  by (simp add: phase_sorter_ok_def)

lemma sort_phases_None:
  "sort_phases alg E cls cs xs = None \<longleftrightarrow> (\<exists>c \<in> set cs. alg E (filter (\<lambda>x. cls x = c) xs) = None)"
  by (induction cs) (auto split: option.splits)

lemma phase_sorter_filter_class:
  "phase_sorter_ok alg \<Longrightarrow> alg E (filter (\<lambda>x. cls x = c) xs) = Some ys \<Longrightarrow> y \<in> set ys \<Longrightarrow> cls y = c"
  using phase_sorter_Some [of alg E "filter (\<lambda>x. cls x = c) xs" ys] by (auto dest: arg_cong [of _ _ set_mset])

lemma sort_phases_mset:
  "phase_sorter_ok alg \<Longrightarrow> sort_phases alg E cls cs xs = Some out \<Longrightarrow> distinct cs \<Longrightarrow>
   mset out = mset (filter (\<lambda>x. cls x \<in> set cs) xs)"
proof (induction cs arbitrary: out)
  case (Cons c cs)
  then obtain ys zs where ys: "alg E (filter (\<lambda>x. cls x = c) xs) = Some ys"
    and zs: "sort_phases alg E cls cs xs = Some zs" and out: "out = ys @ zs"
    by (auto split: option.splits)
  have "mset ys = mset (filter (\<lambda>x. cls x = c) xs)"
    using phase_sorter_Some [OF Cons.prems(1) ys] by simp
  moreover have "mset zs = mset (filter (\<lambda>x. cls x \<in> set cs) xs)"
    using Cons zs by simp
  moreover have "mset (filter (\<lambda>x. cls x = c) xs) + mset (filter (\<lambda>x. cls x \<in> set cs) xs) =
                 mset (filter (\<lambda>x. cls x \<in> set (c # cs)) xs)"
    using Cons.prems(3) by (induction xs) auto
  ultimately show ?case
    using out by simp
qed simp

lemma sort_phases_order:
  "phase_sorter_ok alg \<Longrightarrow> sort_phases alg E cls cs xs = Some out \<Longrightarrow> sorted_wrt (\<lambda>c d. phase c < phase d) cs \<Longrightarrow>
   sorted_wrt (\<lambda>a b. phase (cls a) < phase (cls b) \<or> (cls a = cls b \<and> \<not> E b a)) out \<and>
   (\<forall>a \<in> set out. cls a \<in> set cs)"
proof (induction cs arbitrary: out)
  case (Cons c cs)
  then obtain ys zs where ys: "alg E (filter (\<lambda>x. cls x = c) xs) = Some ys"
    and zs: "sort_phases alg E cls cs xs = Some zs" and out: "out = ys @ zs"
    by (auto split: option.splits)
  have cls_ys: "\<forall>y \<in> set ys. cls y = c"
    using phase_sorter_filter_class [OF Cons.prems(1) ys] by blast
  have "sorted_wrt (\<lambda>a b. \<not> E b a) ys"
    using phase_sorter_Some [OF Cons.prems(1) ys] by simp
  then have s_ys: "sorted_wrt (\<lambda>a b. phase (cls a) < phase (cls b) \<or> (cls a = cls b \<and> \<not> E b a)) ys"
    using cls_ys by (auto intro: sorted_wrt_mono_rel [rotated])
  from Cons.IH [OF Cons.prems(1) zs] Cons.prems(3) have
    s_zs: "sorted_wrt (\<lambda>a b. phase (cls a) < phase (cls b) \<or> (cls a = cls b \<and> \<not> E b a)) zs"
    and cls_zs: "\<forall>a \<in> set zs. cls a \<in> set cs"
    by auto
  have "\<forall>a \<in> set ys. \<forall>b \<in> set zs. phase (cls a) < phase (cls b)"
    using cls_ys cls_zs Cons.prems(3) by auto
  with s_ys s_zs cls_ys cls_zs show ?case
    by (auto simp: out sorted_wrt_append)
qed simp

lemma phases_sorted: "sorted_wrt (\<lambda>c d. phase c < phase d) phases"
  by (simp add: phases_def)

lemma phases_distinct: "distinct phases"
  by (simp add: phases_def)

lemma in_phases [simp]: "c \<in> set phases"
  by (cases c) (simp_all add: phases_def)

lemma sort_phases_presorted:
  assumes "\<forall>c \<in> set cs. sorted_wrt (\<lambda>a b. \<not> E b a) (filter (\<lambda>x. cls x = c) xs)"
    and "\<forall>x \<in> set xs. \<not> E x x"
  shows "sort_phases kahn_sort E cls cs xs = Some (concat (map (\<lambda>c. filter (\<lambda>x. cls x = c) xs) cs))"
  using assms by (induction cs) (simp_all add: kahn_sort_def kahn_sorted_input)

lemma sort_phases_None_class_cycle:
  assumes "phase_sorter_ok alg"
  shows "sort_phases alg E cls phases xs = None \<longleftrightarrow> class_cycle E cls xs"
proof -
  have "sort_phases alg E cls phases xs = None \<longleftrightarrow> (\<exists>c. alg E (filter (\<lambda>x. cls x = c) xs) = None)"
    by (auto simp: sort_phases_None)
  also have "\<dots> \<longleftrightarrow> class_cycle E cls xs"
    using phase_sorter_None [OF assms] by (simp add: class_cycle_def)
  finally show ?thesis .
qed

text \<open>Any per-phase algorithm meeting its contract, run phase by phase, meets the sorter's contract.\<close>

lemma sort_phases_contract:
  assumes "phase_sorter_ok alg"
  shows "sort_contract (\<lambda>heap refs ns. sort_phases alg (hierEdge heap refs) (\<lambda>p. nodeClass (heap ! p)) phases ns)"
  unfolding sort_contract_def
proof (intro allI conjI impI)
  fix heap refs ns order
  show "sort_phases alg (hierEdge heap refs) (\<lambda>p. nodeClass (heap ! p)) phases ns = None \<longleftrightarrow>
        class_cycle (hierEdge heap refs) (\<lambda>p. nodeClass (heap ! p)) ns"
    by (rule sort_phases_None_class_cycle [OF assms])
  assume s: "sort_phases alg (hierEdge heap refs) (\<lambda>p. nodeClass (heap ! p)) phases ns = Some order"
  show "mset order = mset ns"
    using sort_phases_mset [OF assms s phases_distinct] by simp
  show "sorted_wrt (phase_before (\<lambda>p. nodeClass (heap ! p)) (hierEdge heap refs)) order"
    using sort_phases_order [OF assms s phases_sorted] by (simp add: phase_before_def [abs_def])
qed

lemma Sort_start_meets_contract: "sort_contract Sort_start"
  using sort_phases_contract [OF kahn_sort_ok] by (simp add: Sort_start_def [abs_def])

text \<open>
  C8: the sorter breaks ties by recording order: when the recorded nodes
  of every phase already have each parent before its children,
  \<open>Sort_start\<close> returns them grouped by phase and otherwise in the order
  they were recorded.
\<close>

theorem Sort_start_stable:
  assumes "\<forall>c. sorted_wrt (\<lambda>a b. \<not> hierEdge heap refs b a) (filter (\<lambda>p. nodeClass (heap ! p) = c) ns)"
    and "\<forall>p \<in> set ns. \<not> hierEdge heap refs p p"
  shows "Sort_start heap refs ns = Some (concat (map (\<lambda>c. filter (\<lambda>p. nodeClass (heap ! p) = c) ns) phases))"
  unfolding Sort_start_def using assms by (simp add: sort_phases_presorted)

text \<open>A list in phase order is the concatenation of its classes, taken in phase order.\<close>

lemma filter_prefix_split:
  "sorted_wrt R xs \<Longrightarrow> \<forall>a \<in> set xs. \<forall>b \<in> set xs. R a b \<longrightarrow> \<not> P a \<longrightarrow> \<not> P b \<Longrightarrow>
   xs = filter P xs @ filter (\<lambda>x. \<not> P x) xs"
proof (induction xs)
  case (Cons x xs)
  show ?case
  proof (cases "P x")
    case True
    with Cons show ?thesis by auto
  next
    case False
    with Cons.prems have "\<forall>y \<in> set xs. \<not> P y" by auto
    with False show ?thesis by simp
  qed
qed simp

lemma phase_before_regroup:
  assumes "sorted_wrt (phase_before cls E) xs" and "sorted_wrt (\<lambda>c d. phase c < phase d) cs"
    and "\<forall>x \<in> set xs. cls x \<in> set cs"
  shows "concat (map (\<lambda>c. filter (\<lambda>x. cls x = c) xs) cs) = xs"
  using assms
proof (induction cs arbitrary: xs)
  case Nil
  then show ?case by simp
next
  case (Cons c cs)
  let ?ys = "filter (\<lambda>x. cls x \<noteq> c) xs"
  have later: "\<forall>d \<in> set cs. phase c < phase d"
    using Cons.prems(2) by simp
  have "\<forall>a \<in> set xs. \<forall>b \<in> set xs. phase_before cls E a b \<longrightarrow> cls a \<noteq> c \<longrightarrow> cls b \<noteq> c"
    using Cons.prems(3) later by (fastforce simp: phase_before_def)
  then have split: "xs = filter (\<lambda>x. cls x = c) xs @ ?ys"
    using filter_prefix_split [OF Cons.prems(1), of "\<lambda>x. cls x = c"] by simp
  have same: "map (\<lambda>d. filter (\<lambda>x. cls x = d) xs) cs = map (\<lambda>d. filter (\<lambda>x. cls x = d) ?ys) cs"
    using later by (auto intro!: filter_cong)
  have "concat (map (\<lambda>d. filter (\<lambda>x. cls x = d) ?ys) cs) = ?ys"
    using Cons.IH [of ?ys] Cons.prems by (auto simp: sorted_wrt_filter)
  with split same show ?case
    by (metis concat.simps(2) list.simps(9))
qed

text \<open>
  C7: \<open>Sort_start\<close>, the earliest-ready Kahn sort phase by phase, fails
  exactly when some phase holds a cycle of hierarchical edges, and
  otherwise returns a permutation of the recorded nodes in phase order,
  parents before children within a phase: it meets the sorter's contract.
\<close>

theorem Sort_start_contract:
  "(Sort_start heap refs ns = None \<longleftrightarrow> class_cycle (hierEdge heap refs) (\<lambda>p. nodeClass (heap ! p)) ns) \<and>
   (Sort_start heap refs ns = Some order \<longrightarrow>
      mset order = mset ns \<and> sorted_wrt (phase_before (\<lambda>p. nodeClass (heap ! p)) (hierEdge heap refs)) order)"
  using Sort_start_meets_contract by (simp add: sort_contract_def)

end
