(* ===== verification/Nodeset.thy ===== *)
theory Nodeset
  imports Sort
begin

text \<open>
  The builder: the \<open>Nodeset\<close> struct and the event functions of
  \<open>Nodeset.c\<close>. The state is one record; every function takes it and
  returns it updated, with the pointer it hands back to the parser where
  the C function returns one (a node, a reference, an alias or a namespace
  entry is an index into the corresponding list). The fields follow the
  struct as \<open>Nodeset.c\<close> uses it: \<open>countedRefs\<close> (the store of references,
  \<open>refsSize\<close> its length), \<open>aliasList\<close>, the seven class containers
  \<open>nodes\<close>, the table \<open>hierachicalRefs\<close>/\<open>hierachicalRefsSize\<close> (here
  \<open>hierRefTable\<close>) and the \<open>namespaceTable\<close>. Two parts of the state live
  outside the struct in C and are fields here: \<open>heap\<close>, the node records
  allocated by \<open>Nodeset_newNode\<close> (the C code keeps only pointers to
  them), and \<open>sortNodes\<close>, the node list of the external sorter.
  The host callback \<open>addNamespace\<close> is a function from URI to the \<open>int\<close>
  it returns. The external sorter that \<open>Nodeset_getSortedNodes\<close> calls
  (\<open>Sort_start\<close> of \<open>Sort.c\<close>) is a parameter of type \<open>sorter\<close>, so that
  the emission theorems hold for every sorter that meets the contract of
  \<open>Sort\<close>.
\<close>

record nodeset =
  countedRefs :: "reference list"
  aliasList :: "Alias list"
  nodes :: "tnodeclass \<Rightarrow> nat list"
  heap :: "tnode list"
  hierRefTable :: "tnodeid list"
  namespaceTable :: "tnamespace list"
  sortNodes :: "nat list"

type_synonym addNamespaceCb = "string \<Rightarrow> 32 word"

definition MAX_REFCOUNTEDREFS :: nat where
  "MAX_REFCOUNTEDREFS = 1000000"

text \<open>
  The capacity \<open>Nodeset_new\<close> gives each container; the ObjectType
  container is allocated with \<open>MAX_DATATYPES\<close>.
\<close>

fun container_capacity :: "tnodeclass \<Rightarrow> nat" where
  "container_capacity NODECLASS_OBJECT = 100000"
| "container_capacity NODECLASS_VARIABLE = 1000000"
| "container_capacity NODECLASS_METHOD = 1000"
| "container_capacity NODECLASS_OBJECTTYPE = 1000"
| "container_capacity NODECLASS_DATATYPE = 1000"
| "container_capacity NODECLASS_REFERENCETYPE = 1000"
| "container_capacity NODECLASS_VARIABLETYPE = 1000"

definition ua_namespace :: tnamespace where
  "ua_namespace = \<lparr>ns_idx = Some 0, ns_name = Some ''http://opcfoundation.org/UA/''\<rparr>"

definition Nodeset_new :: nodeset where
  "Nodeset_new =
     \<lparr>countedRefs = [], aliasList = [], nodes = (\<lambda>_. []), heap = [],
      hierRefTable = take 8 builtin_hierachicalRefs, namespaceTable = [ua_namespace],
      sortNodes = []\<rparr>"

definition Nodeset_addNode :: "nodeset \<Rightarrow> nat \<Rightarrow> nodeset result" where
  "Nodeset_addNode s p =
     bindE (nth_checked ''node'' (heap s) p) (\<lambda>node.
       let c = nodeClass node in
       if length (nodes s c) < container_capacity c
       then Inr (s\<lparr>nodes := (nodes s)(c := nodes s c @ [p])\<rparr>)
       else Inl (CapacityExceeded ''nodes[nodeClass]->nodes''))"

definition Nodeset_newNode :: "nodeset \<Rightarrow> tnodeclass \<Rightarrow> xmlAttribute list \<Rightarrow> (nodeset \<times> nat) result" where
  "Nodeset_newNode s nc attrs =
     bindE (initNode (aliasList s) (namespaceTable s) nc attrs) (\<lambda>n.
       Inr (s\<lparr>heap := heap s @ [n]\<rparr>, length (heap s)))"

text \<open>
  \<open>Nodeset_newReference\<close>: store the new reference (a write at
  \<open>countedRefs[refsSize]\<close>), read \<open>IsForward\<close> (exactly \<open>"true"\<close> is
  forward; the default is \<open>"true"\<close>), resolve \<open>ReferenceType\<close> through the
  aliases, classify, and push the reference on the head of the node's
  chosen list. The target is written by \<open>Nodeset_newReferenceFinish\<close>;
  until then the model holds the null id (the C code sets \<open>target.id\<close>
  to \<open>NULL\<close> and leaves \<open>target.nsIdx\<close> unwritten).
\<close>

definition Nodeset_newReference :: "nodeset \<Rightarrow> nat \<Rightarrow> xmlAttribute list \<Rightarrow> (nodeset \<times> nat) result" where
  "Nodeset_newReference s nodeP attrs =
     (if MAX_REFCOUNTEDREFS \<le> length (countedRefs s) then Inl (CapacityExceeded ''countedRefs'')
      else
        bindE (nth_checked ''node'' (heap s) nodeP) (\<lambda>node.
        bindE (alias2Id (aliasList s) (namespaceTable s) (getAttributeValue attrReferenceType attrs)) (\<lambda>rt.
          let p = length (countedRefs s);
              r = \<lparr>isForward = (getAttributeValue attrIsForward attrs = Some ''true''),
                   refType = rt, target = null_nodeid\<rparr>;
              isKnownRef = isKnownReferenceType (heap s) (nodes s NODECLASS_REFERENCETYPE) rt;
              node' = (if classifyHierachical (hierRefTable s) isKnownRef r
                       then node\<lparr>hierachicalRefs := p # hierachicalRefs node\<rparr>
                       else node\<lparr>nonHierachicalRefs := p # nonHierachicalRefs node\<rparr>)
          in Inr (s\<lparr>countedRefs := countedRefs s @ [r], heap := (heap s)[nodeP := node']\<rparr>, p))))"

definition Nodeset_newReferenceFinish :: "nodeset \<Rightarrow> nat \<Rightarrow> nat \<Rightarrow> string \<Rightarrow> nodeset result" where
  "Nodeset_newReferenceFinish s refP nodeP targetId =
     bindE (extractNodedId (namespaceTable s) (Some targetId)) (\<lambda>t.
     bindE (nth_checked ''ref'' (countedRefs s) refP) (\<lambda>r.
       Inr (s\<lparr>countedRefs := (countedRefs s)[refP := r\<lparr>target := t\<rparr>]\<rparr>)))"

definition Nodeset_newAlias :: "nodeset \<Rightarrow> xmlAttribute list \<Rightarrow> nodeset \<times> nat" where
  "Nodeset_newAlias s attrs =
     (let (l, p) = AliasList_newAlias (aliasList s) (getAttributeValue attrAlias attrs)
      in (s\<lparr>aliasList := l\<rparr>, p))"

definition Nodeset_newAliasFinish :: "nodeset \<Rightarrow> nat \<Rightarrow> string \<Rightarrow> nodeset result" where
  "Nodeset_newAliasFinish s aliasP idString =
     bindE (extractNodedId (namespaceTable s) (Some idString)) (\<lambda>i.
     bindE (nth_checked ''alias'' (aliasList s) aliasP) (\<lambda>a.
       Inr (s\<lparr>aliasList := (aliasList s)[aliasP := a\<lparr>alias_id := i\<rparr>]\<rparr>)))"

definition Nodeset_newNamespace :: "nodeset \<Rightarrow> nodeset \<times> nat" where
  "Nodeset_newNamespace s =
     (s\<lparr>namespaceTable := namespaceTable s @ [\<lparr>ns_idx = None, ns_name = None\<rparr>]\<rparr>,
      length (namespaceTable s))"

definition Nodeset_newNamespaceFinish :: "addNamespaceCb \<Rightarrow> nodeset \<Rightarrow> string \<Rightarrow> nodeset" where
  "Nodeset_newNamespaceFinish cb s uri =
     (let k = length (namespaceTable s) - 1
      in s\<lparr>namespaceTable := (namespaceTable s)[k := \<lparr>ns_idx = Some (scast (cb uri)), ns_name = Some uri\<rparr>]\<rparr>)"

definition Nodeset_newNodeFinish :: "nodeset \<Rightarrow> nat \<Rightarrow> nodeset result" where
  "Nodeset_newNodeFinish s nodeP =
     bindE (nth_checked ''node'' (heap s) nodeP) (\<lambda>node.
       let s' = s\<lparr>sortNodes := Sort_addNode (sortNodes s) nodeP\<rparr> in
       if nodeClass node = NODECLASS_REFERENCETYPE
       then bindE (addIfHierachicalReferenceType (countedRefs s) node (hierRefTable s)) (\<lambda>h.
              Inr (s'\<lparr>hierRefTable := h\<rparr>))
       else Inr s')"

subsection \<open>Emission\<close>

datatype emission = AddNodeCb nat | DeleteValueCb nat

fun addNodes :: "nodeset \<Rightarrow> nat list \<Rightarrow> nodeset result" where
  "addNodes s [] = Inr s"
| "addNodes s (p # ps) = bindE (Nodeset_addNode s p) (\<lambda>s'. addNodes s' ps)"

text \<open>
  The seven emission loops of \<open>Nodeset_getSortedNodes\<close>, in their order;
  each Variable's value is deleted right after it is handed on.
\<close>

definition emit_class :: "nodeset \<Rightarrow> tnodeclass \<Rightarrow> emission list" where
  "emit_class s c =
     concat (map (\<lambda>p. if c = NODECLASS_VARIABLE then [AddNodeCb p, DeleteValueCb p] else [AddNodeCb p])
                 (nodes s c))"

definition Nodeset_getSortedNodes :: "sorter \<Rightarrow> nodeset \<Rightarrow> (bool \<times> nodeset \<times> emission list) result" where
  "Nodeset_getSortedNodes srt s =
     (case srt (heap s) (countedRefs s) (sortNodes s) of
        None \<Rightarrow> Inr (False, s, [])
      | Some order \<Rightarrow>
          bindE (addNodes s order) (\<lambda>s'. Inr (True, s', concat (map (emit_class s') phases))))"

fun added_nodes :: "emission list \<Rightarrow> nat list" where
  "added_nodes [] = []"
| "added_nodes (AddNodeCb p # es) = p # added_nodes es"
| "added_nodes (DeleteValueCb p # es) = added_nodes es"

end
