(* ===== verification/Emission.thy ===== *)
theory Emission
  imports Nodeset
begin

text \<open>
  What \<open>Nodeset_getSortedNodes\<close> hands to the consumer. \<open>Sort_start\<close>
  feeds its order to \<open>Nodeset_addNode\<close>, which files each node into the
  container of its class; the seven emission loops then walk the
  containers in phase order. The lemmas below show that the stream of
  \<open>addNode\<close> callbacks is exactly the sorter's order, and from the sorter's
  lemmas: phase order, parents before children within a phase, every
  finished node once, failure exactly on a cyclic phase, and each
  Variable's value deleted right after the Variable is delivered.
\<close>

definition node_cls :: "nodeset \<Rightarrow> nat \<Rightarrow> tnodeclass" where
  "node_cls s p = nodeClass (heap s ! p)"

definition containers_empty :: "nodeset \<Rightarrow> bool" where
  "containers_empty s \<longleftrightarrow> (\<forall>c. nodes s c = [])"

definition sort_edge :: "nodeset \<Rightarrow> nat \<Rightarrow> nat \<Rightarrow> bool" where
  "sort_edge s = hierEdge (heap s) (countedRefs s)"

lemma node_cls_nodes_update [simp]: "node_cls (s\<lparr>nodes := X\<rparr>) = node_cls s"
  by (simp add: node_cls_def [abs_def])

text \<open>The contract of a sorter, read at the state's heap, store and recorded nodes.\<close>

lemma sort_contract_at:
  assumes "sort_contract srt"
  shows "srt (heap s) (countedRefs s) (sortNodes s) = None \<longleftrightarrow> class_cycle (sort_edge s) (node_cls s) (sortNodes s)"
    and "srt (heap s) (countedRefs s) (sortNodes s) = Some order \<Longrightarrow>
         mset order = mset (sortNodes s) \<and> sorted_wrt (phase_before (node_cls s) (sort_edge s)) order"
  using assms by (simp_all add: sort_contract_def sort_edge_def node_cls_def [abs_def])

lemma Nodeset_addNode_Inr:
  "Nodeset_addNode s p = Inr s' \<longleftrightarrow>
   p < length (heap s) \<and> length (nodes s (node_cls s p)) < container_capacity (node_cls s p) \<and>
   s' = s\<lparr>nodes := (nodes s)(node_cls s p := nodes s (node_cls s p) @ [p])\<rparr>"
  by (auto simp: Nodeset_addNode_def node_cls_def Let_def)

lemma addNodes_Inr:
  "addNodes s ps = Inr s' \<Longrightarrow>
   s' = s\<lparr>nodes := (\<lambda>c. nodes s c @ filter (\<lambda>p. node_cls s p = c) ps)\<rparr> \<and> (\<forall>p \<in> set ps. p < length (heap s))"
proof (induction ps arbitrary: s)
  case Nil
  then show ?case by simp
next
  case (Cons p ps)
  then obtain s1 where s1: "Nodeset_addNode s p = Inr s1" and rest: "addNodes s1 ps = Inr s'"
    by auto
  from s1 have p: "p < length (heap s)"
    and s1_eq: "s1 = s\<lparr>nodes := (nodes s)(node_cls s p := nodes s (node_cls s p) @ [p])\<rparr>"
    by (simp_all add: Nodeset_addNode_Inr)
  have cls: "node_cls s1 = node_cls s"
    by (simp add: s1_eq node_cls_def [abs_def])
  have fn: "(\<lambda>c. nodes s1 c @ filter (\<lambda>q. node_cls s1 q = c) ps) =
             (\<lambda>c. nodes s c @ filter (\<lambda>q. node_cls s q = c) (p # ps))"
    by (rule ext) (simp add: s1_eq cls)
  from Cons.IH [OF rest] p s1_eq fn show ?case
    by simp
qed

lemma addNodes_total:
  assumes "\<forall>p \<in> set ps. p < length (heap s)"
    and "\<forall>c. length (nodes s c) + length (filter (\<lambda>p. node_cls s p = c) ps) \<le> container_capacity c"
  shows "\<exists>s'. addNodes s ps = Inr s'"
  using assms
proof (induction ps arbitrary: s)
  case (Cons p ps)
  let ?s1 = "s\<lparr>nodes := (nodes s)(node_cls s p := nodes s (node_cls s p) @ [p])\<rparr>"
  have cap: "length (nodes s (node_cls s p)) < container_capacity (node_cls s p)"
    using Cons.prems(2) [rule_format, of "node_cls s p"] by simp
  with Cons.prems(1) have s1: "Nodeset_addNode s p = Inr ?s1"
    by (simp add: Nodeset_addNode_Inr)
  have cls: "node_cls ?s1 = node_cls s"
    by (simp add: node_cls_def [abs_def])
  have "\<forall>c. length (nodes ?s1 c) + length (filter (\<lambda>q. node_cls ?s1 q = c) ps) \<le> container_capacity c"
  proof
    fix c
    show "length (nodes ?s1 c) + length (filter (\<lambda>q. node_cls ?s1 q = c) ps) \<le> container_capacity c"
      using Cons.prems(2) [rule_format, of c] cls by (cases "c = node_cls s p") auto
  qed
  with Cons.prems(1) Cons.IH [of ?s1] obtain s' where "addNodes ?s1 ps = Inr s'"
    by auto
  with s1 show ?case by auto
qed simp

lemma added_nodes_append [simp]: "added_nodes (xs @ ys) = added_nodes xs @ added_nodes ys"
  by (induction xs rule: added_nodes.induct) auto

lemma added_nodes_emit_one [simp]:
  "added_nodes (if b then [AddNodeCb p, DeleteValueCb p] else [AddNodeCb p]) = [p]"
  by simp

lemma added_nodes_emit_list:
  "added_nodes (concat (map (\<lambda>p. if b then [AddNodeCb p, DeleteValueCb p] else [AddNodeCb p]) xs)) = xs"
  by (induction xs) auto

lemma added_nodes_emit_class [simp]: "added_nodes (emit_class s c) = nodes s c"
  by (simp add: emit_class_def added_nodes_emit_list)

lemma added_nodes_concat: "added_nodes (concat (map f cs)) = concat (map (\<lambda>c. added_nodes (f c)) cs)"
  by (induction cs) auto

lemma emit_class_filter:
  "emit_class (s\<lparr>nodes := (\<lambda>c. filter (\<lambda>p. node_cls s p = c) order)\<rparr>) c =
   concat (map (\<lambda>p. if node_cls s p = NODECLASS_VARIABLE then [AddNodeCb p, DeleteValueCb p] else [AddNodeCb p])
               (filter (\<lambda>p. node_cls s p = c) order))"
  unfolding emit_class_def by (induction order) auto

text \<open>The successful run, unfolded once for all the theorems below.\<close>

lemma getSortedNodes_True_run:
  assumes "containers_empty s" and "Nodeset_getSortedNodes srt s = Inr (True, s', ev)"
  shows "\<exists>order. srt (heap s) (countedRefs s) (sortNodes s) = Some order \<and>
           s' = s\<lparr>nodes := (\<lambda>c. filter (\<lambda>p. node_cls s p = c) order)\<rparr> \<and>
           ev = concat (map (\<lambda>c. emit_class s' c) phases)"
proof -
  obtain order where ord: "srt (heap s) (countedRefs s) (sortNodes s) = Some order"
    and run: "addNodes s order = Inr s'" and ev: "ev = concat (map (emit_class s') phases)"
    using assms(2) by (auto simp: Nodeset_getSortedNodes_def split: option.splits)
  have "s' = s\<lparr>nodes := (\<lambda>c. filter (\<lambda>p. node_cls s p = c) order)\<rparr>"
    using addNodes_Inr [OF run] assms(1) by (simp add: containers_empty_def)
  with ord ev show ?thesis
    by auto
qed

lemma contract_regroup:
  assumes "sort_contract srt" and "srt (heap s) (countedRefs s) (sortNodes s) = Some order"
  shows "concat (map (\<lambda>c. filter (\<lambda>p. node_cls s p = c) order) phases) = order"
  using phase_before_regroup [OF conjunct2 [OF sort_contract_at(2) [OF assms]] phases_sorted] by simp

subsection \<open>The theorems on emission\<close>

lemma getSortedNodes_True_order:
  assumes "sort_contract srt" and "containers_empty s" and "Nodeset_getSortedNodes srt s = Inr (True, s', ev)"
  shows "srt (heap s) (countedRefs s) (sortNodes s) = Some (added_nodes ev)"
proof -
  obtain order where ord: "srt (heap s) (countedRefs s) (sortNodes s) = Some order"
    and s': "s' = s\<lparr>nodes := (\<lambda>c. filter (\<lambda>p. node_cls s p = c) order)\<rparr>"
    and ev: "ev = concat (map (\<lambda>c. emit_class s' c) phases)"
    using getSortedNodes_True_run [OF assms(2,3)] by blast
  have "added_nodes ev = concat (map (\<lambda>c. filter (\<lambda>p. node_cls s p = c) order) phases)"
    by (simp add: ev s' added_nodes_concat)
  also have "\<dots> = order"
    using contract_regroup [OF assms(1) ord] .
  finally show ?thesis
    using ord by simp
qed

text \<open>
  C6: for every sorter meeting the contract, from a state whose containers
  are empty (every state the parser events reach, see \<open>Builder\<close>), a
  successful \<open>Nodeset_getSortedNodes\<close> hands the nodes to the consumer
  exactly in the order the sorter computed: the class containers regroup
  the sorted nodes without reordering them.
\<close>

theorem getSortedNodes_emits_sorter_order:
  assumes "sort_contract srt" and "containers_empty s" and "Nodeset_getSortedNodes srt s = Inr (True, s', ev)"
  shows "srt (heap s) (countedRefs s) (sortNodes s) = Some (added_nodes ev)"
  using getSortedNodes_True_order [OF assms] .

text \<open>
  The emitted order respects the phases and, within a phase, every parent
  precedes its children: of two emitted nodes, the later one is in a later
  phase, or in the same class and not a hierarchical parent of the
  earlier one.
\<close>

lemma getSortedNodes_phase_order:
  assumes "sort_contract srt" and "containers_empty s" and "Nodeset_getSortedNodes srt s = Inr (True, s', ev)"
  shows "sorted_wrt (\<lambda>a b. phase (node_cls s a) < phase (node_cls s b) \<or>
                         (node_cls s a = node_cls s b \<and> \<not> sort_edge s b a)) (added_nodes ev)"
  using sort_contract_at(2) [OF assms(1) getSortedNodes_True_order [OF assms]]
  by (simp add: phase_before_def [abs_def])

text \<open>Every node handed to \<open>Nodeset_newNodeFinish\<close> is emitted, exactly as often.\<close>

lemma getSortedNodes_emits_each_once:
  assumes "sort_contract srt" and "containers_empty s" and "Nodeset_getSortedNodes srt s = Inr (True, s', ev)"
  shows "mset (added_nodes ev) = mset (sortNodes s)"
  using sort_contract_at(2) [OF assms(1) getSortedNodes_True_order [OF assms]] by simp

lemma getSortedNodes_False_iff:
  "(\<exists>s' ev. Nodeset_getSortedNodes srt s = Inr (False, s', ev)) \<longleftrightarrow>
   srt (heap s) (countedRefs s) (sortNodes s) = None"
  by (auto simp: Nodeset_getSortedNodes_def split: option.splits)

lemma getSortedNodes_False:
  "Nodeset_getSortedNodes srt s = Inr (False, s', ev) \<Longrightarrow> s' = s \<and> ev = []"
  by (auto simp: Nodeset_getSortedNodes_def split: option.splits)

lemma getSortedNodes_False_unchanged:
  "Nodeset_getSortedNodes srt s = Inr (False, s, []) \<longleftrightarrow> srt (heap s) (countedRefs s) (sortNodes s) = None"
  using getSortedNodes_False_iff getSortedNodes_False by blast

text \<open>
  C4: for every sorter meeting the contract, \<open>Nodeset_getSortedNodes\<close>
  returns \<open>false\<close>, with the state unchanged and no callback made,
  exactly when some phase holds a nonempty set of finished nodes each of
  which has a hierarchical parent in the set (a cycle within the phase);
  and every \<open>false\<close> it returns is of that form.
\<close>

theorem getSortedNodes_fails_iff_cycle:
  assumes "sort_contract srt"
  shows "(Nodeset_getSortedNodes srt s = Inr (False, s, []) \<longleftrightarrow>
          (\<exists>c. \<exists>S \<subseteq> {p \<in> set (sortNodes s). node_cls s p = c}. S \<noteq> {} \<and> (\<forall>v \<in> S. \<exists>u \<in> S. sort_edge s u v))) \<and>
         (\<forall>s' ev. Nodeset_getSortedNodes srt s = Inr (False, s', ev) \<longrightarrow> s' = s \<and> ev = [])"
  using sort_contract_at(1) [OF assms, of s] getSortedNodes_False [of srt s]
  by (simp add: getSortedNodes_False_unchanged class_cycle_def)

text \<open>
  C9: for every sorter meeting the contract, the stream the consumer sees
  is the emitted nodes in order, each Variable followed at once by the
  deletion of its value and no other node followed by one.
\<close>

theorem getSortedNodes_deletes_values:
  assumes "sort_contract srt" and "containers_empty s" and "Nodeset_getSortedNodes srt s = Inr (True, s', ev)"
  shows "ev = concat (map (\<lambda>p. if node_cls s p = NODECLASS_VARIABLE then [AddNodeCb p, DeleteValueCb p]
                               else [AddNodeCb p]) (added_nodes ev))"
proof -
  let ?g = "\<lambda>p. if node_cls s p = NODECLASS_VARIABLE then [AddNodeCb p, DeleteValueCb p] else [AddNodeCb p]"
  obtain order where ord: "srt (heap s) (countedRefs s) (sortNodes s) = Some order"
    and s': "s' = s\<lparr>nodes := (\<lambda>c. filter (\<lambda>p. node_cls s p = c) order)\<rparr>"
    and ev: "ev = concat (map (\<lambda>c. emit_class s' c) phases)"
    using getSortedNodes_True_run [OF assms(2,3)] by blast
  have "ev = concat (map (\<lambda>c. concat (map ?g (filter (\<lambda>p. node_cls s p = c) order))) phases)"
    by (simp add: ev s' emit_class_filter)
  also have "\<dots> = concat (map ?g (concat (map (\<lambda>c. filter (\<lambda>p. node_cls s p = c) order) phases)))"
    by (simp add: concat_map_concat comp_def)
  also have "\<dots> = concat (map ?g order)"
    by (simp only: contract_regroup [OF assms(1) ord])
  finally have evg: "ev = concat (map ?g order)" .
  moreover have "added_nodes ev = order"
    by (simp add: evg added_nodes_concat)
  ultimately show ?thesis by simp
qed

text \<open>
  \<open>Nodeset_getSortedNodes\<close> is defined (no write past a container)
  whenever the finished nodes are valid pointers and no class has more
  finished nodes than its container holds.
\<close>

lemma getSortedNodes_defined:
  assumes "sort_contract srt" and "containers_empty s" and "\<forall>p \<in> set (sortNodes s). p < length (heap s)"
    and "\<forall>c. length (filter (\<lambda>p. node_cls s p = c) (sortNodes s)) \<le> container_capacity c"
  shows "\<exists>r. Nodeset_getSortedNodes srt s = Inr r"
proof (cases "srt (heap s) (countedRefs s) (sortNodes s)")
  case None
  then show ?thesis
    by (intro exI [of _ "(False, s, [])"]) (simp add: Nodeset_getSortedNodes_def)
next
  case (Some order)
  have ms: "mset order = mset (sortNodes s)"
    using sort_contract_at(2) [OF assms(1) Some] by simp
  then have "set order = set (sortNodes s)"
    by (metis set_mset_mset)
  moreover have "\<forall>c. length (filter (\<lambda>p. node_cls s p = c) order) = length (filter (\<lambda>p. node_cls s p = c) (sortNodes s))"
    using ms by (metis mset_filter size_mset)
  ultimately obtain s' where "addNodes s order = Inr s'"
    using addNodes_total [of order s] assms by (auto simp: containers_empty_def)
  with Some show ?thesis
    unfolding Nodeset_getSortedNodes_def by auto
qed

end
