(* ===== verification/Builder.thy ===== *)
theory Builder
  imports Emission
begin

text \<open>
  The builder as the parser drives it (spec section 4.C8): the SAX layer
  calls the event functions of \<open>Nodeset.c\<close> in document order, passing
  back the pointers they returned. \<open>builder_step\<close> performs one event;
  \<open>reachable cb\<close> is the set of states some sequence of successful events
  leads to from \<open>Nodeset_new\<close>, for the host's namespace callback \<open>cb\<close>.
  The parser may pass any pointer: a bad one makes the event fail
  (\<open>Inl\<close>), which ends the run. The invariants below hold in every
  reachable state; they are proved one event at a time and lifted by rule
  induction.
\<close>

datatype event =
    EvNewNamespace
  | EvNewNamespaceFinish string
  | EvNewAlias "xmlAttribute list"
  | EvNewAliasFinish nat string
  | EvNewNode tnodeclass "xmlAttribute list"
  | EvNewNodeFinish nat
  | EvNewReference nat "xmlAttribute list"
  | EvNewReferenceFinish nat nat string

fun builder_step :: "addNamespaceCb \<Rightarrow> nodeset \<Rightarrow> event \<Rightarrow> nodeset result" where
  "builder_step cb s EvNewNamespace = Inr (fst (Nodeset_newNamespace s))"
| "builder_step cb s (EvNewNamespaceFinish uri) = Inr (Nodeset_newNamespaceFinish cb s uri)"
| "builder_step cb s (EvNewAlias attrs) = Inr (fst (Nodeset_newAlias s attrs))"
| "builder_step cb s (EvNewAliasFinish a idString) = Nodeset_newAliasFinish s a idString"
| "builder_step cb s (EvNewNode nc attrs) = mapE fst (Nodeset_newNode s nc attrs)"
| "builder_step cb s (EvNewNodeFinish p) = Nodeset_newNodeFinish s p"
| "builder_step cb s (EvNewReference p attrs) = mapE fst (Nodeset_newReference s p attrs)"
| "builder_step cb s (EvNewReferenceFinish r p targetId) = Nodeset_newReferenceFinish s r p targetId"

fun run_events :: "addNamespaceCb \<Rightarrow> nodeset \<Rightarrow> event list \<Rightarrow> nodeset result" where
  "run_events cb s [] = Inr s"
| "run_events cb s (e # es) = bindE (builder_step cb s e) (\<lambda>s'. run_events cb s' es)"

inductive reachable :: "addNamespaceCb \<Rightarrow> nodeset \<Rightarrow> bool" for cb where
  init: "reachable cb Nodeset_new"
| step: "reachable cb s \<Longrightarrow> builder_step cb s e = Inr s' \<Longrightarrow> reachable cb s'"

lemma run_events_reachable:
  "reachable cb s \<Longrightarrow> run_events cb s es = Inr s' \<Longrightarrow> reachable cb s'"
  by (induction es arbitrary: s) (auto intro: reachable.step)

subsection \<open>The invariant\<close>

text \<open>All reference pointers held by the nodes of the heap, list by list.\<close>

definition ref_ptrs :: "nodeset \<Rightarrow> nat list" where
  "ref_ptrs s = concat (map (\<lambda>n. hierachicalRefs n @ nonHierachicalRefs n) (heap s))"

definition builder_inv :: "nodeset \<Rightarrow> bool" where
  "builder_inv s \<longleftrightarrow>
     containers_empty s \<and>
     mset (ref_ptrs s) = mset [0..<length (countedRefs s)] \<and>
     (\<forall>p \<in> set (sortNodes s). p < length (heap s)) \<and>
     (\<forall>n \<in> set (heap s). ext_class (ext n) = nodeClass n) \<and>
     take 8 (hierRefTable s) = builtin_hierachicalRefs \<and>
     length (hierRefTable s) \<le> MAX_HIERACHICAL_REFS \<and>
     namespaceTable s \<noteq> []"

lemma builder_inv_init: "builder_inv Nodeset_new"
  by (simp add: builder_inv_def Nodeset_new_def containers_empty_def ref_ptrs_def
      builtin_hierachicalRefs_def MAX_HIERACHICAL_REFS_def)

lemma builder_inv_newNamespace: "builder_inv s \<Longrightarrow> builder_inv (fst (Nodeset_newNamespace s))"
  by (simp add: builder_inv_def Nodeset_newNamespace_def containers_empty_def ref_ptrs_def)

lemma builder_inv_newNamespaceFinish: "builder_inv s \<Longrightarrow> builder_inv (Nodeset_newNamespaceFinish cb s uri)"
  by (simp add: builder_inv_def Nodeset_newNamespaceFinish_def containers_empty_def ref_ptrs_def Let_def)

lemma builder_inv_newAlias: "builder_inv s \<Longrightarrow> builder_inv (fst (Nodeset_newAlias s attrs))"
  by (simp add: builder_inv_def Nodeset_newAlias_def AliasList_newAlias_def containers_empty_def ref_ptrs_def)

lemma builder_inv_newAliasFinish:
  "builder_inv s \<Longrightarrow> Nodeset_newAliasFinish s a idString = Inr s' \<Longrightarrow> builder_inv s'"
  by (auto simp: builder_inv_def Nodeset_newAliasFinish_def containers_empty_def ref_ptrs_def)

lemma builder_inv_newNode:
  assumes "builder_inv s" and "Nodeset_newNode s nc attrs = Inr (s', p)"
  shows "builder_inv s'"
proof -
  obtain n where n: "initNode (aliasList s) (namespaceTable s) nc attrs = Inr n"
    and s': "s' = s\<lparr>heap := heap s @ [n]\<rparr>"
    using assms(2) by (auto simp: Nodeset_newNode_def)
  from n have "ext_class (ext n) = nodeClass n"
    and "hierachicalRefs n = []" and "nonHierachicalRefs n = []"
    by (auto simp: initNode_Inr dest: extractExt_class)
  with assms(1) show ?thesis
    by (auto simp: builder_inv_def s' containers_empty_def ref_ptrs_def)
qed

lemma take_append_replicate:
  "take 8 hs = builtin_hierachicalRefs \<Longrightarrow> take 8 (hs @ replicate k x) = builtin_hierachicalRefs"
proof -
  assume a: "take 8 hs = builtin_hierachicalRefs"
  then have "length (take 8 hs) = 8"
    by (simp add: builtin_hierachicalRefs_def)
  then have "8 \<le> length hs"
    by simp
  with a show ?thesis by simp
qed

lemma builder_inv_newNodeFinish:
  assumes "builder_inv s" and "Nodeset_newNodeFinish s p = Inr s'"
  shows "builder_inv s'"
proof -
  obtain node where p: "p < length (heap s)" and node: "node = heap s ! p"
    using assms(2) by (auto simp: Nodeset_newNodeFinish_def)
  let ?s1 = "s\<lparr>sortNodes := Sort_addNode (sortNodes s) p\<rparr>"
  have inv1: "builder_inv ?s1"
    using assms(1) p by (simp add: builder_inv_def Sort_addNode_def containers_empty_def ref_ptrs_def)
  show ?thesis
  proof (cases "nodeClass node = NODECLASS_REFERENCETYPE")
    case True
    then obtain h where h: "addIfHierachicalReferenceType (countedRefs s) node (hierRefTable s) = Inr h"
      and s': "s' = ?s1\<lparr>hierRefTable := h\<rparr>"
      using assms(2) p node by (auto simp: Nodeset_newNodeFinish_def Let_def)
    obtain rs where loop: "addIfHier_loop (node_id node) rs (hierRefTable s) = Inr h"
      using h by (auto simp: addIfHierachicalReferenceType_def)
    obtain k where hk: "h = hierRefTable s @ replicate k (node_id node)"
      using addIfHier_loop_prefix [OF loop] by blast
    have "take 8 (hierRefTable s) = builtin_hierachicalRefs"
      using assms(1) by (simp add: builder_inv_def)
    from take_append_replicate [OF this, of k "node_id node"] hk
    have t8: "take 8 h = builtin_hierachicalRefs" by simp
    have bound: "length h \<le> MAX_HIERACHICAL_REFS"
      using addIfHier_loop_bound [OF loop] assms(1) by (simp add: builder_inv_def)
    from inv1 t8 bound show ?thesis
      by (simp add: builder_inv_def s' containers_empty_def ref_ptrs_def)
  next
    case False
    then have "s' = ?s1"
      using assms(2) p node by (auto simp: Nodeset_newNodeFinish_def Let_def)
    with inv1 show ?thesis by simp
  qed
qed

lemma mset_upt_Suc_end: "mset [0..<Suc n] = mset [0..<n] + {#n#}"
  by simp

lemma builder_inv_newReference:
  assumes "builder_inv s" and "Nodeset_newReference s nodeP attrs = Inr (s', p)"
  shows "builder_inv s'"
proof -
  let ?f = "\<lambda>n. hierachicalRefs n @ nonHierachicalRefs n"
  obtain rt where lt: "nodeP < length (heap s)"
    and rt: "alias2Id (aliasList s) (namespaceTable s) (getAttributeValue attrReferenceType attrs) = Inr rt"
    and cap: "\<not> MAX_REFCOUNTEDREFS \<le> length (countedRefs s)"
    using assms(2) by (auto simp: Nodeset_newReference_def split: if_splits)
  let ?node = "heap s ! nodeP"
  let ?p = "length (countedRefs s)"
  let ?r = "\<lparr>isForward = (getAttributeValue attrIsForward attrs = Some ''true''), refType = rt, target = null_nodeid\<rparr>"
  let ?known = "isKnownReferenceType (heap s) (nodes s NODECLASS_REFERENCETYPE) rt"
  let ?node' = "if classifyHierachical (hierRefTable s) ?known ?r
                then ?node\<lparr>hierachicalRefs := ?p # hierachicalRefs ?node\<rparr>
                else ?node\<lparr>nonHierachicalRefs := ?p # nonHierachicalRefs ?node\<rparr>"
  have s': "s' = s\<lparr>countedRefs := countedRefs s @ [?r], heap := (heap s)[nodeP := ?node']\<rparr>"
    using assms(2) lt rt cap by (auto simp: Nodeset_newReference_def Let_def)
  have one: "mset (?f ?node') = mset (?f ?node) + {#?p#}"
    by auto
  have "mset (concat (map ?f ((heap s)[nodeP := ?node']))) + mset (?f ?node) =
        mset (concat (map ?f (heap s))) + mset (?f ?node')"
    using lt by (rule mset_concat_map_update)
  then have "mset (concat (map ?f ((heap s)[nodeP := ?node']))) = mset (concat (map ?f (heap s))) + {#?p#}"
    by (simp only: one) (simp add: algebra_simps)
  then have refs: "mset (ref_ptrs s') = mset [0..<length (countedRefs s')]"
    using assms(1) by (simp add: s' ref_ptrs_def builder_inv_def)
  have cls: "\<forall>n \<in> set ((heap s)[nodeP := ?node']). ext_class (ext n) = nodeClass n"
    using assms(1) lt by (auto simp: builder_inv_def dest!: set_update_subset_insert [THEN subsetD])
  from assms(1) refs cls show ?thesis
    by (simp add: builder_inv_def s' containers_empty_def)
qed

lemma builder_inv_newReferenceFinish:
  "builder_inv s \<Longrightarrow> Nodeset_newReferenceFinish s r p targetId = Inr s' \<Longrightarrow> builder_inv s'"
  by (auto simp: builder_inv_def Nodeset_newReferenceFinish_def containers_empty_def ref_ptrs_def)

lemma builder_step_inv: "builder_inv s \<Longrightarrow> builder_step cb s e = Inr s' \<Longrightarrow> builder_inv s'"
proof (cases e)
  case (EvNewNode nc attrs)
  assume "builder_inv s" and "builder_step cb s e = Inr s'"
  with EvNewNode show ?thesis by (auto intro: builder_inv_newNode)
next
  case (EvNewReference p attrs)
  assume "builder_inv s" and "builder_step cb s e = Inr s'"
  with EvNewReference show ?thesis by (auto intro: builder_inv_newReference)
qed (auto intro: builder_inv_newNamespace builder_inv_newNamespaceFinish builder_inv_newAlias
       builder_inv_newAliasFinish builder_inv_newNodeFinish builder_inv_newReferenceFinish)

lemma reachable_builder_inv: "reachable cb s \<Longrightarrow> builder_inv s"
proof (induction rule: reachable.induct)
  case init
  show ?case by (rule builder_inv_init)
next
  case (step s e s')
  then show ?case by (blast intro: builder_step_inv)
qed

lemmas builder_eval = Nodeset_new_def Nodeset_newNamespace_def Nodeset_newNamespaceFinish_def
  Nodeset_newNode_def initNode_def extractNodedId_def extractBrowseName_def atoi_def c_isspace_def
  c_isdigit_def c_int_of_def translateNodeId_def translateBrowseName_def Nodeset_newReference_def
  Nodeset_newReferenceFinish_def Nodeset_newNodeFinish_def addIfHierachicalReferenceType_def alias2Id_def
  isKnownReferenceType_def classifyHierachical_def ua_namespace_def Sort_addNode_def
  builtin_hierachicalRefs_def ua_nodeid_def MAX_HIERACHICAL_REFS_def MAX_REFCOUNTEDREFS_def
  null_nodeid_def Let_def word_sless_alt Nodeset_newAlias_def Nodeset_newAliasFinish_def
  AliasList_newAlias_def Nodeset_getSortedNodes_def Sort_start_def hierEdge_def phases_def
  Nodeset_addNode_def emit_class_def kahn_sort_def kahn.simps

subsection \<open>Properties of the builder\<close>

text \<open>
  C5: in every state the parser events reach, each stored reference is
  held by exactly one list of exactly one node (spec P3), and no node
  holds a pointer outside the store.
\<close>

theorem reachable_refs_exactly_once:
  assumes "reachable cb s"
  shows "count (mset (ref_ptrs s)) p = (if p < length (countedRefs s) then 1 else 0)"
proof -
  have "mset (ref_ptrs s) = mset [0..<length (countedRefs s)]"
    using reachable_builder_inv [OF assms] by (simp add: builder_inv_def)
  then show ?thesis by (simp add: count_mset_set)
qed

text \<open>
  The hierarchical-reference table only grows: every event leaves the
  old table as a prefix of the new one.
\<close>

theorem builder_step_hierRefTable_grows:
  assumes "builder_step cb s e = Inr s'"
  shows "\<exists>ext. hierRefTable s' = hierRefTable s @ ext"
proof (cases e)
  case (EvNewNodeFinish p)
  with assms obtain node where "node = heap s ! p" and "p < length (heap s)"
    by (auto simp: Nodeset_newNodeFinish_def)
  show ?thesis
  proof (cases "nodeClass (heap s ! p) = NODECLASS_REFERENCETYPE")
    case True
    with assms EvNewNodeFinish obtain h where
      h: "addIfHierachicalReferenceType (countedRefs s) (heap s ! p) (hierRefTable s) = Inr h"
      and s': "hierRefTable s' = h"
      by (auto simp: Nodeset_newNodeFinish_def Let_def)
    from h obtain rs where "addIfHier_loop (node_id (heap s ! p)) rs (hierRefTable s) = Inr h"
      by (auto simp: addIfHierachicalReferenceType_def)
    from addIfHier_loop_prefix [OF this] s' show ?thesis by blast
  next
    case False
    with assms EvNewNodeFinish show ?thesis
      by (auto simp: Nodeset_newNodeFinish_def Let_def)
  qed
qed (use assms in \<open>auto simp: Nodeset_newNamespace_def Nodeset_newNamespaceFinish_def Let_def
       Nodeset_newAlias_def Nodeset_newAliasFinish_def Nodeset_newNode_def Nodeset_newReference_def
       Nodeset_newReferenceFinish_def split: prod.splits if_splits\<close>)

text \<open>
  C24: in every reachable state the table starts with the eight seed
  entries and has at most \<open>MAX_HIERACHICAL_REFS\<close> = 50 entries (an event
  that would write past the array fails instead).
\<close>

theorem reachable_hierRefTable:
  assumes "reachable cb s"
  shows "\<exists>ext. hierRefTable s = builtin_hierachicalRefs @ ext \<and> length (hierRefTable s) \<le> MAX_HIERACHICAL_REFS"
proof -
  have t: "take 8 (hierRefTable s) = builtin_hierachicalRefs"
    and b: "length (hierRefTable s) \<le> MAX_HIERACHICAL_REFS"
    using reachable_builder_inv [OF assms] by (simp_all add: builder_inv_def)
  from t have "hierRefTable s = builtin_hierachicalRefs @ drop 8 (hierRefTable s)"
    by (metis append_take_drop_id)
  with b show ?thesis by blast
qed

text \<open>
  C22: the containers are filled only by \<open>Sort_start\<close>, inside
  \<open>Nodeset_getSortedNodes\<close>; while the document is parsed the
  ReferenceType container is empty, so \<open>isKnownReferenceType\<close> knows
  exactly the types of namespace 0 and every reference whose type lies in
  another namespace is filed as hierarchical, whether or not its type
  has been parsed.
\<close>

theorem reachable_isKnownReferenceType:
  assumes "reachable cb s"
  shows "isKnownReferenceType (heap s) (nodes s NODECLASS_REFERENCETYPE) t \<longleftrightarrow> nsIdx t = 0"
  using reachable_builder_inv [OF assms]
  by (simp add: builder_inv_def containers_empty_def isKnownReferenceType_def)

end
