(* ===== verification/Events.thy ===== *)
theory Events
  imports Builder
begin

text \<open>
  What single events of \<open>Nodeset.c\<close> do to the state: the alias table
  (\<open>Nodeset_newAlias\<close>, \<open>Nodeset_newAliasFinish\<close>) as an insert/lookup
  pair, and the reference pointer the parser keeps between
  \<open>Nodeset_newReference\<close> and \<open>Nodeset_newReferenceFinish\<close>: the node's
  list and the parser share one entry of the reference store, so the
  target written by the \<open>Finish\<close> is the target the node's reference has.
\<close>

text \<open>
  The test \<open>Nodeset_newReference\<close> makes (\<open>Nodeset.c\<close> 591--594) on the
  resolved type \<open>rt\<close>: hierarchical when the type is in the table or
  not known.
\<close>

definition ref_hier :: "nodeset \<Rightarrow> xmlAttribute list \<Rightarrow> tnodeid \<Rightarrow> bool" where
  "ref_hier s attrs rt =
     classifyHierachical (hierRefTable s) (isKnownReferenceType (heap s) (nodes s NODECLASS_REFERENCETYPE) rt)
       \<lparr>isForward = (getAttributeValue attrIsForward attrs = Some ''true''), refType = rt, target = null_nodeid\<rparr>"

subsection \<open>Unfolding the events\<close>

lemma Nodeset_newAlias_eq:
  "Nodeset_newAlias s attrs =
     (s\<lparr>aliasList := aliasList s @ [\<lparr>alias_name = getAttributeValue attrAlias attrs, alias_id = null_nodeid\<rparr>]\<rparr>,
      length (aliasList s))"
  by (simp add: Nodeset_newAlias_def AliasList_newAlias_def)

lemma Nodeset_newAliasFinish_Inr:
  "Nodeset_newAliasFinish s a idString = Inr s' \<longleftrightarrow>
   (\<exists>i. extractNodedId (namespaceTable s) (Some idString) = Inr i \<and> a < length (aliasList s) \<and>
        s' = s\<lparr>aliasList := (aliasList s)[a := (aliasList s ! a)\<lparr>alias_id := i\<rparr>]\<rparr>)"
  by (auto simp: Nodeset_newAliasFinish_def)

text \<open>Declaring an alias and finishing it appends one entry with the parsed id.\<close>

lemma alias_declare_finish:
  assumes "Nodeset_newAliasFinish (fst (Nodeset_newAlias s attrs)) (snd (Nodeset_newAlias s attrs)) idString = Inr s'"
  shows "\<exists>i. extractNodedId (namespaceTable s) (Some idString) = Inr i \<and>
           aliasList s' = aliasList s @ [\<lparr>alias_name = getAttributeValue attrAlias attrs, alias_id = i\<rparr>] \<and>
           namespaceTable s' = namespaceTable s"
  using assms by (auto simp: Nodeset_newAlias_eq Nodeset_newAliasFinish_Inr)

lemma Nodeset_newReferenceFinish_Inr:
  "Nodeset_newReferenceFinish s r p targetId = Inr s' \<longleftrightarrow>
   (\<exists>t. extractNodedId (namespaceTable s) (Some targetId) = Inr t \<and> r < length (countedRefs s) \<and>
        s' = s\<lparr>countedRefs := (countedRefs s)[r := (countedRefs s ! r)\<lparr>target := t\<rparr>]\<rparr>)"
  by (auto simp: Nodeset_newReferenceFinish_def)

lemma Nodeset_newReference_eq:
  assumes "Nodeset_newReference s nodeP attrs = Inr (s1, r)"
  obtains rt where "alias2Id (aliasList s) (namespaceTable s) (getAttributeValue attrReferenceType attrs) = Inr rt"
    and "nodeP < length (heap s)" and "r = length (countedRefs s)"
    and "s1 = s\<lparr>countedRefs := countedRefs s @
                 [\<lparr>isForward = (getAttributeValue attrIsForward attrs = Some ''true''), refType = rt, target = null_nodeid\<rparr>],
               heap := (heap s)[nodeP := (if ref_hier s attrs rt
                 then (heap s ! nodeP)\<lparr>hierachicalRefs := r # hierachicalRefs (heap s ! nodeP)\<rparr>
                 else (heap s ! nodeP)\<lparr>nonHierachicalRefs := r # nonHierachicalRefs (heap s ! nodeP)\<rparr>)]\<rparr>"
proof -
  obtain rt where lt: "nodeP < length (heap s)"
    and rt: "alias2Id (aliasList s) (namespaceTable s) (getAttributeValue attrReferenceType attrs) = Inr rt"
    and cap: "\<not> MAX_REFCOUNTEDREFS \<le> length (countedRefs s)"
    using assms by (auto simp: Nodeset_newReference_def split: if_splits)
  with assms that show ?thesis
    by (auto simp: Nodeset_newReference_def Let_def ref_hier_def)
qed

lemma Nodeset_newReference_facts:
  assumes "Nodeset_newReference s nodeP attrs = Inr (s1, r)"
  shows "r = length (countedRefs s) \<and> nodeP < length (heap s) \<and>
         length (countedRefs s1) = Suc r \<and> (\<forall>q < r. countedRefs s1 ! q = countedRefs s ! q) \<and>
         isForward (countedRefs s1 ! r) = (getAttributeValue attrIsForward attrs = Some ''true'') \<and>
         alias2Id (aliasList s) (namespaceTable s) (getAttributeValue attrReferenceType attrs) =
           Inr (refType (countedRefs s1 ! r)) \<and>
         r \<in> set (hierachicalRefs (heap s1 ! nodeP)) \<union> set (nonHierachicalRefs (heap s1 ! nodeP)) \<and>
         length (heap s1) = length (heap s) \<and>
         namespaceTable s1 = namespaceTable s \<and> aliasList s1 = aliasList s"
proof -
  obtain rt where rt: "alias2Id (aliasList s) (namespaceTable s) (getAttributeValue attrReferenceType attrs) = Inr rt"
    and lt: "nodeP < length (heap s)" and r: "r = length (countedRefs s)"
    and s1: "s1 = s\<lparr>countedRefs := countedRefs s @
                 [\<lparr>isForward = (getAttributeValue attrIsForward attrs = Some ''true''), refType = rt, target = null_nodeid\<rparr>],
               heap := (heap s)[nodeP := (if ref_hier s attrs rt
                 then (heap s ! nodeP)\<lparr>hierachicalRefs := r # hierachicalRefs (heap s ! nodeP)\<rparr>
                 else (heap s ! nodeP)\<lparr>nonHierachicalRefs := r # nonHierachicalRefs (heap s ! nodeP)\<rparr>)]\<rparr>"
    using assms by (rule Nodeset_newReference_eq)
  show ?thesis
    using lt rt by (simp add: s1 r nth_append)
qed

subsection \<open>Properties of single events\<close>

text \<open>
  C19: declaring an alias whose name is not yet in the table and finishing
  it with an id text makes the alias resolve to that id: the lookup after
  the insert returns what was inserted.
\<close>

theorem alias_declared_resolves:
  assumes "getAttributeValue attrAlias attrs = Some name"
    and "AliasList_getNodeId (aliasList s) (Some name) = None"
    and "Nodeset_newAliasFinish (fst (Nodeset_newAlias s attrs)) (snd (Nodeset_newAlias s attrs)) idString = Inr s'"
  shows "alias2Id (aliasList s') (namespaceTable s') (Some name) = extractNodedId (namespaceTable s) (Some idString)"
  using alias_declare_finish [OF assms(3)] assms(1,2)
  by (auto simp: alias2Id_def AliasList_getNodeId_append)

text \<open>
  C18: the pointer \<open>Nodeset_newReference\<close> returns and the entry it links
  into the node's list are one reference: after
  \<open>Nodeset_newReferenceFinish\<close> the node holds a reference whose target is
  the parsed target text, whose type is the resolved \<open>ReferenceType\<close> and
  which is forward exactly when \<open>IsForward\<close> is the text \<open>true\<close>.
\<close>

theorem newReference_finish_shared:
  assumes "Nodeset_newReference s nodeP attrs = Inr (s1, r)"
    and "Nodeset_newReferenceFinish s1 r nodeP targetId = Inr s2"
  shows "r \<in> set (hierachicalRefs (heap s2 ! nodeP)) \<union> set (nonHierachicalRefs (heap s2 ! nodeP)) \<and>
         extractNodedId (namespaceTable s) (Some targetId) = Inr (target (countedRefs s2 ! r)) \<and>
         isForward (countedRefs s2 ! r) = (getAttributeValue attrIsForward attrs = Some ''true'') \<and>
         alias2Id (aliasList s) (namespaceTable s) (getAttributeValue attrReferenceType attrs) =
           Inr (refType (countedRefs s2 ! r))"
  using Nodeset_newReference_facts [OF assms(1)] assms(2)
  by (auto simp: Nodeset_newReferenceFinish_Inr)

subsection \<open>Classification and resolution fixed at creation\<close>

lemma builder_step_refType:
  assumes "builder_step cb s e = Inr s'" and "i < length (countedRefs s)"
  shows "i < length (countedRefs s') \<and> refType (countedRefs s' ! i) = refType (countedRefs s ! i)"
proof (cases e)
  case (EvNewReference p attrs)
  with assms obtain r where "Nodeset_newReference s p attrs = Inr (s', r)"
    by auto
  from Nodeset_newReference_facts [OF this] assms(2) show ?thesis
    by auto
next
  case (EvNewReferenceFinish r p t)
  with assms show ?thesis
    by (auto simp: Nodeset_newReferenceFinish_Inr nth_list_update)
next
  case (EvNewNodeFinish p)
  with assms show ?thesis
    by (auto simp: Nodeset_newNodeFinish_def Let_def split: if_splits)
qed (use assms in \<open>auto simp: Nodeset_newNamespace_def Nodeset_newNamespaceFinish_def Let_def
       Nodeset_newAlias_def AliasList_newAlias_def Nodeset_newAliasFinish_Inr Nodeset_newNode_def\<close>)

lemma run_events_refType:
  "run_events cb s es = Inr s' \<Longrightarrow> i < length (countedRefs s) \<Longrightarrow>
   i < length (countedRefs s') \<and> refType (countedRefs s' ! i) = refType (countedRefs s ! i)"
proof (induction es arbitrary: s)
  case (Cons e es)
  then obtain s1 where "builder_step cb s e = Inr s1" and "run_events cb s1 es = Inr s'"
    by auto
  with Cons.IH Cons.prems(2) builder_step_refType show ?case
    by metis
qed simp

text \<open>
  C23: while the document is parsed, every reference whose type lies
  outside namespace 0 is filed on the node's hierarchical list, whatever
  that type derives from: \<open>isKnownReferenceType\<close> looks for the type in the
  ReferenceType container, which is empty until the sort, so the type is
  never known and the conservative rule always applies. A user type that
  is a subtype of a non-hierarchical one is never demoted (the spec's
  final reclassification does not exist), so its references constrain
  the sort as parent edges.
\<close>

theorem reachable_user_reference_hierarchical:
  assumes "reachable cb s" and "Nodeset_newReference s p attrs = Inr (s', r)"
    and "nsIdx (refType (countedRefs s' ! r)) \<noteq> 0"
  shows "r \<in> set (hierachicalRefs (heap s' ! p))"
proof -
  obtain rt where lt: "p < length (heap s)" and r: "r = length (countedRefs s)"
    and s': "s' = s\<lparr>countedRefs := countedRefs s @
                 [\<lparr>isForward = (getAttributeValue attrIsForward attrs = Some ''true''), refType = rt, target = null_nodeid\<rparr>],
               heap := (heap s)[p := (if ref_hier s attrs rt
                 then (heap s ! p)\<lparr>hierachicalRefs := r # hierachicalRefs (heap s ! p)\<rparr>
                 else (heap s ! p)\<lparr>nonHierachicalRefs := r # nonHierachicalRefs (heap s ! p)\<rparr>)]\<rparr>"
    using assms(2) by (rule Nodeset_newReference_eq)
  have "nsIdx rt \<noteq> 0"
    using assms(3) by (simp add: s' r)
  moreover have "nodes s NODECLASS_REFERENCETYPE = []"
    using reachable_builder_inv [OF assms(1)] by (simp add: builder_inv_def containers_empty_def)
  ultimately have "ref_hier s attrs rt"
    by (simp add: ref_hier_def classifyHierachical_def isKnownReferenceType_def)
  with lt show ?thesis
    by (simp add: s')
qed

text \<open>
  C30: the type of a reference is resolved once, when the reference is
  created: if its text names no alias declared so far, the stored type is
  the text parsed as a node id, and no later event changes it, not even a
  later declaration of an alias of that name. The spec (P5, scenario 4)
  says an alias declared after its use still resolves.
\<close>

theorem reference_type_fixed_at_creation:
  assumes "getAttributeValue attrReferenceType attrs = Some t"
    and "Some t \<notin> alias_name ` set (aliasList s)"
    and "Nodeset_newReference s p attrs = Inr (s1, r)"
    and "run_events cb s1 es = Inr s2"
  shows "extractNodedId (namespaceTable s) (Some t) = Inr (refType (countedRefs s2 ! r))"
proof -
  from Nodeset_newReference_facts [OF assms(3)]
  have "alias2Id (aliasList s) (namespaceTable s) (Some t) = Inr (refType (countedRefs s1 ! r))"
    and "r < length (countedRefs s1)"
    using assms(1) by simp_all
  moreover have "refType (countedRefs s2 ! r) = refType (countedRefs s1 ! r)"
    using run_events_refType [OF assms(4) \<open>r < length (countedRefs s1)\<close>] by simp
  ultimately show ?thesis
    using alias2Id_not_alias [of "Some t" "aliasList s"] assms(2) by simp
qed

end
