(* ===== verification/Links.thy ===== *)
theory Links
  imports Events
begin

text \<open>
  The reference lists as the C code keeps them. A node holds the head
  pointers \<open>hierachicalRefs\<close> and \<open>nonHierachicalRefs\<close> (\<open>NULL\<close> when
  empty) and each \<open>Reference\<close> a \<open>next\<close> pointer; \<open>Nodeset_newReference\<close>
  pushes the new reference on the front of the chosen chain
  (\<open>Nodeset.c\<close> 594--605) and every loop over a node's references is a
  \<open>while (ref) \<dots> ref = ref->next\<close> walk (\<open>addIfHierachicalReferenceType\<close>
  646--665, and the sorter). \<open>links\<close> holds these pointers beside the list
  model of \<open>Nodeset\<close>: \<open>ref_next\<close> the \<open>next\<close> field of each entry of
  \<open>countedRefs\<close>, \<open>node_heads\<close> the two heads of each node. The walk is a
  \<open>partial_function (option)\<close>: on a cyclic chain it does not return
  (\<open>None\<close>), as the C loop would not. The theorems show that the list model
  is the abstraction of the pointer structure in every reachable state,
  so that every walk ends and visits exactly the model's list.
\<close>

record links =
  ref_next :: "nat option list"
  node_heads :: "(nat option \<times> nat option) list"

definition links_new :: links where
  "links_new = \<lparr>ref_next = [], node_heads = []\<rparr>"

text \<open>
  \<open>lastRef = node->list; node->list = newRef; newRef->next = lastRef\<close>,
  for the list the classification chose; the new reference is the entry
  \<open>countedRefs[refsSize]\<close> just appended.
\<close>

definition push_ref :: "links \<Rightarrow> nat \<Rightarrow> bool \<Rightarrow> links" where
  "push_ref L nodeP hier =
     (let p = length (ref_next L); (h, nh) = node_heads L ! nodeP in
      if hier then L\<lparr>ref_next := ref_next L @ [h], node_heads := (node_heads L)[nodeP := (Some p, nh)]\<rparr>
      else L\<lparr>ref_next := ref_next L @ [nh], node_heads := (node_heads L)[nodeP := (h, Some p)]\<rparr>)"

text \<open>
  The pointer part of each event: a new node is allocated with \<open>calloc\<close>
  (both heads \<open>NULL\<close>); a new reference is pushed as the list model's
  event decides; the other events write no list pointer.
\<close>

fun link_step :: "nodeset \<Rightarrow> links \<Rightarrow> event \<Rightarrow> links" where
  "link_step s L (EvNewNode nc attrs) = L\<lparr>node_heads := node_heads L @ [(None, None)]\<rparr>"
| "link_step s L (EvNewReference nodeP attrs) =
     (case alias2Id (aliasList s) (namespaceTable s) (getAttributeValue attrReferenceType attrs) of
        Inl e \<Rightarrow> L
      | Inr rt \<Rightarrow> push_ref L nodeP (ref_hier s attrs rt))"
| "link_step s L e = L"

partial_function (option) walk_refs :: "nat option list \<Rightarrow> nat option \<Rightarrow> nat list option" where
  "walk_refs nx h =
     (case h of
        None \<Rightarrow> Some []
      | Some p \<Rightarrow> if p < length nx then Option.bind (walk_refs nx (nx ! p)) (\<lambda>ps. Some (p # ps)) else None)"

text \<open>\<open>chain nx h ps\<close>: following \<open>next\<close> from the head \<open>h\<close> visits \<open>ps\<close> and ends in \<open>NULL\<close>.\<close>

fun chain :: "nat option list \<Rightarrow> nat option \<Rightarrow> nat list \<Rightarrow> bool" where
  "chain nx h [] \<longleftrightarrow> h = None"
| "chain nx h (p # ps) \<longleftrightarrow> h = Some p \<and> p < length nx \<and> chain nx (nx ! p) ps"

definition links_rel :: "nodeset \<Rightarrow> links \<Rightarrow> bool" where
  "links_rel s L \<longleftrightarrow>
     length (node_heads L) = length (heap s) \<and> length (ref_next L) = length (countedRefs s) \<and>
     (\<forall>q < length (heap s). chain (ref_next L) (fst (node_heads L ! q)) (hierachicalRefs (heap s ! q)) \<and>
                            chain (ref_next L) (snd (node_heads L ! q)) (nonHierachicalRefs (heap s ! q)))"

inductive reachable_linked :: "addNamespaceCb \<Rightarrow> nodeset \<Rightarrow> links \<Rightarrow> bool" for cb where
  init: "reachable_linked cb Nodeset_new links_new"
| step: "reachable_linked cb s L \<Longrightarrow> builder_step cb s e = Inr s' \<Longrightarrow> reachable_linked cb s' (link_step s L e)"

fun run_linked :: "addNamespaceCb \<Rightarrow> nodeset \<Rightarrow> links \<Rightarrow> event list \<Rightarrow> (nodeset \<times> links) result" where
  "run_linked cb s L [] = Inr (s, L)"
| "run_linked cb s L (e # es) = bindE (builder_step cb s e) (\<lambda>s'. run_linked cb s' (link_step s L e) es)"

subsection \<open>Chains\<close>

lemma chain_walk: "chain nx h ps \<Longrightarrow> walk_refs nx h = Some ps"
  by (induction ps arbitrary: h) (auto simp: walk_refs.simps)

lemma chain_append: "chain nx h ps \<Longrightarrow> chain (nx @ xs) h ps"
  by (induction ps arbitrary: h) (auto simp: nth_append)

subsection \<open>The pointer structure follows the list model\<close>

lemma links_rel_frame:
  "links_rel s L \<Longrightarrow> heap s' = heap s \<Longrightarrow> length (countedRefs s') = length (countedRefs s) \<Longrightarrow> links_rel s' L"
  by (simp add: links_rel_def)

lemma links_rel_newNode:
  assumes "links_rel s L" and "Nodeset_newNode s nc attrs = Inr (s', p)"
  shows "links_rel s' (L\<lparr>node_heads := node_heads L @ [(None, None)]\<rparr>)"
proof -
  obtain n where n: "initNode (aliasList s) (namespaceTable s) nc attrs = Inr n"
    and s': "s' = s\<lparr>heap := heap s @ [n]\<rparr>"
    using assms(2) by (auto simp: Nodeset_newNode_def)
  from n have "hierachicalRefs n = []" and "nonHierachicalRefs n = []"
    by (auto simp: initNode_Inr)
  with assms(1) show ?thesis
    by (auto simp: links_rel_def s' nth_append less_Suc_eq)
qed

lemma links_rel_push:
  assumes rel: "links_rel s L" and lt: "nodeP < length (heap s)"
    and s1: "s1 = s\<lparr>countedRefs := countedRefs s @ [x],
               heap := (heap s)[nodeP := (if hier
                 then (heap s ! nodeP)\<lparr>hierachicalRefs := length (countedRefs s) # hierachicalRefs (heap s ! nodeP)\<rparr>
                 else (heap s ! nodeP)\<lparr>nonHierachicalRefs := length (countedRefs s) # nonHierachicalRefs (heap s ! nodeP)\<rparr>)]\<rparr>"
  shows "links_rel s1 (push_ref L nodeP hier)"
proof -
  obtain h nh where hd: "node_heads L ! nodeP = (h, nh)" by fastforce
  have len: "length (ref_next L) = length (countedRefs s)" using rel by (simp add: links_rel_def)
  have c: "chain (ref_next L) h (hierachicalRefs (heap s ! nodeP))"
    "chain (ref_next L) nh (nonHierachicalRefs (heap s ! nodeP))"
    using rel lt hd by (auto simp: links_rel_def dest!: spec [of _ nodeP])
  have last: "\<And>y. (ref_next L @ [y]) ! length (countedRefs s) = y"
    using len by (metis nth_append_length)
  show ?thesis
  proof (cases hier)
    case True
    with rel lt hd len c show ?thesis
      by (auto simp: links_rel_def s1 push_ref_def nth_list_update chain_append last)
  next
    case False
    with rel lt hd len c show ?thesis
      by (auto simp: links_rel_def s1 push_ref_def nth_list_update chain_append last)
  qed
qed

lemma links_rel_step:
  assumes "links_rel s L" and "builder_step cb s e = Inr s'"
  shows "links_rel s' (link_step s L e)"
proof (cases e)
  case (EvNewNode nc attrs)
  with assms obtain p where "Nodeset_newNode s nc attrs = Inr (s', p)" by auto
  with assms(1) EvNewNode show ?thesis by (simp add: links_rel_newNode)
next
  case (EvNewReference nodeP attrs)
  with assms obtain r where "Nodeset_newReference s nodeP attrs = Inr (s', r)" by auto
  then obtain rt where rt: "alias2Id (aliasList s) (namespaceTable s) (getAttributeValue attrReferenceType attrs) = Inr rt"
    and lt: "nodeP < length (heap s)" and r: "r = length (countedRefs s)"
    and s': "s' = s\<lparr>countedRefs := countedRefs s @
                 [\<lparr>isForward = (getAttributeValue attrIsForward attrs = Some ''true''), refType = rt, target = null_nodeid\<rparr>],
               heap := (heap s)[nodeP := (if ref_hier s attrs rt
                 then (heap s ! nodeP)\<lparr>hierachicalRefs := r # hierachicalRefs (heap s ! nodeP)\<rparr>
                 else (heap s ! nodeP)\<lparr>nonHierachicalRefs := r # nonHierachicalRefs (heap s ! nodeP)\<rparr>)]\<rparr>"
    by (rule Nodeset_newReference_eq)
  have "links_rel s' (push_ref L nodeP (ref_hier s attrs rt))"
    by (rule links_rel_push [OF assms(1) lt, where hier = "ref_hier s attrs rt" and
          x = "\<lparr>isForward = (getAttributeValue attrIsForward attrs = Some ''true''), refType = rt, target = null_nodeid\<rparr>"])
       (simp add: s' r)
  with EvNewReference rt show ?thesis by simp
qed (use assms in \<open>auto intro: links_rel_frame simp: Nodeset_newNamespace_def Nodeset_newNamespaceFinish_def
       Let_def Nodeset_newAlias_def Nodeset_newAliasFinish_def Nodeset_newNodeFinish_def
       Nodeset_newReferenceFinish_def split: prod.splits if_splits\<close>)

lemma reachable_linked_rel: "reachable_linked cb s L \<Longrightarrow> reachable cb s \<and> links_rel s L"
proof (induction rule: reachable_linked.induct)
  case init
  show ?case using reachable.init by (simp add: links_rel_def links_new_def Nodeset_new_def)
next
  case (step s L e s')
  then show ?case by (blast intro: reachable.step links_rel_step)
qed

lemma run_linked_reachable:
  "reachable_linked cb s L \<Longrightarrow> run_linked cb s L es = Inr (s', L') \<Longrightarrow> reachable_linked cb s' L'"
  by (induction es arbitrary: s L) (auto intro: reachable_linked.step)

subsection \<open>Properties of the pointer structure\<close>

text \<open>
  C11: every run of the parser's events on the pointer structure is a run
  of the list model, and in every state it reaches the \<open>next\<close> chain from
  each head of each node is exactly the node's list in the model: the
  list model is an abstraction of the C linked lists.
\<close>

theorem reachable_linked_refines:
  assumes "reachable_linked cb s L"
  shows "reachable cb s \<and> length (node_heads L) = length (heap s) \<and>
         length (ref_next L) = length (countedRefs s) \<and>
         (\<forall>q < length (heap s). chain (ref_next L) (fst (node_heads L ! q)) (hierachicalRefs (heap s ! q)) \<and>
                                chain (ref_next L) (snd (node_heads L ! q)) (nonHierachicalRefs (heap s ! q)))"
  using reachable_linked_rel [OF assms] by (simp add: links_rel_def)

text \<open>
  C12: in every reachable state, the \<open>while (ref)\<close> walk over either list of
  any node ends, and visits exactly the references of the model's list,
  head first.
\<close>

theorem reachable_walk_terminates:
  assumes "reachable_linked cb s L" and "q < length (heap s)"
  shows "walk_refs (ref_next L) (fst (node_heads L ! q)) = Some (hierachicalRefs (heap s ! q)) \<and>
         walk_refs (ref_next L) (snd (node_heads L ! q)) = Some (nonHierachicalRefs (heap s ! q))"
  using reachable_linked_rel [OF assms(1)] assms(2) by (simp add: links_rel_def chain_walk)

end
