(* ===== verification/Cleanup.thy ===== *)
theory Cleanup
  imports Links
begin

text \<open>
  \<open>Nodeset_cleanup\<close> (\<open>Nodeset.c\<close> 360--389) as the list of blocks it
  releases, in order: the char arena, the alias list, every reference of
  \<open>countedRefs\<close> and the array, then, class by class in the order of the
  \<open>TNodeClass\<close> enumeration, every node pointer stored in the class's
  container and the container, and last the namespace table and the
  \<open>Nodeset\<close> itself. A node record is released only through a container,
  and the containers are filled only inside \<open>Nodeset_getSortedNodes\<close>.
  The theorems compare this with the spec's P6 (every reference and node
  record released).
\<close>

datatype release =
    FreeArena | FreeAliasList | FreeRef nat | FreeRefArray | FreeNode nat | FreeContainer tnodeclass
  | FreeNamespaces | FreeNamespaceTable | FreeNodeset

text \<open>The order of \<open>TNodeClass\<close> (\<open>nodesetLoader.h\<close>), which the cleanup loop follows.\<close>

definition nodeclass_enum :: "tnodeclass list" where
  "nodeclass_enum = [NODECLASS_OBJECT, NODECLASS_OBJECTTYPE, NODECLASS_VARIABLE, NODECLASS_DATATYPE,
                     NODECLASS_METHOD, NODECLASS_REFERENCETYPE, NODECLASS_VARIABLETYPE]"

definition Nodeset_cleanup :: "nodeset \<Rightarrow> release list" where
  "Nodeset_cleanup s =
     [FreeArena, FreeAliasList] @ map FreeRef [0..<length (countedRefs s)] @ [FreeRefArray] @
     concat (map (\<lambda>c. map FreeNode (nodes s c) @ [FreeContainer c]) nodeclass_enum) @
     [FreeNamespaces, FreeNamespaceTable, FreeNodeset]"

fun freed_nodes :: "release list \<Rightarrow> nat list" where
  "freed_nodes [] = []"
| "freed_nodes (FreeNode p # rs) = p # freed_nodes rs"
| "freed_nodes (r # rs) = freed_nodes rs"

fun freed_refs :: "release list \<Rightarrow> nat list" where
  "freed_refs [] = []"
| "freed_refs (FreeRef p # rs) = p # freed_refs rs"
| "freed_refs (r # rs) = freed_refs rs"

subsection \<open>Lemmas\<close>

lemma freed_nodes_append [simp]: "freed_nodes (xs @ ys) = freed_nodes xs @ freed_nodes ys"
  by (induction xs rule: freed_nodes.induct) auto

lemma freed_refs_append [simp]: "freed_refs (xs @ ys) = freed_refs xs @ freed_refs ys"
  by (induction xs rule: freed_refs.induct) auto

lemma freed_nodes_map [simp]: "freed_nodes (map FreeNode ps) = ps" "freed_nodes (map FreeRef ps) = []"
  by (induction ps) auto

lemma freed_refs_map [simp]: "freed_refs (map FreeRef ps) = ps" "freed_refs (map FreeNode ps) = []"
  by (induction ps) auto

lemma freed_nodes_concat [simp]: "freed_nodes (concat xss) = concat (map freed_nodes xss)"
  by (induction xss) auto

lemma freed_refs_concat [simp]: "freed_refs (concat xss) = concat (map freed_refs xss)"
  by (induction xss) auto

lemma freed_nodes_cleanup:
  "freed_nodes (Nodeset_cleanup s) = concat (map (nodes s) nodeclass_enum)"
  by (simp add: Nodeset_cleanup_def comp_def)

lemma freed_refs_cleanup: "freed_refs (Nodeset_cleanup s) = [0..<length (countedRefs s)]"
  by (simp add: Nodeset_cleanup_def comp_def)

lemma mset_filter_disj:
  "\<forall>x. \<not> (P x \<and> Q x) \<Longrightarrow> mset (filter P xs) + mset (filter Q xs) = mset (filter (\<lambda>x. P x \<or> Q x) xs)"
  by (induction xs) auto

lemma mset_concat_filter_classes:
  "distinct cs \<Longrightarrow> mset (concat (map (\<lambda>c. filter (\<lambda>x. f x = c) xs) cs)) = mset (filter (\<lambda>x. f x \<in> set cs) xs)"
proof (induction cs)
  case (Cons c cs)
  then have "mset (filter (\<lambda>x. f x = c) xs) + mset (filter (\<lambda>x. f x \<in> set cs) xs) =
             mset (filter (\<lambda>x. f x = c \<or> f x \<in> set cs) xs)"
    by (intro mset_filter_disj) auto
  with Cons show ?case by simp
qed simp

lemma nodeclass_enum_all: "distinct nodeclass_enum \<and> (\<forall>c. c \<in> set nodeclass_enum)"
  by (simp add: nodeclass_enum_def) (meson tnodeclass.exhaust)

subsection \<open>Properties of the cleanup\<close>

text \<open>
  C15: after a successful \<open>Nodeset_getSortedNodes\<close> with any sorter meeting the
  contract, \<open>Nodeset_cleanup\<close>
  releases every reference record once and exactly the finished nodes,
  each as often as it was finished (spec P6 for the nodes handed to
  \<open>Nodeset_newNodeFinish\<close>).
\<close>

theorem cleanup_after_sort_releases_each_once:
  assumes "sort_contract srt" and "reachable cb s" and "Nodeset_getSortedNodes srt s = Inr (True, s', ev)"
  shows "mset (freed_nodes (Nodeset_cleanup s')) = mset (sortNodes s) \<and>
         freed_refs (Nodeset_cleanup s') = [0..<length (countedRefs s)]"
proof -
  have ce: "containers_empty s"
    using reachable_builder_inv [OF assms(2)] by (simp add: builder_inv_def)
  obtain order where ord: "srt (heap s) (countedRefs s) (sortNodes s) = Some order"
    and s': "s' = s\<lparr>nodes := (\<lambda>c. filter (\<lambda>p. node_cls s p = c) order)\<rparr>"
    using getSortedNodes_True_run [OF ce assms(3)] by blast
  have "mset (freed_nodes (Nodeset_cleanup s')) =
        mset (concat (map (\<lambda>c. filter (\<lambda>p. node_cls s p = c) order) nodeclass_enum))"
    by (simp add: freed_nodes_cleanup s' comp_def)
  also have "\<dots> = mset order"
    using mset_concat_filter_classes [of nodeclass_enum "node_cls s" order] nodeclass_enum_all by simp
  also have "\<dots> = mset (sortNodes s)"
    using sort_contract_at(2) [OF assms(1) ord] by simp
  finally show ?thesis
    by (simp add: freed_refs_cleanup s')
qed

text \<open>
  C16: in every state the parser's events reach, and so after a
  \<open>Nodeset_getSortedNodes\<close> that failed (it leaves the state as it was),
  \<open>Nodeset_cleanup\<close> releases no node record at all: the node records are
  released only through the class containers, which only a successful
  sort fills. The spec's P6 fails for every document with a cycle.
\<close>

theorem cleanup_releases_no_node_unsorted:
  assumes "reachable cb s"
  shows "freed_nodes (Nodeset_cleanup s) = []"
  using reachable_builder_inv [OF assms] by (simp add: freed_nodes_cleanup builder_inv_def containers_empty_def)

end
