(* ===== verification/SortFifo.thy ===== *)
theory SortFifo
  imports Sort
begin

text \<open>
  The sorter as the spec's section 4.C7 describes its algorithm: within a
  phase, a queue starts with the nodes that have no parent among the
  phase's nodes, in recording order; each step emits the head of the
  queue and appends, in recording order, the waiting nodes whose last
  unemitted parent it was. \<open>Sort.c\<close> is not under \<open>src/\<close>, and the spec's
  algorithm and its tie-breaking rule ("insertion order among nodes that
  are otherwise unconstrained") describe different orders: \<open>Sort_start\<close>
  (earliest recorded ready node) follows the rule, this queue follows the
  algorithm. Both meet the sorter's contract, so every theorem of
  \<open>Emission\<close> holds whichever one \<open>Sort.c\<close> implements.
\<close>

function fifo :: "('a \<Rightarrow> 'a \<Rightarrow> bool) \<Rightarrow> 'a list \<Rightarrow> 'a list \<Rightarrow> 'a list \<Rightarrow> 'a list option" where
  "fifo E queue waiting acc =
     (case queue of
        [] \<Rightarrow> if waiting = [] then Some acc else None
      | v # q \<Rightarrow>
          fifo E (q @ filter (\<lambda>w. \<not> (\<exists>u \<in> set (q @ waiting). E u w)) waiting)
                 (filter (\<lambda>w. \<exists>u \<in> set (q @ waiting). E u w) waiting) (acc @ [v]))"
  by pat_completeness auto
termination
proof (relation "measure (\<lambda>(E, q, w, acc). length q + 2 * length w)", goal_cases)
  case (2 E queue waiting acc v q)
  let ?P = "\<lambda>w. \<exists>u \<in> set (q @ waiting). E u w"
  have "length (filter ?P waiting) + length (filter (\<lambda>w. \<not> ?P w) waiting) = length waiting"
    by (rule sum_length_filter_compl)
  with 2 show ?case by simp
qed simp

declare fifo.simps [simp del]

definition fifo_sort :: "('a \<Rightarrow> 'a \<Rightarrow> bool) \<Rightarrow> 'a list \<Rightarrow> 'a list option" where
  "fifo_sort E xs =
     fifo E (filter (\<lambda>w. \<not> (\<exists>u \<in> set xs. E u w)) xs) (filter (\<lambda>w. \<exists>u \<in> set xs. E u w) xs) []"

definition Sort_start_fifo :: sorter where
  "Sort_start_fifo heap refs sortNodes =
     sort_phases fifo_sort (hierEdge heap refs) (\<lambda>p. nodeClass (heap ! p)) phases sortNodes"

subsection \<open>The queue loop\<close>

lemma fifo_Nil: "fifo E [] w acc = (if w = [] then Some acc else None)"
  by (simp add: fifo.simps)

lemma fifo_Cons:
  "fifo E (v # q) w acc =
     fifo E (q @ filter (\<lambda>x. \<not> (\<exists>u \<in> set (q @ w). E u x)) w) (filter (\<lambda>x. \<exists>u \<in> set (q @ w). E u x) w)
            (acc @ [v])"
  by (simp add: fifo.simps)

lemma fifo_mset:
  "fifo E q w acc = Some out \<Longrightarrow> mset out = mset acc + mset q + mset w"
proof (induction E q w acc rule: fifo.induct)
  case (1 E queue waiting acc)
  show ?case
  proof (cases queue)
    case Nil
    with "1.prems" show ?thesis by (simp add: fifo_Nil split: if_splits)
  next
    case (Cons v q)
    with "1.prems" "1.IH" [OF Cons] show ?thesis
      by (simp add: fifo_Cons add_ac)
  qed
qed

lemma fifo_sorted:
  "fifo E q w acc = Some out \<Longrightarrow> sorted_wrt (\<lambda>a b. \<not> E b a) acc \<Longrightarrow>
   \<forall>x \<in> set q. \<forall>u \<in> set q \<union> set w. \<not> E u x \<Longrightarrow>
   \<forall>a \<in> set acc. \<forall>u \<in> set q \<union> set w. \<not> E u a \<Longrightarrow> sorted_wrt (\<lambda>a b. \<not> E b a) out"
proof (induction E q w acc rule: fifo.induct)
  case (1 E queue waiting acc)
  show ?case
  proof (cases queue)
    case Nil
    with "1.prems" show ?thesis by (simp add: fifo_Nil split: if_splits)
  next
    case (Cons v q)
    let ?P = "\<lambda>x. \<exists>u \<in> set (q @ waiting). E u x"
    have sub: "set (q @ filter (\<lambda>x. \<not> ?P x) waiting) \<union> set (filter ?P waiting) = set q \<union> set waiting"
      by auto
    show ?thesis
    proof (rule "1.IH" [OF Cons])
      show "fifo E (q @ filter (\<lambda>x. \<not> ?P x) waiting) (filter ?P waiting) (acc @ [v]) = Some out"
        using "1.prems"(1) Cons by (simp add: fifo_Cons)
      show "sorted_wrt (\<lambda>a b. \<not> E b a) (acc @ [v])"
        using "1.prems"(2,4) Cons by (simp add: sorted_wrt_append)
      show "\<forall>x \<in> set (q @ filter (\<lambda>x. \<not> ?P x) waiting). \<forall>u \<in> set (q @ filter (\<lambda>x. \<not> ?P x) waiting) \<union>
              set (filter ?P waiting). \<not> E u x"
        using "1.prems"(3) Cons by (simp only: sub) auto
      show "\<forall>a \<in> set (acc @ [v]). \<forall>u \<in> set (q @ filter (\<lambda>x. \<not> ?P x) waiting) \<union> set (filter ?P waiting). \<not> E u a"
        using "1.prems"(3,4) Cons by (simp only: sub) auto
    qed
  qed
qed

lemma fifo_None_cycle:
  "fifo E q w acc = None \<Longrightarrow> \<forall>x \<in> set w. \<exists>u \<in> set q \<union> set w. E u x \<Longrightarrow>
   \<exists>S \<subseteq> set q \<union> set w. S \<noteq> {} \<and> (\<forall>v \<in> S. \<exists>u \<in> S. E u v)"
proof (induction E q w acc rule: fifo.induct)
  case (1 E queue waiting acc)
  show ?case
  proof (cases queue)
    case Nil
    with "1.prems" have "waiting \<noteq> []" by (simp add: fifo_Nil split: if_splits)
    with "1.prems"(2) Nil show ?thesis
      by (intro exI [of _ "set waiting"]) auto
  next
    case (Cons v q)
    let ?P = "\<lambda>x. \<exists>u \<in> set (q @ waiting). E u x"
    have sub: "set (q @ filter (\<lambda>x. \<not> ?P x) waiting) \<union> set (filter ?P waiting) = set q \<union> set waiting"
      by auto
    have "\<exists>S \<subseteq> set (q @ filter (\<lambda>x. \<not> ?P x) waiting) \<union> set (filter ?P waiting). S \<noteq> {} \<and> (\<forall>v \<in> S. \<exists>u \<in> S. E u v)"
    proof (rule "1.IH" [OF Cons])
      show "fifo E (q @ filter (\<lambda>x. \<not> ?P x) waiting) (filter ?P waiting) (acc @ [v]) = None"
        using "1.prems"(1) Cons by (simp add: fifo_Cons)
      show "\<forall>x \<in> set (filter ?P waiting). \<exists>u \<in> set (q @ filter (\<lambda>x. \<not> ?P x) waiting) \<union> set (filter ?P waiting). E u x"
        by (simp only: sub) auto
    qed
    with Cons show ?thesis
      by (simp only: sub) auto
  qed
qed

lemma cycle_fifo_None:
  "S \<subseteq> set w \<Longrightarrow> S \<noteq> {} \<Longrightarrow> \<forall>v \<in> S. \<exists>u \<in> S. E u v \<Longrightarrow> fifo E q w acc = None"
proof (induction E q w acc rule: fifo.induct)
  case (1 E queue waiting acc)
  show ?case
  proof (cases queue)
    case Nil
    with "1.prems"(1,2) show ?thesis by (auto simp: fifo_Nil)
  next
    case (Cons v q)
    let ?P = "\<lambda>x. \<exists>u \<in> set (q @ waiting). E u x"
    have "S \<subseteq> set (filter ?P waiting)"
      using "1.prems"(1,3) by fastforce
    from "1.IH" [OF Cons this "1.prems"(2,3)] Cons show ?thesis
      by (simp add: fifo_Cons)
  qed
qed

subsection \<open>The queue sorter meets the contracts\<close>

lemma fifo_sort_ok: "phase_sorter_ok fifo_sort"
  unfolding phase_sorter_ok_def fifo_sort_def
proof (intro conjI allI impI)
  fix E :: "'a \<Rightarrow> 'a \<Rightarrow> bool" and xs ys
  let ?q = "filter (\<lambda>w. \<not> (\<exists>u \<in> set xs. E u w)) xs" and ?w = "filter (\<lambda>w. \<exists>u \<in> set xs. E u w) xs"
  have sub: "set ?q \<union> set ?w = set xs" by auto
  assume f: "fifo E ?q ?w [] = Some ys"
  show "mset ys = mset xs"
    using fifo_mset [OF f] mset_filter_split [of "\<lambda>w. \<not> (\<exists>u \<in> set xs. E u w)" xs] by (simp add: add.commute)
  show "sorted_wrt (\<lambda>a b. \<not> E b a) ys"
    by (rule fifo_sorted [OF f]) (simp_all only: sub, auto)
next
  fix E :: "'a \<Rightarrow> 'a \<Rightarrow> bool" and xs
  let ?q = "filter (\<lambda>w. \<not> (\<exists>u \<in> set xs. E u w)) xs" and ?w = "filter (\<lambda>w. \<exists>u \<in> set xs. E u w) xs"
  have sub: "set ?q \<union> set ?w = set xs" by auto
  show "fifo E ?q ?w [] = None \<longleftrightarrow> (\<exists>S \<subseteq> set xs. S \<noteq> {} \<and> (\<forall>v \<in> S. \<exists>u \<in> S. E u v))"
  proof
    assume "fifo E ?q ?w [] = None"
    from fifo_None_cycle [OF this] sub show "\<exists>S \<subseteq> set xs. S \<noteq> {} \<and> (\<forall>v \<in> S. \<exists>u \<in> S. E u v)"
      by auto
  next
    assume "\<exists>S \<subseteq> set xs. S \<noteq> {} \<and> (\<forall>v \<in> S. \<exists>u \<in> S. E u v)"
    then obtain S where "S \<subseteq> set xs" "S \<noteq> {}" "\<forall>v \<in> S. \<exists>u \<in> S. E u v" by blast
    moreover from this have "S \<subseteq> set ?w" by fastforce
    ultimately show "fifo E ?q ?w [] = None"
      by (intro cycle_fifo_None) auto
  qed
qed

lemma Sort_start_fifo_meets_contract: "sort_contract Sort_start_fifo"
  using sort_phases_contract [OF fifo_sort_ok] by (simp add: Sort_start_fifo_def [abs_def])

lemmas fifo_eval = fifo_Nil fifo_Cons fifo_sort_def Sort_start_fifo_def

end
