(* ===== verification/Arena.thy ===== *)
theory Arena
  imports Attributes
begin

text \<open>
  The char arena and the copies \<open>getAttributeValue\<close> makes into it,
  \<open>Nodeset.c\<close> 403--422 and the calls of \<open>extractAttributes\<close> 424--499.
  \<open>CharArenaAllocator\<close> is not under \<open>src/\<close>: it is modelled from the
  spec (4.C1) as a bump allocator over one growing buffer whose fresh
  bytes are zero (its blocks come from \<open>calloc\<close>); an allocation is the
  offset of its first byte. A \<open>char *\<close> is a \<open>cptr\<close>: \<open>NULL\<close>, a string
  literal (the attribute defaults) or an offset into the arena, read as a
  C string by \<open>cstring_at\<close> (the characters up to the first NUL; no NUL
  before the end of the buffer is a read past the allocation).
  \<open>getAttributeValue\<close> allocates \<open>size + 1\<close> bytes and copies \<open>size\<close>:
  the terminator is the zero the arena handed out. The theorems show
  that every pointer it returns reads back the value the string-valued
  model of \<open>Attributes\<close> uses, and that later copies never overwrite an
  earlier one, so the model's strings-by-value are a sound abstraction.
\<close>

record charArena =
  arena_mem :: "char list"

datatype cptr = CNull | CStatic string | CArena nat

definition CharArenaAllocator_new :: charArena where
  "CharArenaAllocator_new = \<lparr>arena_mem = []\<rparr>"

definition CharArenaAllocator_malloc :: "charArena \<Rightarrow> nat \<Rightarrow> charArena \<times> nat" where
  "CharArenaAllocator_malloc a n =
     (a\<lparr>arena_mem := arena_mem a @ replicate n (CHR 0x00)\<rparr>, length (arena_mem a))"

text \<open>\<open>memcpy(dst, src, size)\<close> on the arena buffer; a write past its end is an error.\<close>

definition memcpy :: "char list \<Rightarrow> nat \<Rightarrow> string \<Rightarrow> char list result" where
  "memcpy mem dst src =
     (if dst + length src \<le> length mem
      then Inr (take dst mem @ src @ drop (dst + length src) mem)
      else Inl (IndexOutOfBounds ''memcpy''))"

definition cstring_at :: "char list \<Rightarrow> nat \<Rightarrow> string option" where
  "cstring_at mem p =
     (let r = drop p mem in
      if CHR 0x00 \<in> set r then Some (takeWhile (\<lambda>c. c \<noteq> CHR 0x00) r) else None)"

fun deref :: "char list \<Rightarrow> cptr \<Rightarrow> string option result" where
  "deref mem CNull = Inr None"
| "deref mem (CStatic s) = Inr (Some s)"
| "deref mem (CArena p) =
     (case cstring_at mem p of None \<Rightarrow> Inl (IndexOutOfBounds ''arena'') | Some s \<Rightarrow> Inr (Some s))"

text \<open>
  \<open>getAttributeValue\<close> as the C code runs it: the first attribute with
  the wanted local name is copied into a fresh arena block of
  \<open>value_end - value_start + 1\<close> bytes; otherwise the default literal (or
  \<open>NULL\<close>) is returned without touching the arena.
\<close>

fun getAttributeValue_arena ::
  "charArena \<Rightarrow> nodeAttribute \<Rightarrow> xmlAttribute list \<Rightarrow> (charArena \<times> cptr) result" where
  "getAttributeValue_arena a attr [] =
     Inr (a, case attr_defaultValue attr of None \<Rightarrow> CNull | Some d \<Rightarrow> CStatic d)"
| "getAttributeValue_arena a attr (x # xs) =
     (if xa_localname x = attr_name attr
      then (let size = length (xa_value x);
                (a', value) = CharArenaAllocator_malloc a (size + 1)
            in bindE (memcpy (arena_mem a') value (xa_value x)) (\<lambda>m.
                 Inr (a'\<lparr>arena_mem := m\<rparr>, CArena value)))
      else getAttributeValue_arena a attr xs)"

text \<open>A run of \<open>getAttributeValue\<close> calls on one attribute array, in order.\<close>

fun getAttributeValues_arena ::
  "charArena \<Rightarrow> nodeAttribute list \<Rightarrow> xmlAttribute list \<Rightarrow> (charArena \<times> cptr list) result" where
  "getAttributeValues_arena a [] xs = Inr (a, [])"
| "getAttributeValues_arena a (attr # attrs) xs =
     bindE (getAttributeValue_arena a attr xs) (\<lambda>(a', p).
     bindE (getAttributeValues_arena a' attrs xs) (\<lambda>(a'', ps). Inr (a'', p # ps)))"

text \<open>The attributes \<open>extractAttributes\<close> reads, in the order of its calls.\<close>

fun class_attrs :: "tnodeclass \<Rightarrow> nodeAttribute list" where
  "class_attrs NODECLASS_OBJECTTYPE = [attrIsAbstract]"
| "class_attrs NODECLASS_OBJECT = [attrParentNodeId, attrEventNotifier]"
| "class_attrs NODECLASS_VARIABLE =
     [attrParentNodeId, attrDataType, attrValueRank, attrArrayDimensions, attrAccessLevel,
      attrUserAccessLevel]"
| "class_attrs NODECLASS_VARIABLETYPE =
     [attrValueRank, attrDataType, attrArrayDimensions, attrIsAbstract]"
| "class_attrs NODECLASS_DATATYPE = []"
| "class_attrs NODECLASS_METHOD = [attrParentNodeId, attrExecutable, attrUserExecutable]"
| "class_attrs NODECLASS_REFERENCETYPE = [attrSymmetric]"

definition extractAttributes_arena ::
  "charArena \<Rightarrow> tnodeclass \<Rightarrow> xmlAttribute list \<Rightarrow> (charArena \<times> cptr list) result" where
  "extractAttributes_arena a nc xs =
     getAttributeValues_arena a ([attrNodeId, attrBrowseName] @ class_attrs nc) xs"

definition nul_free :: "xmlAttribute list \<Rightarrow> bool" where
  "nul_free xs \<longleftrightarrow> (\<forall>x \<in> set xs. CHR 0x00 \<notin> set (xa_value x))"

definition arena_need :: "nodeAttribute list \<Rightarrow> xmlAttribute list \<Rightarrow> nat" where
  "arena_need attrs xs =
     (\<Sum>attr \<leftarrow> attrs. case find (\<lambda>x. xa_localname x = attr_name attr) xs of
                         None \<Rightarrow> 0 | Some x \<Rightarrow> length (xa_value x) + 1)"

text \<open>An attribute array of a Variable element, for the witnesses.\<close>

definition arena_example :: "xmlAttribute list" where
  "arena_example =
     [\<lparr>xa_localname = ''NodeId'', xa_prefix = None, xa_uri = None, xa_value = ''ns=1;i=5''\<rparr>,
      \<lparr>xa_localname = ''BrowseName'', xa_prefix = None, xa_uri = None, xa_value = ''1:x''\<rparr>,
      \<lparr>xa_localname = ''DataType'', xa_prefix = None, xa_uri = None, xa_value = ''Double''\<rparr>]"

subsection \<open>C strings in a growing buffer\<close>

lemma cstring_at_append:
  assumes "cstring_at mem p = Some s"
  shows "cstring_at (mem @ t) p = Some s"
proof -
  from assms have nul: "CHR 0x00 \<in> set (drop p mem)"
    and s: "s = takeWhile (\<lambda>c. c \<noteq> CHR 0x00) (drop p mem)"
    by (auto simp: cstring_at_def Let_def split: if_splits)
  have "drop p (mem @ t) = drop p mem @ drop (p - length mem) t"
    by simp
  with nul s show ?thesis
    by (simp add: cstring_at_def takeWhile_append1[OF nul])
qed

lemma deref_append:
  assumes "deref mem p = Inr v"
  shows "deref (mem @ t) p = Inr v"
proof (cases p)
  case (CArena q)
  with assms obtain s where "cstring_at mem q = Some s" and "v = Some s"
    by (auto split: option.splits)
  with CArena show ?thesis
    by (simp add: cstring_at_append)
qed (use assms in auto)

lemma cstring_at_copy:
  "CHR 0x00 \<notin> set v \<Longrightarrow> cstring_at (mem @ v @ CHR 0x00 # t) (length mem) = Some v"
  by (simp add: cstring_at_def) (subst takeWhile_append2; auto)

lemma memcpy_fresh:
  "memcpy (mem @ CHR 0x00 # replicate (length v) (CHR 0x00)) (length mem) v =
   Inr (mem @ v @ [CHR 0x00])"
  by (simp add: memcpy_def replicate_append_same [symmetric])

lemma getAttributeValue_arena_closed:
  "getAttributeValue_arena a attr xs =
     (case find (\<lambda>x. xa_localname x = attr_name attr) xs of
        None \<Rightarrow> Inr (a, case attr_defaultValue attr of None \<Rightarrow> CNull | Some d \<Rightarrow> CStatic d)
      | Some x \<Rightarrow> Inr (a\<lparr>arena_mem := arena_mem a @ xa_value x @ [CHR 0x00]\<rparr>,
                        CArena (length (arena_mem a))))"
  by (induction xs) (simp_all add: CharArenaAllocator_malloc_def memcpy_fresh Let_def)

lemma getAttributeValue_find:
  "getAttributeValue attr xs =
     (case find (\<lambda>x. xa_localname x = attr_name attr) xs of
        None \<Rightarrow> attr_defaultValue attr | Some x \<Rightarrow> Some (xa_value x))"
  by (induction xs) simp_all

lemma find_nul_free:
  "nul_free xs \<Longrightarrow> find P xs = Some x \<Longrightarrow> CHR 0x00 \<notin> set (xa_value x)"
  unfolding nul_free_def by (auto dest: find_Some_in_set)

lemma getAttributeValue_arena_reads:
  assumes "nul_free xs"
  shows "\<exists>a' p t. getAttributeValue_arena a attr xs = Inr (a', p) \<and>
           arena_mem a' = arena_mem a @ t \<and> deref (arena_mem a') p = Inr (getAttributeValue attr xs)"
proof (cases "find (\<lambda>x. xa_localname x = attr_name attr) xs")
  case None
  then show ?thesis
    by (simp add: getAttributeValue_arena_closed getAttributeValue_find split: option.split)
next
  case (Some x)
  with assms have "CHR 0x00 \<notin> set (xa_value x)"
    by (rule find_nul_free)
  with Some show ?thesis
    by (simp add: getAttributeValue_arena_closed getAttributeValue_find cstring_at_copy)
qed

lemma getAttributeValues_arena_reads:
  assumes "nul_free xs"
  shows "\<exists>a' ps t. getAttributeValues_arena a attrs xs = Inr (a', ps) \<and>
           arena_mem a' = arena_mem a @ t \<and>
           list_all2 (\<lambda>attr p. deref (arena_mem a') p = Inr (getAttributeValue attr xs)) attrs ps"
proof (induction attrs arbitrary: a)
  case Nil
  then show ?case by simp
next
  case (Cons attr attrs)
  obtain a1 p t1 where first: "getAttributeValue_arena a attr xs = Inr (a1, p)"
    and grow1: "arena_mem a1 = arena_mem a @ t1"
    and read1: "deref (arena_mem a1) p = Inr (getAttributeValue attr xs)"
    using getAttributeValue_arena_reads [OF assms] by blast
  obtain a' ps t2 where rest: "getAttributeValues_arena a1 attrs xs = Inr (a', ps)"
    and grow2: "arena_mem a' = arena_mem a1 @ t2"
    and reads: "list_all2 (\<lambda>attr p. deref (arena_mem a') p = Inr (getAttributeValue attr xs)) attrs ps"
    using Cons.IH by blast
  have "deref (arena_mem a') p = Inr (getAttributeValue attr xs)"
    using read1 grow2 by (simp add: deref_append)
  with first rest grow1 grow2 reads show ?case
    by simp
qed

subsection \<open>Properties of the arena copies\<close>

text \<open>
  C20: for any attribute array whose values contain no NUL character (XML
  forbids it), the \<open>getAttributeValue\<close> calls of \<open>extractAttributes\<close>
  succeed, only append to the arena, and every pointer they return still
  reads, at the end of the run, as exactly the value of the string-valued
  \<open>getAttributeValue\<close>: a later copy never overwrites an earlier string
  and each copy is terminated although only \<open>size\<close> bytes are copied.
\<close>

theorem extractAttributes_arena_reads_back:
  assumes "nul_free xs"
  shows "\<exists>a' ps t. extractAttributes_arena a nc xs = Inr (a', ps) \<and>
           arena_mem a' = arena_mem a @ t \<and>
           list_all2 (\<lambda>attr p. deref (arena_mem a') p = Inr (getAttributeValue attr xs))
             ([attrNodeId, attrBrowseName] @ class_attrs nc) ps"
  unfolding extractAttributes_arena_def by (rule getAttributeValues_arena_reads [OF assms])

text \<open>
  C28: any run of \<open>getAttributeValue\<close> calls never writes past an arena
  block (the \<open>memcpy\<close> stays inside the \<open>size + 1\<close> bytes allocated),
  returns one pointer per call, and grows the arena by exactly
  \<open>arena_need\<close>: the length of each value found plus its terminator;
  defaults take no arena space.
\<close>

theorem getAttributeValues_arena_bounds:
  "\<exists>a' ps. getAttributeValues_arena a attrs xs = Inr (a', ps) \<and> length ps = length attrs \<and>
     length (arena_mem a') = length (arena_mem a) + arena_need attrs xs"
proof (induction attrs arbitrary: a)
  case Nil
  then show ?case by (simp add: arena_need_def)
next
  case (Cons attr attrs)
  show ?case
  proof (cases "find (\<lambda>x. xa_localname x = attr_name attr) xs")
    case None
    from Cons.IH [of a] obtain a' ps where "getAttributeValues_arena a attrs xs = Inr (a', ps)"
      and "length ps = length attrs"
      and "length (arena_mem a') = length (arena_mem a) + arena_need attrs xs"
      by blast
    with None show ?thesis
      by (simp add: getAttributeValue_arena_closed arena_need_def)
  next
    case (Some x)
    let ?a1 = "a\<lparr>arena_mem := arena_mem a @ xa_value x @ [CHR 0x00]\<rparr>"
    from Cons.IH [of ?a1] obtain a' ps where "getAttributeValues_arena ?a1 attrs xs = Inr (a', ps)"
      and "length ps = length attrs"
      and "length (arena_mem a') = length (arena_mem ?a1) + arena_need attrs xs"
      by blast
    with Some show ?thesis
      by (simp add: getAttributeValue_arena_closed arena_need_def)
  qed
qed

lemma extractAttributes_arena_reads_back_witness:
  "nul_free arena_example \<and>
   (\<exists>a' ps t. extractAttributes_arena CharArenaAllocator_new NODECLASS_VARIABLE arena_example = Inr (a', ps) \<and>
      arena_mem a' = arena_mem CharArenaAllocator_new @ t \<and>
      list_all2 (\<lambda>attr p. deref (arena_mem a') p = Inr (getAttributeValue attr arena_example))
        ([attrNodeId, attrBrowseName] @ class_attrs NODECLASS_VARIABLE) ps)"
  using extractAttributes_arena_reads_back [of arena_example CharArenaAllocator_new NODECLASS_VARIABLE]
  by (simp add: nul_free_def arena_example_def)

end
