(* ===== verification/Parser.thy ===== *)
theory Parser
  imports Events
begin

text \<open>
  The SAX driver that calls the builder. \<open>nodeset.h\<close> declares its state
  (\<open>TParserState\<close>, \<open>TParserCtx\<close>, 112--130) and the element names it
  recognises (28--40); the driver itself (\<open>NodesetLoader.c\<close>) is not under
  \<open>src/\<close>, and its transitions are modelled from the spec's event surface
  (sections 4.C8 and 6): a node element opens a node with
  \<open>Nodeset_newNode\<close> and its end tag finishes it, a \<open>Reference\<close> inside
  \<open>References\<close> is created on its start tag and finished with its text on
  its end tag, likewise an \<open>Alias\<close> and a namespace \<open>Uri\<close>; an element the
  state does not expect is skipped with all its children. \<open>TParserCtx\<close> is
  kept with the fields the header gives it (\<open>nextOnCharacters\<close>, the
  \<open>char **\<close> that receives character data, is whether text is being
  collected); the rest of the driver's state (the open reference and
  alias, the collected text, the depth of a skipped element) is the record
  \<open>sax_driver\<close>. Nothing in \<open>Nodeset.c\<close> reads a node's display name or
  description, so the text of those elements is collected and dropped.
  The theorems show that every run of the driver is a run of the builder
  (so the lemmas about \<open>Builder.reachable\<close> apply to documents), that
  the pointers the driver keeps between a start tag and its end tag are
  always valid, and that a complete document has every node finished once.
\<close>

datatype TParserState =
    PARSER_STATE_INIT | PARSER_STATE_NODE | PARSER_STATE_DISPLAYNAME | PARSER_STATE_REFERENCES
  | PARSER_STATE_REFERENCE | PARSER_STATE_DESCRIPTION | PARSER_STATE_ALIAS | PARSER_STATE_UNKNOWN
  | PARSER_STATE_NAMESPACEURIS | PARSER_STATE_URI

record TParserCtx =
  ctx_state :: TParserState
  ctx_nodeClass :: tnodeclass
  ctx_node :: nat
  ctx_nextOnCharacters :: bool

record sax_driver =
  pctx :: TParserCtx
  ctx_ref :: nat
  ctx_alias :: nat
  ctx_text :: string
  unknown_depth :: nat
  prev_state :: TParserState

datatype sax_event = StartElement string "xmlAttribute list" | EndElement | Characters string

text \<open>The node elements, by the names \<open>nodeset.h\<close> defines (and \<open>UAVariableType\<close>, which it does not).\<close>

definition node_element :: "string \<Rightarrow> tnodeclass option" where
  "node_element name =
     (if name = ''UAObject'' then Some NODECLASS_OBJECT
      else if name = ''UAMethod'' then Some NODECLASS_METHOD
      else if name = ''UAObjectType'' then Some NODECLASS_OBJECTTYPE
      else if name = ''UAVariable'' then Some NODECLASS_VARIABLE
      else if name = ''UADataType'' then Some NODECLASS_DATATYPE
      else if name = ''UAReferenceType'' then Some NODECLASS_REFERENCETYPE
      else if name = ''UAVariableType'' then Some NODECLASS_VARIABLETYPE
      else None)"

text \<open>The states whose element text is wanted: \<open>nextOnCharacters\<close> is set there.\<close>

fun collects :: "TParserState \<Rightarrow> bool" where
  "collects PARSER_STATE_DISPLAYNAME = True"
| "collects PARSER_STATE_DESCRIPTION = True"
| "collects PARSER_STATE_REFERENCE = True"
| "collects PARSER_STATE_ALIAS = True"
| "collects PARSER_STATE_URI = True"
| "collects _ = False"

definition enter :: "TParserState \<Rightarrow> sax_driver \<Rightarrow> sax_driver" where
  "enter st d = d\<lparr>pctx := (pctx d)\<lparr>ctx_state := st, ctx_nextOnCharacters := collects st\<rparr>\<rparr>"

definition skip_unknown :: "sax_driver \<Rightarrow> sax_driver" where
  "skip_unknown d =
     (enter PARSER_STATE_UNKNOWN d)\<lparr>prev_state := ctx_state (pctx d), unknown_depth := 1\<rparr>"

definition driver_new :: sax_driver where
  "driver_new =
     \<lparr>pctx = \<lparr>ctx_state = PARSER_STATE_INIT, ctx_nodeClass = NODECLASS_OBJECT, ctx_node = 0,
              ctx_nextOnCharacters = False\<rparr>,
      ctx_ref = 0, ctx_alias = 0, ctx_text = [], unknown_depth = 0, prev_state = PARSER_STATE_INIT\<rparr>"

definition onStartElement ::
  "sax_driver \<Rightarrow> nodeset \<Rightarrow> string \<Rightarrow> xmlAttribute list \<Rightarrow> (sax_driver \<times> nodeset) result" where
  "onStartElement d s name attrs =
     (case ctx_state (pctx d) of
        PARSER_STATE_INIT \<Rightarrow>
          (case node_element name of
             Some nc \<Rightarrow>
               bindE (Nodeset_newNode s nc attrs) (\<lambda>(s', p).
                 Inr (d\<lparr>pctx := \<lparr>ctx_state = PARSER_STATE_NODE, ctx_nodeClass = nc, ctx_node = p,
                                  ctx_nextOnCharacters = False\<rparr>\<rparr>, s'))
           | None \<Rightarrow>
               if name = ''Alias'' then
                 (let (s', a) = Nodeset_newAlias s attrs
                  in Inr ((enter PARSER_STATE_ALIAS d)\<lparr>ctx_alias := a, ctx_text := []\<rparr>, s'))
               else if name = ''NamespaceUris'' then Inr (enter PARSER_STATE_NAMESPACEURIS d, s)
               else Inr (d, s))
      | PARSER_STATE_NAMESPACEURIS \<Rightarrow>
          if name = ''Uri''
          then Inr ((enter PARSER_STATE_URI d)\<lparr>ctx_text := []\<rparr>, fst (Nodeset_newNamespace s))
          else Inr (skip_unknown d, s)
      | PARSER_STATE_NODE \<Rightarrow>
          if name = ''DisplayName'' then Inr ((enter PARSER_STATE_DISPLAYNAME d)\<lparr>ctx_text := []\<rparr>, s)
          else if name = ''References'' then Inr (enter PARSER_STATE_REFERENCES d, s)
          else if name = ''Description'' then Inr ((enter PARSER_STATE_DESCRIPTION d)\<lparr>ctx_text := []\<rparr>, s)
          else Inr (skip_unknown d, s)
      | PARSER_STATE_REFERENCES \<Rightarrow>
          if name = ''Reference'' then
            bindE (Nodeset_newReference s (ctx_node (pctx d)) attrs) (\<lambda>(s', r).
              Inr ((enter PARSER_STATE_REFERENCE d)\<lparr>ctx_ref := r, ctx_text := []\<rparr>, s'))
          else Inr (skip_unknown d, s)
      | PARSER_STATE_UNKNOWN \<Rightarrow> Inr (d\<lparr>unknown_depth := unknown_depth d + 1\<rparr>, s)
      | _ \<Rightarrow> Inr (skip_unknown d, s))"

definition onEndElement ::
  "addNamespaceCb \<Rightarrow> sax_driver \<Rightarrow> nodeset \<Rightarrow> (sax_driver \<times> nodeset) result" where
  "onEndElement cb d s =
     (case ctx_state (pctx d) of
        PARSER_STATE_NODE \<Rightarrow>
          bindE (Nodeset_newNodeFinish s (ctx_node (pctx d))) (\<lambda>s'. Inr (enter PARSER_STATE_INIT d, s'))
      | PARSER_STATE_DISPLAYNAME \<Rightarrow> Inr (enter PARSER_STATE_NODE d, s)
      | PARSER_STATE_DESCRIPTION \<Rightarrow> Inr (enter PARSER_STATE_NODE d, s)
      | PARSER_STATE_REFERENCES \<Rightarrow> Inr (enter PARSER_STATE_NODE d, s)
      | PARSER_STATE_REFERENCE \<Rightarrow>
          bindE (Nodeset_newReferenceFinish s (ctx_ref d) (ctx_node (pctx d)) (ctx_text d)) (\<lambda>s'.
            Inr (enter PARSER_STATE_REFERENCES d, s'))
      | PARSER_STATE_ALIAS \<Rightarrow>
          bindE (Nodeset_newAliasFinish s (ctx_alias d) (ctx_text d)) (\<lambda>s'.
            Inr (enter PARSER_STATE_INIT d, s'))
      | PARSER_STATE_URI \<Rightarrow>
          Inr (enter PARSER_STATE_NAMESPACEURIS d, Nodeset_newNamespaceFinish cb s (ctx_text d))
      | PARSER_STATE_NAMESPACEURIS \<Rightarrow> Inr (enter PARSER_STATE_INIT d, s)
      | PARSER_STATE_UNKNOWN \<Rightarrow>
          if unknown_depth d \<le> 1 then Inr ((enter (prev_state d) d)\<lparr>unknown_depth := 0\<rparr>, s)
          else Inr (d\<lparr>unknown_depth := unknown_depth d - 1\<rparr>, s)
      | PARSER_STATE_INIT \<Rightarrow> Inr (d, s))"

definition onCharacters :: "sax_driver \<Rightarrow> string \<Rightarrow> sax_driver" where
  "onCharacters d chars =
     (if ctx_nextOnCharacters (pctx d) then d\<lparr>ctx_text := ctx_text d @ chars\<rparr> else d)"

fun driver_step ::
  "addNamespaceCb \<Rightarrow> sax_driver \<times> nodeset \<Rightarrow> sax_event \<Rightarrow> (sax_driver \<times> nodeset) result" where
  "driver_step cb (d, s) (StartElement name attrs) = onStartElement d s name attrs"
| "driver_step cb (d, s) EndElement = onEndElement cb d s"
| "driver_step cb (d, s) (Characters chars) = Inr (onCharacters d chars, s)"

fun run_sax ::
  "addNamespaceCb \<Rightarrow> sax_driver \<times> nodeset \<Rightarrow> sax_event list \<Rightarrow> (sax_driver \<times> nodeset) result" where
  "run_sax cb ds [] = Inr ds"
| "run_sax cb ds (e # es) = bindE (driver_step cb ds e) (\<lambda>ds'. run_sax cb ds' es)"

inductive driver_reachable :: "addNamespaceCb \<Rightarrow> sax_driver \<times> nodeset \<Rightarrow> bool" for cb where
  init: "driver_reachable cb (driver_new, Nodeset_new)"
| step: "driver_reachable cb ds \<Longrightarrow> driver_step cb ds e = Inr ds' \<Longrightarrow> driver_reachable cb ds'"

fun node_open :: "TParserState \<Rightarrow> bool" where
  "node_open PARSER_STATE_NODE = True"
| "node_open PARSER_STATE_DISPLAYNAME = True"
| "node_open PARSER_STATE_DESCRIPTION = True"
| "node_open PARSER_STATE_REFERENCES = True"
| "node_open PARSER_STATE_REFERENCE = True"
| "node_open _ = False"

text \<open>The element the driver is in, looking through a skipped one.\<close>

definition open_state :: "sax_driver \<Rightarrow> TParserState" where
  "open_state d =
     (if ctx_state (pctx d) = PARSER_STATE_UNKNOWN then prev_state d else ctx_state (pctx d))"

text \<open>
  The driver invariant: a skipped element has a positive depth and
  remembers a real state; while a node element is open, its node is the
  last one created, it has the class the driver recorded, and every
  earlier node has been finished, in order; outside a node element every
  node has been finished; an open \<open>Reference\<close> or \<open>Alias\<close> pointer is valid.
\<close>

definition driver_inv :: "sax_driver \<Rightarrow> nodeset \<Rightarrow> bool" where
  "driver_inv d s \<longleftrightarrow>
     prev_state d \<noteq> PARSER_STATE_UNKNOWN \<and>
     (ctx_state (pctx d) = PARSER_STATE_UNKNOWN \<longleftrightarrow> 0 < unknown_depth d) \<and>
     (if node_open (open_state d)
      then Suc (ctx_node (pctx d)) = length (heap s) \<and> sortNodes s = [0..<ctx_node (pctx d)] \<and>
           nodeClass (heap s ! ctx_node (pctx d)) = ctx_nodeClass (pctx d)
      else sortNodes s = [0..<length (heap s)]) \<and>
     (open_state d = PARSER_STATE_REFERENCE \<longrightarrow> ctx_ref d < length (countedRefs s)) \<and>
     (open_state d = PARSER_STATE_ALIAS \<longrightarrow> ctx_alias d < length (aliasList s))"

text \<open>
  The errors a dangling pointer of the driver would cause in the builder:
  a node, reference or alias pointer outside its store.
\<close>

definition dangling :: "error \<Rightarrow> bool" where
  "dangling e \<longleftrightarrow>
     e \<in> {IndexOutOfBounds ''node'', IndexOutOfBounds ''ref'', IndexOutOfBounds ''alias''}"

subsection \<open>Every driver run is a builder run\<close>

lemma reachable_newNode [intro]:
  "reachable cb s \<Longrightarrow> Nodeset_newNode s nc attrs = Inr (s', p) \<Longrightarrow> reachable cb s'"
  using reachable.step [where e = "EvNewNode nc attrs"] by simp

lemma reachable_newNodeFinish [intro]:
  "reachable cb s \<Longrightarrow> Nodeset_newNodeFinish s p = Inr s' \<Longrightarrow> reachable cb s'"
  using reachable.step [where e = "EvNewNodeFinish p"] by simp

lemma reachable_newReference [intro]:
  "reachable cb s \<Longrightarrow> Nodeset_newReference s p attrs = Inr (s', r) \<Longrightarrow> reachable cb s'"
  using reachable.step [where e = "EvNewReference p attrs"] by simp

lemma reachable_newReferenceFinish [intro]:
  "reachable cb s \<Longrightarrow> Nodeset_newReferenceFinish s r p t = Inr s' \<Longrightarrow> reachable cb s'"
  using reachable.step [where e = "EvNewReferenceFinish r p t"] by simp

lemma reachable_newAlias [intro]:
  "reachable cb s \<Longrightarrow> Nodeset_newAlias s attrs = (s', a) \<Longrightarrow> reachable cb s'"
  using reachable.step [where e = "EvNewAlias attrs"] by simp

lemma reachable_newAliasFinish [intro]:
  "reachable cb s \<Longrightarrow> Nodeset_newAliasFinish s a t = Inr s' \<Longrightarrow> reachable cb s'"
  using reachable.step [where e = "EvNewAliasFinish a t"] by simp

lemma reachable_newNamespace [intro]:
  "reachable cb s \<Longrightarrow> reachable cb (fst (Nodeset_newNamespace s))"
  using reachable.step [where e = EvNewNamespace] by simp

lemma reachable_newNamespaceFinish [intro]:
  "reachable cb s \<Longrightarrow> reachable cb (Nodeset_newNamespaceFinish cb s t)"
  using reachable.step [where e = "EvNewNamespaceFinish t"] by simp

lemmas driver_defs = onStartElement_def onEndElement_def onCharacters_def

lemma driver_step_reachable:
  assumes "reachable cb s" and "driver_step cb (d, s) e = Inr (d', s')"
  shows "reachable cb s'"
  using assms
  by (cases e)
     (auto simp: driver_defs Let_def split: TParserState.splits option.splits if_splits prod.splits)

subsection \<open>What each builder call changes\<close>

lemma newNode_frame:
  assumes "Nodeset_newNode s nc attrs = Inr (s', p)"
  shows "p = length (heap s) \<and> length (heap s') = Suc p \<and> nodeClass (heap s' ! p) = nc \<and>
         sortNodes s' = sortNodes s \<and> countedRefs s' = countedRefs s \<and> aliasList s' = aliasList s"
  using assms by (auto simp: Nodeset_newNode_def initNode_Inr)

lemma newNodeFinish_frame:
  assumes "Nodeset_newNodeFinish s p = Inr s'"
  shows "heap s' = heap s \<and> sortNodes s' = sortNodes s @ [p] \<and>
         countedRefs s' = countedRefs s \<and> aliasList s' = aliasList s"
  using assms
  by (auto simp: Nodeset_newNodeFinish_def Sort_addNode_def Let_def split: if_splits)

lemma newReference_frame:
  assumes "Nodeset_newReference s q attrs = Inr (s', r)"
  shows "length (heap s') = length (heap s) \<and>
         (\<forall>i < length (heap s). nodeClass (heap s' ! i) = nodeClass (heap s ! i)) \<and>
         sortNodes s' = sortNodes s \<and> r < length (countedRefs s') \<and>
         length (countedRefs s) \<le> length (countedRefs s') \<and> aliasList s' = aliasList s"
proof -
  from assms obtain rt where "q < length (heap s)" and "r = length (countedRefs s)"
    and "s' = s\<lparr>countedRefs := countedRefs s @
                 [\<lparr>isForward = (getAttributeValue attrIsForward attrs = Some ''true''), refType = rt, target = null_nodeid\<rparr>],
               heap := (heap s)[q := (if ref_hier s attrs rt
                 then (heap s ! q)\<lparr>hierachicalRefs := r # hierachicalRefs (heap s ! q)\<rparr>
                 else (heap s ! q)\<lparr>nonHierachicalRefs := r # nonHierachicalRefs (heap s ! q)\<rparr>)]\<rparr>"
    by (rule Nodeset_newReference_eq)
  then show ?thesis
    by (simp add: nth_list_update)
qed

lemma newReferenceFinish_frame:
  assumes "Nodeset_newReferenceFinish s r p t = Inr s'"
  shows "heap s' = heap s \<and> sortNodes s' = sortNodes s \<and>
         length (countedRefs s') = length (countedRefs s) \<and> aliasList s' = aliasList s"
  using assms by (auto simp: Nodeset_newReferenceFinish_def)

lemma newAlias_frame:
  assumes "Nodeset_newAlias s attrs = (s', a)"
  shows "heap s' = heap s \<and> sortNodes s' = sortNodes s \<and> countedRefs s' = countedRefs s \<and>
         a < length (aliasList s') \<and> length (aliasList s) \<le> length (aliasList s')"
  using assms by (auto simp: Nodeset_newAlias_def AliasList_newAlias_def)

lemma newAliasFinish_frame:
  assumes "Nodeset_newAliasFinish s a t = Inr s'"
  shows "heap s' = heap s \<and> sortNodes s' = sortNodes s \<and> countedRefs s' = countedRefs s \<and>
         length (aliasList s') = length (aliasList s)"
  using assms by (auto simp: Nodeset_newAliasFinish_def)

lemma newNamespace_frame [simp]:
  "heap (fst (Nodeset_newNamespace s)) = heap s" "sortNodes (fst (Nodeset_newNamespace s)) = sortNodes s"
  "countedRefs (fst (Nodeset_newNamespace s)) = countedRefs s"
  "aliasList (fst (Nodeset_newNamespace s)) = aliasList s"
  by (simp_all add: Nodeset_newNamespace_def)

lemma newNamespaceFinish_frame [simp]:
  "heap (Nodeset_newNamespaceFinish cb s t) = heap s"
  "sortNodes (Nodeset_newNamespaceFinish cb s t) = sortNodes s"
  "countedRefs (Nodeset_newNamespaceFinish cb s t) = countedRefs s"
  "aliasList (Nodeset_newNamespaceFinish cb s t) = aliasList s"
  by (simp_all add: Nodeset_newNamespaceFinish_def Let_def)

subsection \<open>The driver invariant\<close>

lemma upt_snoc_eq: "Suc n = m \<Longrightarrow> [0..<n] @ [n] = [0..<m]"
  by auto

lemmas driver_state_defs = driver_inv_def open_state_def enter_def skip_unknown_def

lemma driver_inv_new: "driver_inv driver_new Nodeset_new"
  by (simp add: driver_state_defs driver_new_def Nodeset_new_def)

lemma driver_inv_characters: "driver_inv d s \<Longrightarrow> driver_inv (onCharacters d t) s"
  by (simp add: driver_state_defs onCharacters_def)

lemma driver_inv_start:
  assumes "driver_inv d s" and "onStartElement d s name attrs = Inr (d', s')"
  shows "driver_inv d' s'"
  using assms
  by (cases "ctx_state (pctx d)")
     (auto simp: onStartElement_def driver_state_defs Let_def
           split: option.splits if_splits prod.splits dest!: newNode_frame newReference_frame newAlias_frame)

lemma driver_inv_end_unknown:
  assumes inv: "driver_inv d s" and st: "ctx_state (pctx d) = PARSER_STATE_UNKNOWN"
  shows "driver_inv (if unknown_depth d \<le> 1 then (enter (prev_state d) d)\<lparr>unknown_depth := 0\<rparr>
                     else d\<lparr>unknown_depth := unknown_depth d - 1\<rparr>) s"
proof (cases "unknown_depth d \<le> 1")
  case True
  let ?d = "(enter (prev_state d) d)\<lparr>unknown_depth := 0\<rparr>"
  have "open_state ?d = open_state d"
    using inv st by (simp add: driver_inv_def open_state_def enter_def)
  with inv st True show ?thesis
    by (simp add: driver_inv_def enter_def)
next
  case False
  let ?d = "d\<lparr>unknown_depth := unknown_depth d - 1\<rparr>"
  have "open_state ?d = open_state d"
    by (simp add: open_state_def)
  with inv st False show ?thesis
    by (simp add: driver_inv_def)
qed

lemma driver_inv_end:
  assumes "driver_inv d s" and "onEndElement cb d s = Inr (d', s')"
  shows "driver_inv d' s'"
proof (cases "ctx_state (pctx d) = PARSER_STATE_UNKNOWN")
  case True
  with assms show ?thesis
    using driver_inv_end_unknown [OF assms(1) True] by (auto simp: onEndElement_def split: if_splits)
next
  case False
  with assms show ?thesis
    by (cases "ctx_state (pctx d)")
       (auto simp: onEndElement_def driver_state_defs upt_snoc_eq
             split: if_splits dest!: newNodeFinish_frame newReferenceFinish_frame newAliasFinish_frame)
qed

lemma driver_step_inv:
  assumes "driver_inv d s" and "driver_step cb (d, s) e = Inr (d', s')"
  shows "driver_inv d' s'"
  using assms
  by (cases e) (auto intro: driver_inv_start driver_inv_end driver_inv_characters)

lemma driver_reachable_facts:
  "driver_reachable cb ds \<Longrightarrow> reachable cb (snd ds) \<and> driver_inv (fst ds) (snd ds)"
proof (induction rule: driver_reachable.induct)
  case init
  show ?case by (simp add: reachable.init driver_inv_new)
next
  case (step ds e ds')
  then show ?case
    by (cases ds; cases ds') (auto intro: driver_step_reachable driver_step_inv)
qed

subsection \<open>Errors that are not the driver's\<close>

lemma bindE_eq_Inl: "bindE m f = Inl e \<longleftrightarrow> m = Inl e \<or> (\<exists>a. m = Inr a \<and> f a = Inl e)"
  by (cases m) auto

lemma extractNodedId_not_dangling: "extractNodedId ns x = Inl e \<Longrightarrow> \<not> dangling e"
  by (auto simp: extractNodedId_def translateNodeId_def c_int_of_def nth_checked_def bindE_eq_Inl
                 dangling_def split: option.splits if_splits)

lemma extractBrowseName_not_dangling: "extractBrowseName ns x = Inl e \<Longrightarrow> \<not> dangling e"
  by (auto simp: extractBrowseName_def translateBrowseName_def c_int_of_def nth_checked_def bindE_eq_Inl
                 dangling_def split: option.splits if_splits)

lemma alias2Id_not_dangling: "alias2Id as ns x = Inl e \<Longrightarrow> \<not> dangling e"
  by (auto simp: alias2Id_def split: option.splits dest: extractNodedId_not_dangling)

lemma initNode_not_dangling: "initNode as ns nc attrs = Inl e \<Longrightarrow> \<not> dangling e"
  by (cases nc)
     (auto simp: initNode_def bindE_eq_Inl
           dest: extractNodedId_not_dangling extractBrowseName_not_dangling alias2Id_not_dangling)

lemma addIfHier_loop_Inl: "addIfHier_loop nid rs h = Inl e \<Longrightarrow> e = CapacityExceeded ''hierachicalRefs''"
  by (induction nid rs h rule: addIfHier_loop.induct) (auto split: if_splits)

lemma builder_inv_refs_valid:
  assumes "builder_inv s" and "p < length (heap s)"
  shows "\<forall>q \<in> set (hierachicalRefs (heap s ! p)). q < length (countedRefs s)"
proof
  fix q
  assume q: "q \<in> set (hierachicalRefs (heap s ! p))"
  have "heap s ! p \<in> set (heap s)"
    using assms(2) by simp
  with q have "q \<in> set (ref_ptrs s)"
    by (auto simp: ref_ptrs_def)
  moreover have "set (ref_ptrs s) = {0..<length (countedRefs s)}"
    using assms(1) unfolding builder_inv_def by (metis set_mset_mset set_upt)
  ultimately show "q < length (countedRefs s)"
    by simp
qed

lemma newNode_not_dangling: "Nodeset_newNode s nc attrs = Inl e \<Longrightarrow> \<not> dangling e"
  by (auto simp: Nodeset_newNode_def bindE_eq_Inl dest: initNode_not_dangling)

lemma newNodeFinish_not_dangling:
  assumes "builder_inv s" and "p < length (heap s)" and "Nodeset_newNodeFinish s p = Inl e"
  shows "\<not> dangling e"
proof -
  have "deref_all ''ref'' (countedRefs s) (hierachicalRefs (heap s ! p)) =
        Inr (map (\<lambda>q. countedRefs s ! q) (hierachicalRefs (heap s ! p)))"
    using builder_inv_refs_valid [OF assms(1,2)] by (rule deref_all_valid)
  with assms(2,3) show ?thesis
    by (auto simp: Nodeset_newNodeFinish_def addIfHierachicalReferenceType_def Let_def bindE_eq_Inl
                   dangling_def split: if_splits dest!: addIfHier_loop_Inl)
qed

lemma newReference_not_dangling:
  "p < length (heap s) \<Longrightarrow> Nodeset_newReference s p attrs = Inl e \<Longrightarrow> \<not> dangling e"
  by (auto simp: Nodeset_newReference_def bindE_eq_Inl Let_def dangling_def
           split: if_splits dest: alias2Id_not_dangling)

lemma newReferenceFinish_not_dangling:
  "r < length (countedRefs s) \<Longrightarrow> Nodeset_newReferenceFinish s r p t = Inl e \<Longrightarrow> \<not> dangling e"
  by (auto simp: Nodeset_newReferenceFinish_def bindE_eq_Inl dest: extractNodedId_not_dangling)

lemma newAliasFinish_not_dangling:
  "a < length (aliasList s) \<Longrightarrow> Nodeset_newAliasFinish s a t = Inl e \<Longrightarrow> \<not> dangling e"
  by (auto simp: Nodeset_newAliasFinish_def bindE_eq_Inl dest: extractNodedId_not_dangling)

lemmas builder_not_dangling = newNode_not_dangling newNodeFinish_not_dangling [rotated 2]
  newReference_not_dangling [rotated] newReferenceFinish_not_dangling [rotated]
  newAliasFinish_not_dangling [rotated]

lemma driver_step_not_dangling:
  assumes "builder_inv s" and "driver_inv d s" and "driver_step cb (d, s) ev = Inl err"
  shows "\<not> dangling err"
  using assms
  by (cases ev; cases "ctx_state (pctx d)")
     (auto simp: driver_defs driver_inv_def open_state_def Let_def bindE_eq_Inl
           split: option.splits if_splits prod.splits dest: builder_not_dangling)

lemma run_sax_reachable:
  "driver_reachable cb ds \<Longrightarrow> run_sax cb ds es = Inr ds' \<Longrightarrow> driver_reachable cb ds'"
  by (induction es arbitrary: ds) (auto intro: driver_reachable.step)

lemmas driver_eval = driver_defs driver_new_def enter_def skip_unknown_def node_element_def

subsection \<open>Properties of the driver\<close>

text \<open>
  C13: in every state the driver reaches, the pointers it keeps between a
  start tag and its end tag are valid: while a node element is open its
  node is the last one created, of the class the driver recorded, and
  all earlier nodes are finished in order; outside a node element every
  node created is finished; an open \<open>Reference\<close> or \<open>Alias\<close> points into
  its store; a skipped element has a positive depth.
\<close>

theorem driver_reachable_inv:
  assumes "driver_reachable cb (d, s)"
  shows "driver_inv d s"
  using driver_reachable_facts [OF assms] by simp

text \<open>
  C14: from every reachable state, a step of the driver that fails does so
  because of the document (a missing attribute, a bad id, a full buffer),
  never because the driver handed \<open>Nodeset.c\<close> a node, reference or
  alias pointer outside its store.
\<close>

theorem driver_no_dangling_pointer:
  assumes "driver_reachable cb (d, s)" and "driver_step cb (d, s) ev = Inl err"
  shows "\<not> dangling err"
proof -
  from driver_reachable_facts [OF assms(1)] have "reachable cb s" and "driver_inv d s"
    by simp_all
  from reachable_builder_inv [OF this(1)] this(2) assms(2) show ?thesis
    by (rule driver_step_not_dangling)
qed

text \<open>
  C3: once the driver is back at the top level of a document, a
  successful \<open>Nodeset_getSortedNodes\<close> with any sorter meeting the
  contract hands every node the document created to \<open>addNode\<close> exactly
  once.
\<close>

theorem document_nodes_delivered_once:
  assumes "sort_contract srt" and "driver_reachable cb (d, s)"
    and "ctx_state (pctx d) = PARSER_STATE_INIT"
    and "Nodeset_getSortedNodes srt s = Inr (True, s', ev)"
  shows "mset (added_nodes ev) = mset [0..<length (heap s)]"
proof -
  from driver_reachable_facts [OF assms(2)] have "reachable cb s" and inv: "driver_inv d s"
    by simp_all
  then have "containers_empty s"
    using reachable_builder_inv by (simp add: builder_inv_def)
  then have "mset (added_nodes ev) = mset (sortNodes s)"
    using getSortedNodes_emits_each_once [OF assms(1) _ assms(4)] by simp
  moreover have "sortNodes s = [0..<length (heap s)]"
    using inv assms(3) by (simp add: driver_inv_def open_state_def)
  ultimately show ?thesis
    by simp
qed

end
