(* ===== verification/Spec2Isabelle.thy ===== *)
theory Spec2Isabelle
  imports Cleanup SortFifo Arena Parser
begin

text \<open>
  \<^bold>\<open>A verification model of the OPC UA NodeSet model builder.\<close>

  The program is \<open>src/src/Nodeset.c\<close> (with its header \<open>src/src/nodeset.h\<close>)
  of open62541-nodeset-loader: the part of the loader that receives the
  events of an XML NodeSet parser (new namespace, alias, node and
  reference, each with a \<open>Finish\<close> once the element's text has arrived),
  keeps the namespace translation table, the alias table, the node and
  reference records and the growing table of hierarchical reference
  types, and finally, in \<open>Nodeset_getSortedNodes\<close>, hands the nodes to the
  host in dependency order. It calls three collaborators that are not
  under \<open>src/\<close>: the alias list (\<open>AliasList.c\<close>), the topological sorter
  (\<open>Sort.c\<close>) and the char arena (\<open>CharArenaAllocator\<close>); all three are
  modelled from the spec (sections 4.C3, 4.C7 and 4.C1), and their use by
  \<open>Nodeset.c\<close> from the code. It is called by the SAX driver
  (\<open>NodesetLoader.c\<close>, not under \<open>src/\<close>), whose state \<open>nodeset.h\<close>
  declares; the driver is modelled from that header and the spec's event
  surface, and its runs are related to the builder's.

  \<^bold>\<open>Theories.\<close>
  \<^item> \<open>Prelude\<close>: the error type (every point where the C code has
    undefined behaviour: \<open>NULL\<close> dereference, read or write outside an
    allocation, read of an unwritten field, \<open>atoi\<close> overflow, write past a
    \<open>MAX_*\<close> buffer) and the result type \<open>error + 'a\<close> with \<open>bindE\<close>; list
    lemmas for lists used as heaps.
  \<^item> \<open>NodeIds\<close>: \<open>translateNodeId\<close>, \<open>translateBrowseName\<close>,
    \<open>extractNodedId\<close>, \<open>extractBrowseName\<close> (\<open>Nodeset.c\<close> 149--210), with
    \<open>strchr\<close> and \<open>atoi\<close> written out; \<open>TNodeId.nsIdx\<close> is a C \<open>int\<close>
    (\<open>32 word\<close>), \<open>TBrowseName.nsIdx\<close> a \<open>uint16_t\<close>, the table's global
    index a \<open>size_t\<close>, with the source's casts. Lemmas: the parse/print
    round trip of \<open>ns=<k>;<rest>\<close>, the untranslated plain form, the
    16-bit wrap of browse-name indices, and, for every text containing
    \<open>';'\<close> or \<open>':'\<close>, the cut after the first separator that departs
    from the spec's textual rules.
  \<^item> \<open>Aliases\<close>: the alias list (from the spec) and \<open>alias2Id\<close> (212--220).
  \<^item> \<open>Attributes\<close>: the \<open>NodeAttribute\<close> table with its defaults (51--72),
    \<open>getAttributeValue\<close> (403--422), the node record \<open>tnode\<close> with one
    \<open>node_ext\<close> constructor per node struct, \<open>extractAttributes\<close> and
    \<open>initNode\<close> (424--514). Lemmas: the lookup as an association list,
    the defaults table, and what happens to a node without \<open>NodeId\<close> or
    \<open>BrowseName\<close>.
  \<^item> \<open>Arena\<close>: the char arena as a zero-filled bump allocator over one
    buffer, C \<open>char *\<close> values as \<open>cptr\<close> (\<open>NULL\<close>, a literal, an offset),
    and \<open>getAttributeValue\<close> as the C code runs it: a fresh block of
    \<open>size + 1\<close> bytes and a \<open>memcpy\<close> of \<open>size\<close> (415--416), with the calls
    of \<open>extractAttributes\<close> in their order. Lemmas: every copy reads back
    as the string the other theories use, after all later copies (the
    copies never overlap and the arena's zero fill terminates them), so
    strings by value are a sound abstraction; the arena grows by exactly
    the copied lengths plus terminators and no copy leaves its block.
  \<^item> \<open>References\<close>: the reference record, the seed table of eight
    hierarchical types (74--147), \<open>isHierachicalReference\<close> (391--401),
    \<open>isKnownReferenceType\<close> (549--566), the classification of
    \<open>Nodeset_newReference\<close> and \<open>addIfHierachicalReferenceType\<close>
    (646--665). Lemmas: promotion of a ReferenceType whose supertype is
    hierarchical, its termination and growth, one table entry per inverse
    reference (the \<open>break\<close> leaves only the inner loop), and its
    unchecked write past the 50-entry array.
  \<^item> \<open>Sort\<close>: the sorter, from the spec, as an interface. \<open>sort_contract\<close>
    says what \<open>Nodeset.c\<close> relies on: a sorter fails exactly when some
    phase holds a cycle of hierarchical edges, and otherwise returns a
    permutation of the recorded nodes in phase order with parents first
    within a phase. \<open>sort_phases\<close> runs a per-phase algorithm phase by
    phase, and any algorithm meeting the per-phase contract gives a sorter
    meeting \<open>sort_contract\<close>. \<open>kahn\<close> emits, among the nodes whose parents
    are all emitted, the earliest recorded one; it ends because every
    round removes one node (a \<open>function\<close> with the measure \<open>length rest\<close>).
    \<open>Sort_start\<close> is \<open>kahn\<close> phase by phase; it meets the contract and
    returns an input that already respects the edges unchanged
    (tie-breaking by insertion order).
  \<^item> \<open>SortFifo\<close>: the algorithm the spec's text describes, an in-degree
    FIFO queue per phase (a \<open>function\<close> ending by the measure
    \<open>length queue + 2 * length waiting\<close>); it meets the contract too, but
    can break ties differently from \<open>Sort_start\<close>: the contract, which
    is all \<open>Nodeset.c\<close> relies on, does not fix the order within a phase.
  \<^item> \<open>Nodeset\<close>: the \<open>Nodeset\<close> struct as a record and every event function
    of the file: \<open>Nodeset_new\<close>, \<open>Nodeset_addNode\<close>, \<open>Nodeset_newNode\<close>,
    \<open>Nodeset_newReference\<close>(\<open>Finish\<close>), \<open>Nodeset_newAlias\<close>(\<open>Finish\<close>),
    \<open>Nodeset_newNamespace\<close>(\<open>Finish\<close>), \<open>Nodeset_newNodeFinish\<close>,
    \<open>Nodeset_getSortedNodes\<close>. The heap of node records and the reference
    store are lists indexed by the pointers the functions return, so the
    aliasing of the C code (the parser keeps a pointer to a reference that
    is already linked into its node's list, and fills in its target later)
    is the sharing of one list entry. The output of
    \<open>Nodeset_getSortedNodes\<close> is the list of host callbacks it makes
    (\<open>addNode\<close>, \<open>deleteValue\<close>).
  \<^item> \<open>Emission\<close>: what \<open>Nodeset_getSortedNodes\<close> emits, for every sorter
    meeting the contract (the sorter is a parameter of the model, as
    \<open>Sort.c\<close> is outside \<open>src/\<close>): exactly the sorter's order, in phase order with parents first within a phase, each
    finished node once, each Variable's value deleted right after it is
    delivered; it returns \<open>false\<close>, emitting nothing, exactly when a phase
    holds a cycle.
  \<^item> \<open>Builder\<close>: the parser's events as a datatype, \<open>builder_step\<close>, runs
    of events, and the reachable states (an \<open>inductive\<close> set). The builder
    invariant holds in every reachable state (rule induction, one lemma per
    event): each reference is in exactly one list of one node, the class
    containers stay empty until the sort, every finished node is a valid
    pointer, every node's fields match its class, the table of hierarchical
    types starts with the seed and has at most 50 entries.
  \<^item> \<open>Events\<close>: single events as state changes: the alias table as an
    insert/lookup pair (a new name resolves to the id it was finished
    with), the pointer the parser
    keeps between \<open>Nodeset_newReference\<close> and its \<open>Finish\<close>: it is the
    entry linked into the node, so the node sees the target written later;
    and what is fixed when a reference is created: a reference of a type
    outside namespace 0 is always filed hierarchical while parsing, and
    its type is resolved once, so an alias declared after the use is
    never applied to it.
  \<^item> \<open>Parser\<close>: the SAX driver that calls the builder. Its state is
    \<open>TParserState\<close> and \<open>TParserCtx\<close> of \<open>nodeset.h\<close> (112--130) and the
    element names are the header's macros (28--40). The driver itself
    (\<open>NodesetLoader.c\<close>) is not under \<open>src/\<close>, so its transitions are
    modelled from the spec's event surface (4.C8, 6). \<open>driver_step\<close>
    reads one start tag, end tag or piece of text, and
    \<open>driver_reachable\<close> is the inductive set of states any document
    leads to. Lemmas: every driver run is a builder run, so the lemmas
    about \<open>Builder.reachable\<close> hold of documents; the pointers the
    driver keeps between a start tag and its end tag are always valid; a
    failing step is never a dangling pointer; and at the top level of a
    document every node created has been finished once, so a successful
    sort delivers each node of the document exactly once.
  \<^item> \<open>Links\<close>: the C linked lists behind the list model: each node's two
    head pointers and each reference's \<open>next\<close> field, the push of
    \<open>Nodeset_newReference\<close> (594--605), and the \<open>while (ref)\<close> walk as a
    \<open>partial_function (option)\<close> (\<open>None\<close> when it would not end). An
    abstraction relation (\<open>links_rel\<close>: the chain from each head is the
    model's list) holds in every reachable state of the two layers run
    together; hence every walk ends and visits exactly the model's list.
  \<^item> \<open>Cleanup\<close>: \<open>Nodeset_cleanup\<close> (360--389) as the list of blocks it
    frees. After a successful sort it frees every reference once and
    exactly the finished nodes; in every state the parser reaches (and
    after a failed sort) it frees no node at all, against the spec's P6.
  \<^item> \<open>Spec2Isabelle\<close> (this theory): the properties that span the
    components, stated over every reachable state (phase order, each node
    delivered once, delivery whenever no phase is cyclic), and the spec's
    scenarios run event by event from \<open>Nodeset_new\<close>, with the witnesses
    of the component theorems on those runs.

  \<^bold>\<open>Bounds.\<close> The fixed buffers of the source are kept at their sizes:
  50 hierarchical types, 1000000 references, and per class the container
  capacity \<open>Nodeset_new\<close> allocates. None is checked by the C code; the model
  turns each overflowing write into an error, and the theorems say when
  the writes stay inside. No fuel is used: the sort loop \<open>kahn\<close> ends by
  the measure \<open>length rest\<close>, and the one loop that could run forever, the
  walk of a reference chain, is a \<open>partial_function (option)\<close> whose
  termination on every reachable state is a theorem.

  \<^bold>\<open>Not modelled.\<close> The arena's split of its buffer into blocks (a
  hint in the spec; the model uses one growing buffer, which has the same
  offsets for the strings) and its release, which is one \<open>free\<close> in
  \<open>Cleanup\<close>. \<open>Sort_init\<close> and \<open>Sort_cleanup\<close>, which manage the sorter's own
  storage outside \<open>src/\<close>. The trace printing under \<open>XMLIMPORT_TRACE\<close>. The
  XML tokenizer (libxml2), which turns the file into start tags, end tags
  and text: the driver of \<open>Parser\<close> accepts every sequence of them, and
  \<open>Builder\<close> admits every order of builder events. The driver's writes
  of display names and descriptions into the node (through
  \<open>nextOnCharacters\<close>), which nothing in \<open>Nodeset.c\<close> reads. The host
  callbacks are functions: \<open>addNamespace\<close> from URI to index,
  \<open>addNode\<close>/\<open>deleteValue\<close> as the emitted list. Display names,
  descriptions and values are filled in by the parser outside this file
  and stay \<open>NULL\<close> here.
\<close>

section \<open>Scenario documents\<close>

definition xa :: "string \<Rightarrow> string \<Rightarrow> xmlAttribute" where
  "xa n v = \<lparr>xa_localname = n, xa_prefix = None, xa_uri = None, xa_value = v\<rparr>"

definition cb7 :: addNamespaceCb where
  "cb7 uri = 7"

text \<open>A user ReferenceType \<open>ns=1;i=5000\<close> (Controls), subtype of HasComponent, and its use.\<close>

definition ev_controls :: "event list" where
  "ev_controls =
     [EvNewNamespace, EvNewNamespaceFinish ''urn:acme'',
      EvNewNode NODECLASS_REFERENCETYPE [xa ''NodeId'' ''ns=1;i=5000'', xa ''BrowseName'' ''1:Controls''],
      EvNewReference 0 [xa ''ReferenceType'' ''i=45'', xa ''IsForward'' ''false''],
      EvNewReferenceFinish 0 0 ''i=47'', EvNewNodeFinish 0,
      EvNewNode NODECLASS_OBJECT [xa ''NodeId'' ''ns=1;i=1'', xa ''BrowseName'' ''1:Machine''],
      EvNewReference 1 [xa ''ReferenceType'' ''ns=1;i=5000''],
      EvNewReferenceFinish 1 1 ''ns=1;i=2'', EvNewNodeFinish 1]"

text \<open>
  A user ReferenceType \<open>ns=1;i=6000\<close> (Monitors), subtype of
  NonHierarchicalReferences (\<open>i=32\<close>), and two Objects that monitor each other.
\<close>

definition ev_monitors :: "event list" where
  "ev_monitors =
     [EvNewNamespace, EvNewNamespaceFinish ''urn:acme'',
      EvNewNode NODECLASS_REFERENCETYPE [xa ''NodeId'' ''ns=1;i=6000'', xa ''BrowseName'' ''1:Monitors''],
      EvNewReference 0 [xa ''ReferenceType'' ''i=45'', xa ''IsForward'' ''false''],
      EvNewReferenceFinish 0 0 ''i=32'', EvNewNodeFinish 0,
      EvNewNode NODECLASS_OBJECT [xa ''NodeId'' ''ns=1;i=1'', xa ''BrowseName'' ''1:A''],
      EvNewReference 1 [xa ''ReferenceType'' ''ns=1;i=6000''],
      EvNewReferenceFinish 1 1 ''ns=1;i=2'', EvNewNodeFinish 1,
      EvNewNode NODECLASS_OBJECT [xa ''NodeId'' ''ns=1;i=2'', xa ''BrowseName'' ''1:B''],
      EvNewReference 2 [xa ''ReferenceType'' ''ns=1;i=6000''],
      EvNewReferenceFinish 2 2 ''ns=1;i=1'', EvNewNodeFinish 2]"

text \<open>A child Object finished before its parent (inverse HasComponent).\<close>

definition ev_child_first :: "event list" where
  "ev_child_first =
     [EvNewNode NODECLASS_OBJECT [xa ''NodeId'' ''i=1002'', xa ''BrowseName'' ''B''],
      EvNewReference 0 [xa ''ReferenceType'' ''i=47'', xa ''IsForward'' ''false''],
      EvNewReferenceFinish 0 0 ''i=1001'', EvNewNodeFinish 0,
      EvNewNode NODECLASS_OBJECT [xa ''NodeId'' ''i=1001'', xa ''BrowseName'' ''A''],
      EvNewNodeFinish 1]"

text \<open>The spec's scenario 2: an ObjectType and a Variable that is its component.\<close>

definition ev_machine :: "event list" where
  "ev_machine =
     [EvNewNamespace, EvNewNamespaceFinish ''urn:acme'',
      EvNewNode NODECLASS_OBJECTTYPE [xa ''NodeId'' ''ns=1;i=1000'', xa ''BrowseName'' ''1:Machine''],
      EvNewNodeFinish 0,
      EvNewNode NODECLASS_VARIABLE [xa ''NodeId'' ''ns=1;i=1001'', xa ''BrowseName'' ''1:Speed''],
      EvNewReference 1 [xa ''ReferenceType'' ''i=47'', xa ''IsForward'' ''false''],
      EvNewReferenceFinish 0 1 ''ns=1;i=1000'', EvNewNodeFinish 1]"

text \<open>The spec's scenario 6: two ObjectTypes, each a forward subtype of the other.\<close>

definition ev_cycle :: "event list" where
  "ev_cycle =
     [EvNewNode NODECLASS_OBJECTTYPE [xa ''NodeId'' ''i=2001'', xa ''BrowseName'' ''A''],
      EvNewReference 0 [xa ''ReferenceType'' ''i=45''], EvNewReferenceFinish 0 0 ''i=2002'',
      EvNewNodeFinish 0,
      EvNewNode NODECLASS_OBJECTTYPE [xa ''NodeId'' ''i=2002'', xa ''BrowseName'' ''B''],
      EvNewReference 1 [xa ''ReferenceType'' ''i=45''], EvNewReferenceFinish 1 1 ''i=2001'',
      EvNewNodeFinish 1]"

text \<open>The spec's scenario 4: the alias \<open>HasComponent\<close> declared after, or before, its use.\<close>

definition ev_component_ref :: "event list" where
  "ev_component_ref =
     [EvNewNode NODECLASS_OBJECT [xa ''NodeId'' ''i=1002'', xa ''BrowseName'' ''B''],
      EvNewReference 0 [xa ''ReferenceType'' ''HasComponent'', xa ''IsForward'' ''false''],
      EvNewReferenceFinish 0 0 ''i=1001'', EvNewNodeFinish 0]"

definition ev_alias_decl :: "event list" where
  "ev_alias_decl = [EvNewAlias [xa ''Alias'' ''HasComponent''], EvNewAliasFinish 0 ''i=47'']"

definition ev_translate :: "event list" where
  "ev_translate =
     [EvNewNamespace, EvNewNamespaceFinish ''urn:acme'',
      EvNewNode NODECLASS_OBJECT [xa ''NodeId'' ''ns=1;i=10'', xa ''BrowseName'' ''1:Temperature'']]"

text \<open>
  A document read by the SAX driver: a namespace URI, an alias, the
  Machine ObjectType with a display name, and its Speed Variable whose
  inverse HasComponent reference (through the alias) names the Machine,
  with a value element the driver skips.
\<close>

definition doc_example :: "sax_event list" where
  "doc_example =
     [StartElement ''UANodeSet'' [],
      StartElement ''NamespaceUris'' [], StartElement ''Uri'' [], Characters ''urn:acme'', EndElement,
      EndElement,
      StartElement ''Aliases'' [], StartElement ''Alias'' [xa ''Alias'' ''HasComponent''],
      Characters ''i=47'', EndElement, EndElement,
      StartElement ''UAObjectType'' [xa ''NodeId'' ''ns=1;i=1000'', xa ''BrowseName'' ''1:Machine''],
      StartElement ''DisplayName'' [], Characters ''Machine'', EndElement, EndElement,
      StartElement ''UAVariable'' [xa ''NodeId'' ''ns=1;i=1001'', xa ''BrowseName'' ''1:Speed'',
                                  xa ''ParentNodeId'' ''ns=1;i=1000''],
      StartElement ''References'' [],
      StartElement ''Reference'' [xa ''ReferenceType'' ''HasComponent'', xa ''IsForward'' ''false''],
      Characters ''ns=1;i=1000'', EndElement, EndElement,
      StartElement ''Value'' [], StartElement ''Double'' [], Characters ''0'', EndElement, EndElement,
      EndElement,
      EndElement]"

definition doc_state :: "sax_driver \<times> nodeset" where
  "doc_state = projr (run_sax cb7 (driver_new, Nodeset_new) doc_example)"

lemmas scenario_defs = ev_controls_def ev_monitors_def ev_child_first_def ev_machine_def ev_cycle_def
  ev_component_ref_def ev_alias_decl_def ev_translate_def xa_def cb7_def

section \<open>Properties over every run of the parser\<close>

text \<open>
  C1: for every document the parser can feed, a successful
  \<open>Nodeset_getSortedNodes\<close> emits the nodes in phase order (ReferenceType,
  DataType, ObjectType, Object, Method, VariableType, Variable: spec P1)
  and, within a phase, never a node after one of its children
  (spec P2 for edges inside a phase).
\<close>

theorem loaded_phase_order:
  assumes "sort_contract srt" and "reachable cb s" and "Nodeset_getSortedNodes srt s = Inr (True, s', ev)"
  shows "sorted_wrt (\<lambda>a b. phase (node_cls s a) < phase (node_cls s b) \<or>
                         (node_cls s a = node_cls s b \<and> \<not> sort_edge s b a)) (added_nodes ev)"
proof -
  have "containers_empty s"
    using reachable_builder_inv [OF assms(2)] by (simp add: builder_inv_def)
  from getSortedNodes_phase_order [OF assms(1) this assms(3)] show ?thesis .
qed

lemma loaded_phase_order_witness:
  "reachable cb7 (projr (run_events cb7 Nodeset_new ev_child_first)) \<and>
   (\<exists>s'. Nodeset_getSortedNodes Sort_start (projr (run_events cb7 Nodeset_new ev_child_first)) =
          Inr (True, s', [AddNodeCb 1, AddNodeCb 0])) \<and>
   sorted_wrt (\<lambda>a b. phase (node_cls (projr (run_events cb7 Nodeset_new ev_child_first)) a) <
                     phase (node_cls (projr (run_events cb7 Nodeset_new ev_child_first)) b) \<or>
                     (node_cls (projr (run_events cb7 Nodeset_new ev_child_first)) a =
                      node_cls (projr (run_events cb7 Nodeset_new ev_child_first)) b \<and>
                      \<not> sort_edge (projr (run_events cb7 Nodeset_new ev_child_first)) b a)) [1, 0]"
proof -
  let ?s = "projr (run_events cb7 Nodeset_new ev_child_first)"
  have run: "run_events cb7 Nodeset_new ev_child_first = Inr ?s"
    by (simp add: builder_eval scenario_defs)
  have reach: "reachable cb7 ?s"
    by (rule run_events_reachable [OF reachable.init run])
  have "\<exists>s'. Nodeset_getSortedNodes Sort_start ?s = Inr (True, s', [AddNodeCb 1, AddNodeCb 0])"
    by (simp add: builder_eval scenario_defs)
  then obtain s' where gs: "Nodeset_getSortedNodes Sort_start ?s = Inr (True, s', [AddNodeCb 1, AddNodeCb 0])" ..
  from loaded_phase_order [OF Sort_start_meets_contract reach gs] reach gs show ?thesis by auto
qed


text \<open>
  C2: for every document the parser can feed, a successful
  \<open>Nodeset_getSortedNodes\<close> hands every finished node to the consumer
  exactly once (spec P3).
\<close>

theorem loaded_emits_each_once:
  assumes "sort_contract srt" and "reachable cb s" and "Nodeset_getSortedNodes srt s = Inr (True, s', ev)"
  shows "mset (added_nodes ev) = mset (sortNodes s)"
proof -
  have "containers_empty s"
    using reachable_builder_inv [OF assms(2)] by (simp add: builder_inv_def)
  from getSortedNodes_emits_each_once [OF assms(1) this assms(3)] show ?thesis .
qed

lemma loaded_emits_each_once_witness:
  "reachable cb7 (projr (run_events cb7 Nodeset_new ev_machine)) \<and>
   (\<exists>s'. Nodeset_getSortedNodes Sort_start_fifo (projr (run_events cb7 Nodeset_new ev_machine)) =
          Inr (True, s', [AddNodeCb 0, AddNodeCb 1, DeleteValueCb 1])) \<and>
   mset (added_nodes [AddNodeCb 0, AddNodeCb 1, DeleteValueCb 1]) =
     mset (sortNodes (projr (run_events cb7 Nodeset_new ev_machine)))"
proof -
  let ?s = "projr (run_events cb7 Nodeset_new ev_machine)"
  have run: "run_events cb7 Nodeset_new ev_machine = Inr ?s"
    by (simp add: builder_eval scenario_defs)
  have reach: "reachable cb7 ?s"
    by (rule run_events_reachable [OF reachable.init run])
  have "\<exists>s'. Nodeset_getSortedNodes Sort_start_fifo ?s = Inr (True, s', [AddNodeCb 0, AddNodeCb 1, DeleteValueCb 1])"
    by (simp add: builder_eval fifo_eval scenario_defs)
  then obtain s' where gs: "Nodeset_getSortedNodes Sort_start_fifo ?s = Inr (True, s', [AddNodeCb 0, AddNodeCb 1, DeleteValueCb 1])" ..
  from loaded_emits_each_once [OF Sort_start_fifo_meets_contract reach gs] reach gs show ?thesis by auto
qed

text \<open>
  C25: for every document the parser can feed, \<open>Nodeset_getSortedNodes\<close>
  has defined behaviour (it writes inside every class container) as long
  as no class has more finished nodes than the capacity
  \<open>Nodeset_new\<close> gave its container.
\<close>

theorem loaded_getSortedNodes_defined:
  assumes "sort_contract srt" and "reachable cb s"
    and "\<forall>c. length (filter (\<lambda>p. node_cls s p = c) (sortNodes s)) \<le> container_capacity c"
  shows "\<exists>r. Nodeset_getSortedNodes srt s = Inr r"
proof -
  have inv: "builder_inv s" using reachable_builder_inv [OF assms(2)] .
  then have "containers_empty s" and "\<forall>p \<in> set (sortNodes s). p < length (heap s)"
    by (simp_all add: builder_inv_def)
  from getSortedNodes_defined [OF assms(1) this assms(3)] show ?thesis .
qed

lemma loaded_getSortedNodes_defined_witness:
  "reachable cb7 (projr (run_events cb7 Nodeset_new ev_cycle)) \<and>
   (\<forall>c. length (filter (\<lambda>p. node_cls (projr (run_events cb7 Nodeset_new ev_cycle)) p = c)
                  (sortNodes (projr (run_events cb7 Nodeset_new ev_cycle)))) \<le> container_capacity c) \<and>
   (\<exists>r. Nodeset_getSortedNodes Sort_start (projr (run_events cb7 Nodeset_new ev_cycle)) = Inr r)"
proof -
  let ?s = "projr (run_events cb7 Nodeset_new ev_cycle)"
  have run: "run_events cb7 Nodeset_new ev_cycle = Inr ?s"
    by (simp add: builder_eval scenario_defs)
  have reach: "reachable cb7 ?s"
    by (rule run_events_reachable [OF reachable.init run])
  have sn: "sortNodes ?s = [0, 1]" and cls: "node_cls ?s 0 = NODECLASS_OBJECTTYPE"
    "node_cls ?s 1 = NODECLASS_OBJECTTYPE"
    by (simp_all add: builder_eval scenario_defs node_cls_def)
  have cap: "\<forall>c. length (filter (\<lambda>p. node_cls ?s p = c) (sortNodes ?s)) \<le> container_capacity c"
  proof
    fix c
    show "length (filter (\<lambda>p. node_cls ?s p = c) (sortNodes ?s)) \<le> container_capacity c"
      unfolding sn using cls by (cases c) simp_all
  qed
  from loaded_getSortedNodes_defined [OF Sort_start_meets_contract reach cap] reach cap show ?thesis by blast
qed

section \<open>The spec's scenarios, run event by event\<close>

text \<open>
  A user ReferenceType declared as an inverse HasSubtype child of the
  hierarchical HasComponent (\<open>i=47\<close>) is added to the table of
  hierarchical types when it is finished, and a later reference of that
  type is filed as hierarchical (spec scenario 3).
\<close>

theorem scenario_controls_promoted:
  "\<exists>s. run_events cb7 Nodeset_new ev_controls = Inr s \<and>
       hierRefTable s = builtin_hierachicalRefs @ [\<lparr>nsIdx = 7, idStr = Some ''i=5000''\<rparr>] \<and>
       hierachicalRefs (heap s ! 1) = [1] \<and> nonHierachicalRefs (heap s ! 1) = []"
  by (simp add: builder_eval scenario_defs)

text \<open>
  The spec's scenario 2: an ObjectType and a Variable that is its
  component are handed over ObjectType first, and the Variable's value is
  deleted right after it.
\<close>

theorem scenario_machine_emission:
  "\<exists>s s'. run_events cb7 Nodeset_new ev_machine = Inr s \<and>
          Nodeset_getSortedNodes Sort_start s = Inr (True, s', [AddNodeCb 0, AddNodeCb 1, DeleteValueCb 1])"
  by (simp add: builder_eval scenario_defs)

text \<open>
  A child Object finished before its parent is handed over after it
  (spec P2 within a phase).
\<close>

lemma scenario_child_first_reordered:
  "\<exists>s s'. run_events cb7 Nodeset_new ev_child_first = Inr s \<and>
          Nodeset_getSortedNodes Sort_start s = Inr (True, s', [AddNodeCb 1, AddNodeCb 0])"
  by (simp add: builder_eval scenario_defs)

text \<open>
  The spec's scenario 6: two ObjectTypes that are each other's
  HasSubtype parent make \<open>Nodeset_getSortedNodes\<close> return \<open>false\<close>, with
  nothing emitted.
\<close>

lemma scenario_cycle_rejected:
  "\<exists>s. run_events cb7 Nodeset_new ev_cycle = Inr s \<and> Nodeset_getSortedNodes Sort_start s = Inr (False, s, [])"
  by (simp add: builder_eval scenario_defs)

text \<open>
  The spec's scenario 5: for every index the host's
  \<open>addNamespace\<close> callback returns for the document's namespace 1, a node
  \<open>ns=1;i=10\<close> gets that global index and the browse name
  \<open>1:Temperature\<close> its 16-bit truncation.
\<close>

theorem scenario_namespace_translated:
  "\<exists>s p. run_events cb Nodeset_new ev_translate = Inr s \<and> p < length (heap s) \<and>
         node_id (heap s ! p) = \<lparr>nsIdx = cb ''urn:acme'', idStr = Some ''i=10''\<rparr> \<and>
         browseName (heap s ! p) = \<lparr>bn_nsIdx = ucast (cb ''urn:acme''), bn_name = ''Temperature''\<rparr>"
  by (simp add: builder_eval scenario_defs)

text \<open>
  A document without nodes is delivered as no callbacks, and
  \<open>Nodeset_getSortedNodes\<close> reports success.
\<close>

lemma getSortedNodes_empty:
  "Nodeset_getSortedNodes Sort_start Nodeset_new = Inr (True, Nodeset_new, [])"
  by (simp add: builder_eval)


section \<open>The component theorems at the scenarios\<close>

lemma reachable_run: "run_events cb Nodeset_new es = Inr s \<Longrightarrow> reachable cb s"
  by (rule run_events_reachable [OF reachable.init])

lemma containers_empty_run:
  "run_events cb Nodeset_new es = Inr s \<Longrightarrow> containers_empty s"
  using reachable_builder_inv [OF reachable_run] by (simp add: builder_inv_def)

lemma getSortedNodes_emits_sorter_order_witness:
  "containers_empty (projr (run_events cb7 Nodeset_new ev_child_first)) \<and>
   (\<exists>s'. Nodeset_getSortedNodes Sort_start (projr (run_events cb7 Nodeset_new ev_child_first)) =
          Inr (True, s', [AddNodeCb 1, AddNodeCb 0])) \<and>
   Sort_start (heap (projr (run_events cb7 Nodeset_new ev_child_first)))
     (countedRefs (projr (run_events cb7 Nodeset_new ev_child_first)))
     (sortNodes (projr (run_events cb7 Nodeset_new ev_child_first))) = Some [1, 0]"
proof -
  let ?s = "projr (run_events cb7 Nodeset_new ev_child_first)"
  have ce: "containers_empty ?s"
    by (rule containers_empty_run [of cb7 ev_child_first]) (simp add: builder_eval scenario_defs)
  have "\<exists>s'. Nodeset_getSortedNodes Sort_start ?s = Inr (True, s', [AddNodeCb 1, AddNodeCb 0])"
    by (simp add: builder_eval scenario_defs)
  then obtain s' where gs: "Nodeset_getSortedNodes Sort_start ?s = Inr (True, s', [AddNodeCb 1, AddNodeCb 0])" ..
  from Emission.getSortedNodes_emits_sorter_order [OF Sort_start_meets_contract ce gs] ce gs show ?thesis by auto
qed

lemma Sort_start_contract_witness:
  "Sort_start (heap (projr (run_events cb7 Nodeset_new ev_child_first)))
     (countedRefs (projr (run_events cb7 Nodeset_new ev_child_first)))
     (sortNodes (projr (run_events cb7 Nodeset_new ev_child_first))) = Some [1, 0] \<and>
   mset [1, 0] = mset (sortNodes (projr (run_events cb7 Nodeset_new ev_child_first))) \<and>
   \<not> hierEdge (heap (projr (run_events cb7 Nodeset_new ev_child_first)))
       (countedRefs (projr (run_events cb7 Nodeset_new ev_child_first))) 0 1"
proof -
  let ?s = "projr (run_events cb7 Nodeset_new ev_child_first)"
  have st: "Sort_start (heap ?s) (countedRefs ?s) (sortNodes ?s) = Some [1, 0]"
    by (simp add: builder_eval scenario_defs)
  have cls: "nodeClass (heap ?s ! 1) = nodeClass (heap ?s ! 0)"
    by (simp add: builder_eval scenario_defs)
  from Sort.Sort_start_contract [of "heap ?s" "countedRefs ?s" "sortNodes ?s" "[1, 0]"] cls st show ?thesis
    by (simp add: phase_before_def)
qed

lemma Sort_start_stable_witness:
  "(\<forall>c. sorted_wrt (\<lambda>a b. \<not> hierEdge (heap (projr (run_events cb7 Nodeset_new ev_machine)))
                               (countedRefs (projr (run_events cb7 Nodeset_new ev_machine))) b a)
          (filter (\<lambda>p. nodeClass (heap (projr (run_events cb7 Nodeset_new ev_machine)) ! p) = c)
             (sortNodes (projr (run_events cb7 Nodeset_new ev_machine))))) \<and>
   Sort_start (heap (projr (run_events cb7 Nodeset_new ev_machine)))
     (countedRefs (projr (run_events cb7 Nodeset_new ev_machine)))
     (sortNodes (projr (run_events cb7 Nodeset_new ev_machine))) = Some [0, 1]"
proof -
  let ?s = "projr (run_events cb7 Nodeset_new ev_machine)"
  have sn: "sortNodes ?s = [0, 1]"
    and c0: "nodeClass (heap ?s ! 0) = NODECLASS_OBJECTTYPE"
    and c1: "nodeClass (heap ?s ! 1) = NODECLASS_VARIABLE"
    by (simp_all add: builder_eval scenario_defs)
  have srt: "\<forall>c. sorted_wrt (\<lambda>a b. \<not> hierEdge (heap ?s) (countedRefs ?s) b a)
                  (filter (\<lambda>p. nodeClass (heap ?s ! p) = c) (sortNodes ?s))"
    unfolding sn using c0 c1 by simp
  have loops: "\<forall>p \<in> set (sortNodes ?s). \<not> hierEdge (heap ?s) (countedRefs ?s) p p"
    by (simp add: builder_eval scenario_defs)
  from Sort.Sort_start_stable [OF srt loops] srt sn c0 c1 show ?thesis
    by (simp add: phases_def)
qed


lemma getSortedNodes_fails_iff_cycle_witness:
  "Nodeset_getSortedNodes Sort_start (projr (run_events cb7 Nodeset_new ev_cycle)) =
     Inr (False, projr (run_events cb7 Nodeset_new ev_cycle), []) \<and>
   (\<exists>c. \<exists>S \<subseteq> {p \<in> set (sortNodes (projr (run_events cb7 Nodeset_new ev_cycle))).
                   node_cls (projr (run_events cb7 Nodeset_new ev_cycle)) p = c}.
          S \<noteq> {} \<and> (\<forall>v \<in> S. \<exists>u \<in> S. sort_edge (projr (run_events cb7 Nodeset_new ev_cycle)) u v))"
proof -
  let ?s = "projr (run_events cb7 Nodeset_new ev_cycle)"
  have f: "Nodeset_getSortedNodes Sort_start ?s = Inr (False, ?s, [])"
    by (simp add: builder_eval scenario_defs)
  from Emission.getSortedNodes_fails_iff_cycle [OF Sort_start_meets_contract, of ?s] f show ?thesis by blast
qed

lemma getSortedNodes_deletes_values_witness:
  "containers_empty (projr (run_events cb7 Nodeset_new ev_machine)) \<and>
   (\<exists>s'. Nodeset_getSortedNodes Sort_start (projr (run_events cb7 Nodeset_new ev_machine)) =
          Inr (True, s', [AddNodeCb 0, AddNodeCb 1, DeleteValueCb 1])) \<and>
   [AddNodeCb 0, AddNodeCb 1, DeleteValueCb 1] =
     concat (map (\<lambda>p. if node_cls (projr (run_events cb7 Nodeset_new ev_machine)) p = NODECLASS_VARIABLE
                      then [AddNodeCb p, DeleteValueCb p] else [AddNodeCb p]) [0, 1])"
proof -
  let ?s = "projr (run_events cb7 Nodeset_new ev_machine)"
  have ce: "containers_empty ?s"
    by (rule containers_empty_run [of cb7 ev_machine]) (simp add: builder_eval scenario_defs)
  have "\<exists>s'. Nodeset_getSortedNodes Sort_start ?s = Inr (True, s', [AddNodeCb 0, AddNodeCb 1, DeleteValueCb 1])"
    by (simp add: builder_eval scenario_defs)
  then obtain s' where gs: "Nodeset_getSortedNodes Sort_start ?s = Inr (True, s', [AddNodeCb 0, AddNodeCb 1, DeleteValueCb 1])" ..
  from Emission.getSortedNodes_deletes_values [OF Sort_start_meets_contract ce gs] ce gs show ?thesis by auto
qed

lemma reachable_refs_exactly_once_witness:
  "reachable cb7 (projr (run_events cb7 Nodeset_new ev_controls)) \<and>
   count (mset (ref_ptrs (projr (run_events cb7 Nodeset_new ev_controls)))) 1 =
     (if 1 < length (countedRefs (projr (run_events cb7 Nodeset_new ev_controls))) then 1 else 0)"
proof -
  have r: "reachable cb7 (projr (run_events cb7 Nodeset_new ev_controls))"
    by (rule reachable_run [of cb7 ev_controls]) (simp add: builder_eval scenario_defs)
  from Builder.reachable_refs_exactly_once [OF r] r show ?thesis by simp
qed

lemma builder_step_hierRefTable_grows_witness:
  "builder_step cb7 (projr (run_events cb7 Nodeset_new (take 5 ev_controls))) (EvNewNodeFinish 0) =
     Inr (projr (builder_step cb7 (projr (run_events cb7 Nodeset_new (take 5 ev_controls))) (EvNewNodeFinish 0))) \<and>
   (\<exists>ext. hierRefTable (projr (builder_step cb7 (projr (run_events cb7 Nodeset_new (take 5 ev_controls))) (EvNewNodeFinish 0))) =
          hierRefTable (projr (run_events cb7 Nodeset_new (take 5 ev_controls))) @ ext)"
proof -
  let ?s = "projr (run_events cb7 Nodeset_new (take 5 ev_controls))"
  have st: "builder_step cb7 ?s (EvNewNodeFinish 0) = Inr (projr (builder_step cb7 ?s (EvNewNodeFinish 0)))"
    by (simp add: builder_eval scenario_defs)
  from Builder.builder_step_hierRefTable_grows [OF st] st show ?thesis by blast
qed

lemma reachable_hierRefTable_witness:
  "reachable cb7 (projr (run_events cb7 Nodeset_new ev_controls)) \<and>
   (\<exists>ext. hierRefTable (projr (run_events cb7 Nodeset_new ev_controls)) = builtin_hierachicalRefs @ ext \<and>
          length (hierRefTable (projr (run_events cb7 Nodeset_new ev_controls))) \<le> MAX_HIERACHICAL_REFS)"
proof -
  have r: "reachable cb7 (projr (run_events cb7 Nodeset_new ev_controls))"
    by (rule reachable_run [of cb7 ev_controls]) (simp add: builder_eval scenario_defs)
  from Builder.reachable_hierRefTable [OF r] r show ?thesis by blast
qed

lemma reachable_isKnownReferenceType_witness:
  "reachable cb7 (projr (run_events cb7 Nodeset_new ev_monitors)) \<and>
   \<not> isKnownReferenceType (heap (projr (run_events cb7 Nodeset_new ev_monitors)))
       (nodes (projr (run_events cb7 Nodeset_new ev_monitors)) NODECLASS_REFERENCETYPE)
       \<lparr>nsIdx = 7, idStr = Some ''i=6000''\<rparr>"
proof -
  have r: "reachable cb7 (projr (run_events cb7 Nodeset_new ev_monitors))"
    by (rule reachable_run [of cb7 ev_monitors]) (simp add: builder_eval scenario_defs)
  from Builder.reachable_isKnownReferenceType [OF r, of "\<lparr>nsIdx = 7, idStr = Some ''i=6000''\<rparr>"] r
  show ?thesis by simp
qed


lemma alias_declared_resolves_witness:
  "getAttributeValue attrAlias [xa ''Alias'' ''HasComponent''] = Some ''HasComponent'' \<and>
   AliasList_getNodeId (aliasList Nodeset_new) (Some ''HasComponent'') = None \<and>
   alias2Id (aliasList (projr (Nodeset_newAliasFinish (fst (Nodeset_newAlias Nodeset_new [xa ''Alias'' ''HasComponent'']))
                                 (snd (Nodeset_newAlias Nodeset_new [xa ''Alias'' ''HasComponent''])) ''i=47'')))
            (namespaceTable Nodeset_new) (Some ''HasComponent'') = Inr \<lparr>nsIdx = 0, idStr = Some ''i=47''\<rparr>"
proof -
  let ?a = "Nodeset_newAlias Nodeset_new [xa ''Alias'' ''HasComponent'']"
  let ?s' = "projr (Nodeset_newAliasFinish (fst ?a) (snd ?a) ''i=47'')"
  have h1: "getAttributeValue attrAlias [xa ''Alias'' ''HasComponent''] = Some ''HasComponent''"
    by (simp add: xa_def)
  have h2: "AliasList_getNodeId (aliasList Nodeset_new) (Some ''HasComponent'') = None"
    by (simp add: Nodeset_new_def)
  have h3: "Nodeset_newAliasFinish (fst ?a) (snd ?a) ''i=47'' = Inr ?s'"
    by (simp add: builder_eval xa_def)
  have ns: "namespaceTable ?s' = namespaceTable Nodeset_new"
    by (simp add: builder_eval xa_def)
  from Events.alias_declared_resolves [OF h1 h2 h3] h1 h2 ns show ?thesis
    by (simp add: extractNodedId_def)
qed

lemma newReference_finish_shared_witness:
  "(let s = projr (run_events cb7 Nodeset_new [EvNewNode NODECLASS_OBJECT [xa ''NodeId'' ''i=1'', xa ''BrowseName'' ''A'']]);
        attrs = [xa ''ReferenceType'' ''i=47'', xa ''IsForward'' ''1''];
        s1 = fst (projr (Nodeset_newReference s 0 attrs));
        s2 = projr (Nodeset_newReferenceFinish s1 0 0 ''i=2'')
    in Nodeset_newReference s 0 attrs = Inr (s1, 0) \<and> Nodeset_newReferenceFinish s1 0 0 ''i=2'' = Inr s2 \<and>
       0 \<in> set (hierachicalRefs (heap s2 ! 0)) \<union> set (nonHierachicalRefs (heap s2 ! 0)) \<and>
       \<not> isForward (countedRefs s2 ! 0))"
proof -
  let ?s = "projr (run_events cb7 Nodeset_new [EvNewNode NODECLASS_OBJECT [xa ''NodeId'' ''i=1'', xa ''BrowseName'' ''A'']])"
  let ?attrs = "[xa ''ReferenceType'' ''i=47'', xa ''IsForward'' ''1'']"
  let ?s1 = "fst (projr (Nodeset_newReference ?s 0 ?attrs))"
  let ?s2 = "projr (Nodeset_newReferenceFinish ?s1 0 0 ''i=2'')"
  have h1: "Nodeset_newReference ?s 0 ?attrs = Inr (?s1, 0)"
    by (simp add: builder_eval xa_def)
  have h2: "Nodeset_newReferenceFinish ?s1 0 0 ''i=2'' = Inr ?s2"
    by (simp add: builder_eval xa_def)
  have fw: "getAttributeValue attrIsForward ?attrs = Some ''1''"
    by (simp add: xa_def)
  from Events.newReference_finish_shared [OF h1 h2] h1 h2 fw show ?thesis by (simp add: Let_def)
qed


lemma reachable_linked_refines_witness:
  "let p = projr (run_linked cb7 Nodeset_new links_new ev_controls)
   in reachable_linked cb7 (fst p) (snd p) \<and> reachable cb7 (fst p) \<and>
      length (node_heads (snd p)) = length (heap (fst p)) \<and>
      chain (ref_next (snd p)) (fst (node_heads (snd p) ! 1)) (hierachicalRefs (heap (fst p) ! 1))"
proof -
  let ?p = "projr (run_linked cb7 Nodeset_new links_new ev_controls)"
  have run: "run_linked cb7 Nodeset_new links_new ev_controls = Inr (fst ?p, snd ?p)"
    by (simp add: builder_eval scenario_defs push_ref_def ref_hier_def links_new_def)
  have r: "reachable_linked cb7 (fst ?p) (snd ?p)"
    by (rule run_linked_reachable [OF reachable_linked.init run])
  have q: "1 < length (heap (fst ?p))"
    by (simp add: builder_eval scenario_defs push_ref_def ref_hier_def links_new_def)
  from Links.reachable_linked_refines [OF r] r q show ?thesis
    by (simp add: Let_def)
qed

lemma reachable_walk_terminates_witness:
  "let p = projr (run_linked cb7 Nodeset_new links_new ev_controls)
   in reachable_linked cb7 (fst p) (snd p) \<and> 1 < length (heap (fst p)) \<and>
      walk_refs (ref_next (snd p)) (fst (node_heads (snd p) ! 1)) = Some [1]"
proof -
  let ?p = "projr (run_linked cb7 Nodeset_new links_new ev_controls)"
  have run: "run_linked cb7 Nodeset_new links_new ev_controls = Inr (fst ?p, snd ?p)"
    by (simp add: builder_eval scenario_defs push_ref_def ref_hier_def links_new_def)
  have r: "reachable_linked cb7 (fst ?p) (snd ?p)"
    by (rule run_linked_reachable [OF reachable_linked.init run])
  have q: "1 < length (heap (fst ?p))" and l: "hierachicalRefs (heap (fst ?p) ! 1) = [1]"
    by (simp_all add: builder_eval scenario_defs push_ref_def ref_hier_def links_new_def)
  from Links.reachable_walk_terminates [OF r q] r q l show ?thesis
    by (simp add: Let_def)
qed


lemma cleanup_after_sort_releases_each_once_witness:
  "reachable cb7 (projr (run_events cb7 Nodeset_new ev_machine)) \<and>
   (\<exists>s'. Nodeset_getSortedNodes Sort_start (projr (run_events cb7 Nodeset_new ev_machine)) =
          Inr (True, s', [AddNodeCb 0, AddNodeCb 1, DeleteValueCb 1]) \<and>
        mset (freed_nodes (Nodeset_cleanup s')) = mset [0, 1] \<and> freed_refs (Nodeset_cleanup s') = [0])"
proof -
  let ?s = "projr (run_events cb7 Nodeset_new ev_machine)"
  have r: "reachable cb7 ?s"
    by (rule reachable_run [of cb7 ev_machine]) (simp add: builder_eval scenario_defs)
  have "\<exists>s'. Nodeset_getSortedNodes Sort_start ?s = Inr (True, s', [AddNodeCb 0, AddNodeCb 1, DeleteValueCb 1])"
    by (simp add: builder_eval scenario_defs)
  then obtain s' where gs: "Nodeset_getSortedNodes Sort_start ?s = Inr (True, s', [AddNodeCb 0, AddNodeCb 1, DeleteValueCb 1])" ..
  have sn: "sortNodes ?s = [0, 1]" and cr: "length (countedRefs ?s) = 1"
    by (simp_all add: builder_eval scenario_defs)
  from Cleanup.cleanup_after_sort_releases_each_once [OF Sort_start_meets_contract r gs] r gs sn cr show ?thesis by auto
qed

lemma cleanup_releases_no_node_unsorted_witness:
  "reachable cb7 (projr (run_events cb7 Nodeset_new ev_cycle)) \<and>
   length (heap (projr (run_events cb7 Nodeset_new ev_cycle))) = 2 \<and>
   Nodeset_getSortedNodes Sort_start (projr (run_events cb7 Nodeset_new ev_cycle)) =
     Inr (False, projr (run_events cb7 Nodeset_new ev_cycle), []) \<and>
   freed_nodes (Nodeset_cleanup (projr (run_events cb7 Nodeset_new ev_cycle))) = []"
proof -
  let ?s = "projr (run_events cb7 Nodeset_new ev_cycle)"
  have r: "reachable cb7 ?s"
    by (rule reachable_run [of cb7 ev_cycle]) (simp add: builder_eval scenario_defs)
  have h: "length (heap ?s) = 2" and g: "Nodeset_getSortedNodes Sort_start ?s = Inr (False, ?s, [])"
    by (simp_all add: builder_eval scenario_defs)
  from Cleanup.cleanup_releases_no_node_unsorted [OF r] r h g show ?thesis by simp
qed

text \<open>
  C17: for every document the parser can feed whose phases hold no cycle
  and whose classes fit their containers, \<open>Nodeset_getSortedNodes\<close>
  succeeds and delivers every finished node (spec P3 with the sort's
  progress: no node is held back).
\<close>

theorem loaded_getSortedNodes_delivers:
  assumes "sort_contract srt" and "reachable cb s"
    and "\<forall>c. length (filter (\<lambda>p. node_cls s p = c) (sortNodes s)) \<le> container_capacity c"
    and "\<not> (\<exists>c. \<exists>S \<subseteq> {p \<in> set (sortNodes s). node_cls s p = c}. S \<noteq> {} \<and> (\<forall>v \<in> S. \<exists>u \<in> S. sort_edge s u v))"
  shows "\<exists>s' ev. Nodeset_getSortedNodes srt s = Inr (True, s', ev) \<and> mset (added_nodes ev) = mset (sortNodes s)"
proof -
  have inv: "builder_inv s" using reachable_builder_inv [OF assms(2)] .
  then have ce: "containers_empty s" and "\<forall>p \<in> set (sortNodes s). p < length (heap s)"
    by (simp_all add: builder_inv_def)
  from getSortedNodes_defined [OF assms(1) this assms(3)] obtain b s' ev where
    gs: "Nodeset_getSortedNodes srt s = Inr (b, s', ev)" by auto
  have b: "b = True"
  proof (rule ccontr)
    assume "b \<noteq> True"
    with gs have "srt (heap s) (countedRefs s) (sortNodes s) = None"
      using getSortedNodes_False_iff [of srt s] by auto
    with assms(4) sort_contract_at(1) [OF assms(1), of s] show False unfolding class_cycle_def by blast
  qed
  with gs have "Nodeset_getSortedNodes srt s = Inr (True, s', ev)" by simp
  with getSortedNodes_emits_each_once [OF assms(1) ce this] show ?thesis by blast
qed

lemma no_class_cycle:
  "\<forall>u \<in> set xs. \<forall>v \<in> set xs. cls u = cls v \<longrightarrow> \<not> E u v \<Longrightarrow>
   \<not> (\<exists>c. \<exists>S \<subseteq> {p \<in> set xs. cls p = c}. S \<noteq> {} \<and> (\<forall>v \<in> S. \<exists>u \<in> S. E u v))"
  by blast

lemma loaded_getSortedNodes_delivers_witness:
  "reachable cb7 (projr (run_events cb7 Nodeset_new ev_machine)) \<and>
   (\<exists>s' ev. Nodeset_getSortedNodes Sort_start (projr (run_events cb7 Nodeset_new ev_machine)) = Inr (True, s', ev) \<and>
           mset (added_nodes ev) = mset [0, 1])"
proof -
  let ?s = "projr (run_events cb7 Nodeset_new ev_machine)"
  have r: "reachable cb7 ?s"
    by (rule reachable_run [of cb7 ev_machine]) (simp add: builder_eval scenario_defs)
  have sn: "sortNodes ?s = [0, 1]" and c0: "node_cls ?s 0 = NODECLASS_OBJECTTYPE"
    and c1: "node_cls ?s 1 = NODECLASS_VARIABLE" and e00: "\<not> sort_edge ?s 0 0" and e11: "\<not> sort_edge ?s 1 1"
    by (simp_all add: builder_eval scenario_defs node_cls_def sort_edge_def)
  have cap: "\<forall>c. length (filter (\<lambda>p. node_cls ?s p = c) (sortNodes ?s)) \<le> container_capacity c"
  proof
    fix c
    show "length (filter (\<lambda>p. node_cls ?s p = c) (sortNodes ?s)) \<le> container_capacity c"
      unfolding sn using c0 c1 by (cases c) simp_all
  qed
  have "\<forall>u \<in> set (sortNodes ?s). \<forall>v \<in> set (sortNodes ?s). node_cls ?s u = node_cls ?s v \<longrightarrow> \<not> sort_edge ?s u v"
    unfolding sn using c0 c1 e00 e11 by auto
  then have acyc: "\<not> (\<exists>c. \<exists>S \<subseteq> {p \<in> set (sortNodes ?s). node_cls ?s p = c}. S \<noteq> {} \<and>
                          (\<forall>v \<in> S. \<exists>u \<in> S. sort_edge ?s u v))"
    by (rule no_class_cycle)
  from loaded_getSortedNodes_delivers [OF Sort_start_meets_contract r cap acyc] r sn show ?thesis by simp
qed

lemma doc_example_run:
  "run_sax cb7 (driver_new, Nodeset_new) doc_example = Inr doc_state"
  by (simp add: doc_state_def doc_example_def xa_def cb7_def driver_eval builder_eval)

lemma doc_state_reachable: "driver_reachable cb7 doc_state"
  by (rule run_sax_reachable [OF driver_reachable.init doc_example_run])

lemma doc_state_top: "ctx_state (pctx (fst doc_state)) = PARSER_STATE_INIT"
  by (simp add: doc_state_def doc_example_def xa_def cb7_def driver_eval builder_eval)

lemma driver_reachable_inv_witness:
  "driver_reachable cb7 (fst doc_state, snd doc_state) \<and> driver_inv (fst doc_state) (snd doc_state)"
  using driver_reachable_inv [of cb7 "fst doc_state" "snd doc_state"] doc_state_reachable by simp

lemma driver_no_dangling_pointer_witness:
  "\<exists>err. driver_reachable cb7 (fst doc_state, snd doc_state) \<and>
     driver_step cb7 (fst doc_state, snd doc_state) (StartElement ''UAObject'' []) = Inl err \<and>
     \<not> dangling err"
proof -
  obtain err where err: "driver_step cb7 (fst doc_state, snd doc_state) (StartElement ''UAObject'' []) = Inl err"
    by (simp add: doc_state_def doc_example_def xa_def cb7_def driver_eval builder_eval)
  with doc_state_reachable show ?thesis
    using driver_no_dangling_pointer [of cb7 "fst doc_state" "snd doc_state"] by auto
qed

lemma document_nodes_delivered_once_witness:
  "\<exists>s' ev. sort_contract Sort_start \<and> driver_reachable cb7 (fst doc_state, snd doc_state) \<and>
     ctx_state (pctx (fst doc_state)) = PARSER_STATE_INIT \<and>
     Nodeset_getSortedNodes Sort_start (snd doc_state) = Inr (True, s', ev) \<and>
     mset (added_nodes ev) = mset [0..<length (heap (snd doc_state))]"
proof -
  obtain s' ev where run: "Nodeset_getSortedNodes Sort_start (snd doc_state) = Inr (True, s', ev)"
    by (simp add: doc_state_def doc_example_def xa_def cb7_def driver_eval builder_eval)
  with Sort_start_meets_contract doc_state_reachable doc_state_top show ?thesis
    using document_nodes_delivered_once [of Sort_start cb7 "fst doc_state" "snd doc_state"] by auto
qed

lemma reachable_user_reference_hierarchical_witness:
  "\<exists>s'. reachable cb7 (projr (run_events cb7 Nodeset_new ev_translate)) \<and>
     Nodeset_newReference (projr (run_events cb7 Nodeset_new ev_translate)) 0
       [xa ''ReferenceType'' ''ns=1;i=6000''] = Inr (s', 0) \<and>
     nsIdx (refType (countedRefs s' ! 0)) \<noteq> 0 \<and> 0 \<in> set (hierachicalRefs (heap s' ! 0))"
proof -
  let ?s = "projr (run_events cb7 Nodeset_new ev_translate)"
  have r: "reachable cb7 ?s"
    by (rule reachable_run [of cb7 ev_translate]) (simp add: builder_eval scenario_defs)
  obtain s' where n: "Nodeset_newReference ?s 0 [xa ''ReferenceType'' ''ns=1;i=6000''] = Inr (s', 0)"
    and k: "nsIdx (refType (countedRefs s' ! 0)) \<noteq> 0"
    by (simp add: builder_eval scenario_defs)
  from Events.reachable_user_reference_hierarchical [OF r n k] r n k show ?thesis by blast
qed

lemma reference_type_fixed_at_creation_witness:
  "\<exists>s1 s2. getAttributeValue attrReferenceType [xa ''ReferenceType'' ''HasComponent'', xa ''IsForward'' ''false''] =
       Some ''HasComponent'' \<and>
     Some ''HasComponent'' \<notin> alias_name ` set (aliasList (projr (run_events cb7 Nodeset_new (take 1 ev_component_ref)))) \<and>
     Nodeset_newReference (projr (run_events cb7 Nodeset_new (take 1 ev_component_ref))) 0
       [xa ''ReferenceType'' ''HasComponent'', xa ''IsForward'' ''false''] = Inr (s1, 0) \<and>
     run_events cb7 s1 (drop 2 ev_component_ref @ ev_alias_decl) = Inr s2 \<and>
     AliasList_getNodeId (aliasList s2) (Some ''HasComponent'') = Some \<lparr>nsIdx = 0, idStr = Some ''i=47''\<rparr> \<and>
     extractNodedId (namespaceTable (projr (run_events cb7 Nodeset_new (take 1 ev_component_ref)))) (Some ''HasComponent'') =
       Inr (refType (countedRefs s2 ! 0))"
proof -
  let ?s = "projr (run_events cb7 Nodeset_new (take 1 ev_component_ref))"
  let ?a = "[xa ''ReferenceType'' ''HasComponent'', xa ''IsForward'' ''false'']"
  have g: "getAttributeValue attrReferenceType ?a = Some ''HasComponent''"
    by (simp add: xa_def)
  have n: "Some ''HasComponent'' \<notin> alias_name ` set (aliasList ?s)"
    by (simp add: builder_eval scenario_defs)
  obtain s1 s2 where c: "Nodeset_newReference ?s 0 ?a = Inr (s1, 0)"
    and run: "run_events cb7 s1 (drop 2 ev_component_ref @ ev_alias_decl) = Inr s2"
    and al: "AliasList_getNodeId (aliasList s2) (Some ''HasComponent'') = Some \<lparr>nsIdx = 0, idStr = Some ''i=47''\<rparr>"
    by (simp add: builder_eval scenario_defs)
  from Events.reference_type_fixed_at_creation [OF g n c run] g n c run al show ?thesis by blast
qed

end
